(* ===== verification/Prelude.thy ===== *)
theory Prelude
  imports Main "HOL-Library.Word" "HOL-Library.List_Lexorder" "HOL-Library.Char_ord"
    "HOL-Library.Sublist"
begin

text \<open>
  Shared vocabulary of the development. Go's \<open>int64\<close> is \<open>64 word\<close>. Its \<open>++\<close> is word
  addition, so it wraps. Its ordering is \<open>sint\<close>. Go strings are byte sequences, so they
  are HOL strings, whose \<open>char\<close>s are bytes.
  \<open>utf8.RuneCountInString\<close> and the conversion \<open>[]rune(s)\<close> are written out on those
  bytes: a rune starts at every byte that is not a UTF-8 continuation byte (\<open>10xxxxxx\<close>).
  On valid UTF-8 this counts exactly what Go counts. Objects that the program shares by
  pointer live in a heap. A heap is a list of objects and an address is an index into it.
\<close>

type_synonym int64 = "64 word"
type_synonym addr = nat

named_theorems heap_simps "reading the post heap after allocation and update"
named_theorems store_simps "thread store operations on concrete states"
named_theorems rune_simps "rune counting and rune truncation"

subsection \<open>UTF-8 runes over byte strings\<close>

definition utf8_cont :: "char \<Rightarrow> bool" where
  "utf8_cont c \<longleftrightarrow> of_char c div 64 = (2::nat)"

definition rune_count :: "string \<Rightarrow> nat" where
  "rune_count s = length (filter (\<lambda>c. \<not> utf8_cont c) s)"

text \<open>\<open>string([]rune(s)[:n])\<close>: the bytes of the first \<open>n\<close> runes.\<close>

fun take_runes :: "nat \<Rightarrow> string \<Rightarrow> string" where
  "take_runes n [] = []"
| "take_runes n (c # cs) =
     (if utf8_cont c then c # take_runes n cs
      else (case n of 0 \<Rightarrow> [] | Suc m \<Rightarrow> c # take_runes m cs))"

lemma rune_count_Nil [simp, rune_simps]: "rune_count [] = 0"
  by (simp add: rune_count_def)

lemma rune_count_Cons [simp, rune_simps]:
  "rune_count (c # cs) = (if utf8_cont c then rune_count cs else Suc (rune_count cs))"
  by (simp add: rune_count_def)

lemma rune_count_append [rune_simps]: "rune_count (s @ t) = rune_count s + rune_count t"
  by (simp add: rune_count_def)

lemma rune_count_le_length: "rune_count s \<le> length s"
  by (simp add: rune_count_def)

lemma rune_count_take_runes [rune_simps]:
  "rune_count (take_runes n s) = min n (rune_count s)"
  by (induction n s rule: take_runes.induct) (auto split: nat.split)

lemma take_runes_prefix [rune_simps]: "prefix (take_runes n s) s"
  by (induction n s rule: take_runes.induct) (auto split: nat.split)

lemma take_runes_all [rune_simps]: "rune_count s \<le> n \<Longrightarrow> take_runes n s = s"
  by (induction n s rule: take_runes.induct) (auto split: nat.split if_splits)

lemma ascii_not_cont: "of_char c < (128::nat) \<Longrightarrow> \<not> utf8_cont c"
  by (simp add: utf8_cont_def)

subsection \<open>Word and list facts shared by the components\<close>

lemma word_reach: "(u::'a::len word) = t + of_nat (unat (u - t))"
  by simp

lemma map_filter_map_Some [simp]: "List.map_filter Some xs = xs"
  by (induction xs) simp_all

lemma ran_upd_subset: "ran (m(k \<mapsto> v)) \<subseteq> insert v (ran m)"
  by (auto simp: ran_def)

lemma map_filter_all_Some:
  "(\<forall>k\<in>set ks. f k \<noteq> None) \<Longrightarrow> List.map_filter f ks = map (the \<circ> f) ks"
  by (induction ks) (auto simp: List.map_filter_simps split: option.split)

lemma append_Cons_sep_inj:
  "x \<notin> set a \<Longrightarrow> x \<notin> set b \<Longrightarrow> p @ x # a = q @ x # b \<Longrightarrow> p = q \<and> a = b"
proof (induction p arbitrary: q)
  case Nil
  then show ?case by (cases q) auto
next
  case (Cons y p)
  then show ?case by (cases q) auto
qed

lemma those_map_Some_mono:
  assumes "those (map f xs) = Some ys"
    and "\<And>x y. x \<in> set xs \<Longrightarrow> f x = Some y \<Longrightarrow> g x = Some y"
  shows "those (map g xs) = Some ys"
  using assms by (induction xs arbitrary: ys) (auto split: option.splits)

lemma those_map_not_None:
  "(\<forall>x\<in>set xs. f x \<noteq> None) \<Longrightarrow> those (map f xs) \<noteq> None"
  by (induction xs) (auto split: option.splits)

lemma ledger_not_full:
  "card (L :: 'a::len word set) < 2 ^ LENGTH('a) \<Longrightarrow> L \<noteq> UNIV"
  by (auto simp: card_word)

lemma those_map_length: "those (map f xs) = Some ys \<Longrightarrow> length ys = length xs"
  by (induction xs arbitrary: ys) (auto split: option.splits)

lemma map_filter_fun_upd_other:
  "k \<notin> set ks \<Longrightarrow> List.map_filter (m(k := v)) ks = List.map_filter m ks"
  by (induction ks) (auto split: option.split)

lemma distinct_drop_inj:
  assumes "distinct (map f (drop n h))" "S \<subseteq> {n..<length h}"
  shows "inj_on (\<lambda>a. f (h ! a)) S"
proof (rule inj_onI)
  fix a b assume ab: "a \<in> S" "b \<in> S" "f (h ! a) = f (h ! b)"
  from ab(1,2) assms(2) have "a \<in> {n..<length h}" "b \<in> {n..<length h}" by auto
  with ab(3) have "a - n < length (map f (drop n h))" "b - n < length (map f (drop n h))"
    "map f (drop n h) ! (a - n) = map f (drop n h) ! (b - n)" by auto
  with assms(1) have "a - n = b - n" using nth_eq_iff_index_eq by blast
  with \<open>a \<in> {n..<length h}\<close> \<open>b \<in> {n..<length h}\<close> show "a = b" by auto
qed

end
