(* ===== verification/Post.thy ===== *)
theory Post
  imports Prelude
begin

text \<open>
  \<open>IntermediatePost\<close> (src/unnamed/part_001, lines 110--127) and the heap that holds
  the posts. In Go a post is a pointer (\<open>*IntermediatePost\<close>). Its \<open>Replies\<close> are
  pointers too. A thread store hands out the pointer of a root, and the caller appends
  replies to that root in place. So posts are cells of a heap and \<open>Replies\<close> is a
  list of addresses. \<open>post_doc\<close> is the JSON form of a post with its replies, as the
  cache-backed thread store keeps it. \<open>to_doc\<close> serialises a heap post into that form
  and \<open>alloc_doc\<close> deserialises it into fresh cells. The round trip is proved.
\<close>

definition posgresql_max_post_size :: nat where
  "posgresql_max_post_size = 65535 div 4"

record post_data =
  post_user :: string
  post_channel :: string
  post_message :: string
  post_props :: "string list option"
  post_create_at :: int64
  post_attachments :: "string list"
  post_is_direct :: bool
  post_channel_members :: "string list"

record ipost = post_data +
  post_replies :: "addr list"

text \<open>
  \<open>&IntermediatePost{User: u, Channel: c, Message: m, CreateAt: t}\<close>: every other
  field has Go's zero value. \<open>Props\<close> is a \<open>model.StringInterface\<close>. The program only
  ever leaves it nil or sets it to \<open>{"attachments": atts}\<close>, so the model keeps
  \<open>None\<close> or \<open>Some atts\<close>, with each attachment given by its JSON text.
\<close>

definition new_post :: "string \<Rightarrow> string \<Rightarrow> string \<Rightarrow> int64 \<Rightarrow> ipost" where
  "new_post u ch msg t =
     \<lparr>post_user = u, post_channel = ch, post_message = msg, post_props = None,
      post_create_at = t, post_attachments = [], post_is_direct = False,
      post_channel_members = [], post_replies = []\<rparr>"

definition sanitise_post :: "'a post_data_scheme \<Rightarrow> 'a post_data_scheme" where
  "sanitise_post p =
     (if posgresql_max_post_size < rune_count (post_message p)
      then p\<lparr>post_message := take_runes posgresql_max_post_size (post_message p)\<rparr>
      else p)"

subsection \<open>The post heap\<close>

type_synonym heap = "ipost list"

definition alloc :: "ipost \<Rightarrow> heap \<Rightarrow> addr \<times> heap" where
  "alloc p h = (length h, h @ [p])"

definition deref :: "heap \<Rightarrow> addr \<Rightarrow> ipost option" where
  "deref h a = (if a < length h then Some (h ! a) else None)"

definition heap_upd :: "heap \<Rightarrow> addr \<Rightarrow> ipost \<Rightarrow> heap" where
  "heap_upd h a p = h[a := p]"

subsection \<open>JSON documents of posts\<close>

datatype post_doc = PostDoc post_data "post_doc list"

definition mk_ipost :: "post_data \<Rightarrow> addr list \<Rightarrow> ipost" where
  "mk_ipost d rs = post_data.extend d (ipost.fields rs)"

text \<open>
  Serialisation follows the \<open>replies\<close> pointers. A pointer cycle would make
  \<open>json.Marshal\<close> fail. The fuel makes that failure the value \<open>None\<close>.
  \<open>serialize\<close> gives one unit of fuel more than there are cells, and that is enough
  for every acyclic heap.
\<close>

fun to_doc :: "nat \<Rightarrow> heap \<Rightarrow> addr \<Rightarrow> post_doc option" where
  "to_doc 0 h a = None"
| "to_doc (Suc n) h a =
     (case deref h a of
        None \<Rightarrow> None
      | Some p \<Rightarrow>
          map_option (PostDoc (post_data.truncate p)) (those (map (to_doc n h) (post_replies p))))"

definition serialize :: "heap \<Rightarrow> addr \<Rightarrow> post_doc option" where
  "serialize h a = to_doc (Suc (length h)) h a"

fun alloc_doc :: "post_doc \<Rightarrow> heap \<Rightarrow> addr \<times> heap"
  and alloc_docs :: "post_doc list \<Rightarrow> heap \<Rightarrow> addr list \<times> heap" where
  "alloc_doc (PostDoc d ds) h =
     (case alloc_docs ds h of (rs, h1) \<Rightarrow> alloc (mk_ipost d rs) h1)"
| "alloc_docs [] h = ([], h)"
| "alloc_docs (d # ds) h =
     (case alloc_doc d h of (a, h1) \<Rightarrow>
        (case alloc_docs ds h1 of (rs, h2) \<Rightarrow> (a # rs, h2)))"

fun doc_depth :: "post_doc \<Rightarrow> nat" and docs_depth :: "post_doc list \<Rightarrow> nat" where
  "doc_depth (PostDoc d ds) = Suc (docs_depth ds)"
| "docs_depth [] = 0"
| "docs_depth (d # ds) = max (doc_depth d) (docs_depth ds)"

fun doc_nodes :: "post_doc \<Rightarrow> nat" and docs_nodes :: "post_doc list \<Rightarrow> nat" where
  "doc_nodes (PostDoc d ds) = Suc (docs_nodes ds)"
| "docs_nodes [] = 0"
| "docs_nodes (d # ds) = doc_nodes d + docs_nodes ds"

subsection \<open>Heap lemmas\<close>

lemma fst_alloc [heap_simps]: "fst (alloc p h) = length h"
  and length_alloc [heap_simps]: "length (snd (alloc p h)) = Suc (length h)"
  by (simp_all add: alloc_def)

lemma deref_alloc [heap_simps]:
  "deref (snd (alloc p h)) a = (if a = length h then Some p else deref h a)"
  by (auto simp: alloc_def deref_def nth_append)

lemma deref_snoc [heap_simps]:
  "deref (h @ [p]) a = (if a = length h then Some p else deref h a)"
  by (auto simp: deref_def nth_append)

lemma deref_heap_upd [heap_simps]:
  "deref (heap_upd h a p) b = (if a = b \<and> a < length h then Some p else deref h b)"
  by (auto simp: heap_upd_def deref_def)

lemma length_heap_upd [heap_simps]: "length (heap_upd h a p) = length h"
  by (simp add: heap_upd_def)

lemma deref_Some_less: "deref h a = Some p \<Longrightarrow> a < length h"
  by (simp add: deref_def split: if_splits)

lemma deref_append: "deref h a = Some p \<Longrightarrow> deref (h @ e) a = Some p"
  by (simp add: deref_def nth_append split: if_splits)

lemma mk_ipost_sel [simp]:
  "post_data.truncate (mk_ipost d rs) = d" "post_replies (mk_ipost d rs) = rs"
  "post_message (mk_ipost d rs) = post_message d" "post_user (mk_ipost d rs) = post_user d"
  "post_create_at (mk_ipost d rs) = post_create_at d"
  by (simp_all add: mk_ipost_def post_data.defs ipost.defs)

lemma new_post_sel [simp]:
  "post_user (new_post u ch msg t) = u" "post_channel (new_post u ch msg t) = ch"
  "post_message (new_post u ch msg t) = msg" "post_props (new_post u ch msg t) = None"
  "post_create_at (new_post u ch msg t) = t" "post_attachments (new_post u ch msg t) = []"
  "post_is_direct (new_post u ch msg t) = False" "post_channel_members (new_post u ch msg t) = []"
  "post_replies (new_post u ch msg t) = []"
  by (simp_all add: new_post_def)

lemma sanitise_post_fields [simp]:
  "post_replies (sanitise_post p) = post_replies p"
  "post_user (sanitise_post p) = post_user p"
  "post_create_at (sanitise_post p) = post_create_at p"
  "post_is_direct (sanitise_post p) = post_is_direct p"
  "post_channel_members (sanitise_post p) = post_channel_members p"
  by (simp_all add: sanitise_post_def)

subsection \<open>Serialisation lemmas\<close>

lemma to_doc_mono: "to_doc n h a = Some d \<Longrightarrow> n \<le> m \<Longrightarrow> to_doc m h a = Some d"
proof (induction n arbitrary: m a d)
  case 0
  then show ?case by simp
next
  case (Suc n)
  then obtain m' where m: "m = Suc m'" and nm: "n \<le> m'" by (cases m) auto
  from Suc.prems(1) obtain p ds where p: "deref h a = Some p"
    and ds: "those (map (to_doc n h) (post_replies p)) = Some ds"
    and d: "d = PostDoc (post_data.truncate p) ds"
    by (auto split: option.splits)
  have "those (map (to_doc m' h) (post_replies p)) = Some ds"
    using ds by (rule those_map_Some_mono) (rule Suc.IH [OF _ nm])
  with p d m show ?case by simp
qed

lemma to_doc_append: "to_doc n h a = Some d \<Longrightarrow> to_doc n (h @ e) a = Some d"
proof (induction n arbitrary: a d)
  case 0
  then show ?case by simp
next
  case (Suc n)
  then show ?case
    by (auto simp: deref_append split: option.splits intro: those_map_Some_mono)
qed

lemma depth_le_nodes: "doc_depth d \<le> doc_nodes d" "docs_depth ds \<le> docs_nodes ds"
  by (induction d and ds rule: doc_depth_docs_depth.induct) auto

lemma alloc_doc_spec:
  "alloc_doc d h = (a, h') \<Longrightarrow>
     (\<exists>e. h' = h @ e) \<and> length h' = length h + doc_nodes d \<and>
     (\<forall>n. doc_depth d \<le> n \<longrightarrow> to_doc n h' a = Some d)"
  "alloc_docs ds h = (rs, h') \<Longrightarrow>
     (\<exists>e. h' = h @ e) \<and> length h' = length h + docs_nodes ds \<and>
     (\<forall>n. docs_depth ds \<le> n \<longrightarrow> those (map (to_doc n h') rs) = Some ds)"
proof (induction d h and ds h arbitrary: a h' and rs h' rule: alloc_doc_alloc_docs.induct)
  case (1 d ds h)
  obtain rs h1 where ds: "alloc_docs ds h = (rs, h1)" by fastforce
  with "1.prems" have a: "a = length h1" and h': "h' = h1 @ [mk_ipost d rs]"
    by (auto simp: alloc_def)
  from "1.IH" [OF ds] obtain e where h1: "h1 = h @ e"
    and len: "length h1 = length h + docs_nodes ds"
    and docs: "\<forall>n. docs_depth ds \<le> n \<longrightarrow> those (map (to_doc n h1) rs) = Some ds"
    by blast
  have "to_doc n h' a = Some (PostDoc d ds)" if "Suc (docs_depth ds) \<le> n" for n
  proof -
    from that obtain m where n: "n = Suc m" and "docs_depth ds \<le> m" by (cases n) auto
    with docs have "those (map (to_doc m h1) rs) = Some ds" by blast
    then have "those (map (to_doc m h') rs) = Some ds"
      unfolding h' by (rule those_map_Some_mono) (rule to_doc_append)
    then show ?thesis by (simp add: n a h' deref_def)
  qed
  with h1 len h' show ?case by simp
next
  case (2 h)
  then show ?case by simp
next
  case (3 d ds h)
  obtain a1 h1 where d: "alloc_doc d h = (a1, h1)" by fastforce
  obtain rs1 h2 where ds: "alloc_docs ds h1 = (rs1, h2)" by fastforce
  from "3.prems" d ds have rs: "rs = a1 # rs1" and h': "h' = h2" by simp_all
  from "3.IH"(1) [OF d] obtain e1 where h1: "h1 = h @ e1"
    and len1: "length h1 = length h + doc_nodes d"
    and doc: "\<forall>n. doc_depth d \<le> n \<longrightarrow> to_doc n h1 a1 = Some d" by blast
  from "3.IH"(2) [OF d [symmetric] ds] obtain e2 where h2: "h2 = h1 @ e2"
    and len2: "length h2 = length h1 + docs_nodes ds"
    and docs: "\<forall>n. docs_depth ds \<le> n \<longrightarrow> those (map (to_doc n h2) rs1) = Some ds" by blast
  have "those (map (to_doc n h2) (a1 # rs1)) = Some (d # ds)"
    if "max (doc_depth d) (docs_depth ds) \<le> n" for n
    using that doc docs by (simp add: h2 to_doc_append)
  with h1 h2 len1 len2 rs h' show ?case by auto
qed

theorem serialize_alloc_doc:
  assumes "alloc_doc d h = (a, h')"
  shows "serialize h' a = Some d"
proof -
  from alloc_doc_spec(1) [OF assms] have len: "length h' = length h + doc_nodes d"
    and docs: "\<forall>n. doc_depth d \<le> n \<longrightarrow> to_doc n h' a = Some d" by blast+
  have "doc_depth d \<le> Suc (length h')" using depth_le_nodes(1) [of d] len by simp
  with docs have "to_doc (Suc (length h')) h' a = Some d" by blast
  then show ?thesis by (simp only: serialize_def)
qed

lemma alloc_doc_extends: "alloc_doc d h = (a, h') \<Longrightarrow> \<exists>e. h' = h @ e"
  using alloc_doc_spec(1) by blast

lemma serialize_leaf:
  "post_replies p = [] \<Longrightarrow> serialize (h @ [p]) (length h) = Some (PostDoc (post_data.truncate p) [])"
  by (simp add: serialize_def heap_simps)

lemma serialize_append:
  "serialize h a = Some d \<Longrightarrow> serialize (h @ e) a = Some d"
  unfolding serialize_def by (erule to_doc_append [THEN to_doc_mono]) simp

end
