(* ===== verification/Data.thy ===== *)
theory Data
  imports Post
begin

text \<open>
  The records the transformer reads and writes, apart from posts. Two groups:
  \<^item> the intermediate records \<open>IntermediateChannel\<close>, \<open>IntermediateUser\<close> and
    \<open>TransformConfig\<close> (src/unnamed/part_001, lines 20--31, 75--86 and 663--673), with
    \<open>model.ChannelType\<close> as a datatype of its four values;
  \<^item> the parsed Slack export: \<open>SlackPost\<close>, \<open>SlackFile\<close>, \<open>SlackComment\<close>,
    \<open>SlackUser\<close> and \<open>SlackChannel\<close>. Their code is in the parser, which is not under
    src/. They are modelled from the spec (section 6) and from the fields that
    part_001 reads. The predicates \<open>IsPlainMessage\<close>, \<open>IsFileComment\<close> and so on are
    in the parser too. \<open>TransformPosts\<close> takes the first case of its switch whose
    predicate holds. The model records that first case as the post's
    \<open>slack_post_kind\<close>.
  Go's \<open>nil\<close> slices and pointers that the code tests against \<open>nil\<close> are
  \<open>option\<close>s.
\<close>

datatype channel_type = ChannelTypeOpen | ChannelTypePrivate | ChannelTypeDirect | ChannelTypeGroup

record ichannel =
  ch_id :: string
  ch_original_name :: string
  ch_name :: string
  ch_display_name :: string
  ch_members :: "string list"
  ch_members_usernames :: "string list"
  ch_purpose :: string
  ch_header :: string
  ch_topic :: string
  ch_type :: channel_type

record iuser =
  u_id :: string
  u_username :: string
  u_first_name :: string
  u_last_name :: string
  u_position :: string
  u_email :: string
  u_password :: string
  u_memberships :: "string list"
  u_auth_data :: "string option"
  u_auth_service :: string

record redis_config =
  rc_addr :: string
  rc_user :: string
  rc_password :: string

record transform_config =
  cfg_attachments_dir :: string
  cfg_skip_attachments :: bool
  cfg_discard_invalid_props :: bool
  cfg_auth_data_as_email :: bool
  cfg_auth_service :: string
  cfg_import_workflow_messages :: bool
  cfg_skip_posts :: bool
  cfg_skip_channels :: bool
  cfg_redis_config :: "redis_config option"

definition workflow_user_name :: string where
  "workflow_user_name = ''imported-workflow''"

text \<open>
  The log lines that \<open>AddPostToThreads\<close> and \<open>TransformPosts\<close> emit about posts,
  in the order of the code. The pipeline records them instead of printing them.
\<close>

text \<open>
  The four ways \<open>addFileToPost\<close> (lines 360--389) fails: the upload is missing, or
  opening the zip entry, creating the destination file or copying fails.
\<close>

datatype attach_error =
    FileNotFound string | OpenFailed string | CreateFailed string | CopyFailed string

datatype log_event =
    RootPostMissing string
  | OverwritingRootPost string
  | UserFieldMissing
  | UnknownUser string
  | NoComment
  | PropsTooLargeDiscarded
  | PropsTooLargeDropped
  | FileAttachError attach_error
  | UnsupportedPostType
  | ChannelNotFound string

datatype transform_error = RedisConnectError string

subsection \<open>The parsed Slack export\<close>

datatype slack_post_kind =
    PlainMessage | FileComment | BotMessage | JoinLeaveMessage | MeMessage
  | ChannelTopicMessage | ChannelPurposeMessage | ChannelNameMessage | UnsupportedMessage

record slack_file =
  sf_id :: string
  sf_name :: string

record slack_comment =
  sc_user :: string
  sc_comment :: string

record slack_post =
  sp_kind :: slack_post_kind
  sp_user :: string
  sp_text :: string
  sp_timestamp :: string
  sp_thread_ts :: string
  sp_file :: "slack_file option"
  sp_files :: "slack_file list option"
  sp_attachments :: "string list"
  sp_comment :: "slack_comment option"

record slack_user =
  su_id :: string
  su_username :: string
  su_first_name :: string
  su_last_name :: string
  su_title :: string
  su_email :: string

record slack_channel =
  sch_id :: string
  sch_name :: string
  sch_members :: "string list"
  sch_purpose :: string
  sch_topic :: string
  sch_type :: channel_type

text \<open>
  \<open>Intermediate\<close> (lines 129--136). Its posts are pointers, so they are addresses into
  the post heap.
\<close>

record intermediate =
  i_public :: "ichannel list"
  i_private :: "ichannel list"
  i_group :: "ichannel list"
  i_direct :: "ichannel list"
  i_users :: "string \<rightharpoonup> iuser"
  i_posts :: "addr list"

type_synonym uploads = "string \<rightharpoonup> string"

text \<open>
  \<open>SlackExport\<close>. Go iterates the map \<open>Posts\<close> in an unspecified order, so the
  model holds it as an association list in the order of one such iteration.
\<close>

record slack_export =
  se_users :: "slack_user list"
  se_public :: "slack_channel list"
  se_private :: "slack_channel list"
  se_group :: "slack_channel list"
  se_direct :: "slack_channel list"
  se_posts :: "(string \<times> slack_post list) list"
  se_uploads :: uploads

subsection \<open>Collaborators outside the modelled code\<close>

text \<open>
  The transformer calls functions whose code is not under src/: the parser's
  \<open>SlackConvertTimeStamp\<close>, \<open>SlackConvertChannelName\<close>, \<open>isValidChannelNameCharacters\<close>
  and \<open>SplitChannelsByMemberSize\<close>; the JSON encoder, to measure the props of a
  post; \<open>path.Join\<close> with NFC normalisation; the zip and file system calls of
  \<open>addFileToPost\<close>; \<open>model.NewId\<close>; and the Redis connection. A value of
  \<open>ext_env\<close> fixes all of them. Every theorem about the pipeline holds for every
  \<open>ext_env\<close>, unless it states an assumption about one.
\<close>

record ext_env =
  env_convert_ts :: "string \<Rightarrow> int64"
  env_convert_channel_name :: "string \<Rightarrow> string \<Rightarrow> string"
  env_valid_channel_chars :: "string \<Rightarrow> bool"
  env_big_group :: "slack_channel \<Rightarrow> bool"
  env_props_runes :: "string list \<Rightarrow> nat"
  env_file_path :: "string \<Rightarrow> string \<Rightarrow> string"
  env_attach_io :: "string \<Rightarrow> string \<Rightarrow> attach_error option"
  env_new_id :: string
  env_redis_connect :: "redis_config \<Rightarrow> bool"

text \<open>Limits of \<open>mattermost-server/v6/model\<close> that the transformer reads.\<close>

definition post_props_max_runes :: nat where "post_props_max_runes = 800000"
definition channel_group_max_users :: nat where "channel_group_max_users = 8"
definition channel_name_max_length :: nat where "channel_name_max_length = 64"
definition channel_display_name_max_runes :: nat where "channel_display_name_max_runes = 64"
definition channel_purpose_max_runes :: nat where "channel_purpose_max_runes = 250"
definition channel_header_max_runes :: nat where "channel_header_max_runes = 1024"
definition user_position_max_runes :: nat where "user_position_max_runes = 128"
definition user_first_name_max_runes :: nat where "user_first_name_max_runes = 64"
definition user_last_name_max_runes :: nat where "user_last_name_max_runes = 64"

end
