(* ===== verification/ThreadStore.thy ===== *)
theory ThreadStore
  imports Data
begin

text \<open>
  The \<open>ThreadsStorage\<close> interface: \<open>HasThread\<close>, \<open>LookupThread\<close>, \<open>StoreThread\<close>,
  \<open>GetChangedThreads\<close>. It has two implementations, an in-memory map and a
  Redis-backed store. Their code is not under src/, so both are modelled from the spec
  (section 4.1) and from the Redis test (src/unnamed/part_000). The caller is in
  src/unnamed/part_001 (\<open>newChannelThreadsStorage\<close>, \<open>AddPostToThreads\<close>,
  \<open>TransformPosts\<close>).
  \<^item> The memory store maps a thread timestamp to the pointer of its root post.
  \<^item> The Redis store keeps a local cache of pointers and a set of changed keys. The
    backend is shared by every store of a run and by other runs. It holds JSON documents
    under the key \<open><channel>:<ts>\<close>. A lookup that misses the cache fetches the
    document, deserialises it into fresh heap cells, caches the pointer and marks the
    key changed. A store caches the pointer, marks the key changed and writes the current
    JSON of the post to the backend. Spec 4.1 says a store writes to the local cache
    only and that \<open>changed()\<close> is the sole flush; the test's second instance reads
    a thread stored by the first after \<open>GetChangedThreads\<close> has run, which both a
    write-through store and a flush in \<open>GetChangedThreads\<close> satisfy. The model takes
    the write-through reading, so no property here depends on when a thread changed after
    a fetch reaches the backend.
  The heap and the backend form the \<open>world\<close> that the operations thread through.
  \<open>thread_view\<close> abstracts a store to the document each key resolves to, together with
  the set of keys it has touched. Every operation of both backends refines the matching
  operation of the abstract store \<open>abs_threads\<close>.
\<close>

type_synonym remote = "string \<rightharpoonup> post_doc"

record world =
  w_heap :: heap
  w_remote :: remote

definition redis_key :: "string \<Rightarrow> string \<Rightarrow> string" where
  "redis_key ch ts = ch @ '':'' @ ts"

record redis_storage =
  rs_channel :: string
  rs_local :: "string \<rightharpoonup> addr"
  rs_changed :: "string set"

datatype threads_storage =
    MemoryStorage "string \<rightharpoonup> addr"
  | RedisStorage redis_storage

definition new_memory_storage :: threads_storage where
  "new_memory_storage = MemoryStorage Map.empty"

definition new_redis_storage :: "string \<Rightarrow> threads_storage" where
  "new_redis_storage ch = RedisStorage \<lparr>rs_channel = ch, rs_local = Map.empty, rs_changed = {}\<rparr>"

fun has_thread :: "world \<Rightarrow> threads_storage \<Rightarrow> string \<Rightarrow> bool" where
  "has_thread w (MemoryStorage m) ts = (m ts \<noteq> None)"
| "has_thread w (RedisStorage r) ts =
     (rs_local r ts \<noteq> None \<or> w_remote w (redis_key (rs_channel r) ts) \<noteq> None)"

fun lookup_thread ::
  "world \<Rightarrow> threads_storage \<Rightarrow> string \<Rightarrow> addr option \<times> world \<times> threads_storage" where
  "lookup_thread w (MemoryStorage m) ts = (m ts, w, MemoryStorage m)"
| "lookup_thread w (RedisStorage r) ts =
     (case rs_local r ts of
        Some a \<Rightarrow> (Some a, w, RedisStorage r)
      | None \<Rightarrow>
          (case w_remote w (redis_key (rs_channel r) ts) of
             None \<Rightarrow> (None, w, RedisStorage r)
           | Some d \<Rightarrow>
               (case alloc_doc d (w_heap w) of (a, h') \<Rightarrow>
                  (Some a, w\<lparr>w_heap := h'\<rparr>,
                   RedisStorage (r\<lparr>rs_local := (rs_local r)(ts \<mapsto> a),
                                   rs_changed := insert ts (rs_changed r)\<rparr>)))))"

fun store_thread ::
  "world \<Rightarrow> threads_storage \<Rightarrow> string \<Rightarrow> addr \<Rightarrow> world \<times> threads_storage" where
  "store_thread w (MemoryStorage m) ts a = (w, MemoryStorage (m(ts \<mapsto> a)))"
| "store_thread w (RedisStorage r) ts a =
     ((case serialize (w_heap w) a of
         None \<Rightarrow> w
       | Some d \<Rightarrow> w\<lparr>w_remote := (w_remote w)(redis_key (rs_channel r) ts \<mapsto> d)\<rparr>),
      RedisStorage (r\<lparr>rs_local := (rs_local r)(ts \<mapsto> a),
                      rs_changed := insert ts (rs_changed r)\<rparr>))"

text \<open>
  Go iterates a map in a random order. The model returns the changed roots ordered by
  key, which is one of the orders Go may produce.
\<close>

fun get_changed_threads :: "threads_storage \<Rightarrow> addr list" where
  "get_changed_threads (MemoryStorage m) = List.map_filter m (sorted_list_of_set (dom m))"
| "get_changed_threads (RedisStorage r) =
     List.map_filter (rs_local r) (sorted_list_of_set (rs_changed r))"

text \<open>
  \<open>newChannelThreadsStorage\<close> (src/unnamed/part_001, lines 391--403). It opens a
  memory store when no Redis configuration is given. Otherwise it opens a Redis store
  through the transformer's factory, which is created on first use and then kept for the
  whole run. Creating the factory connects to Redis. \<open>connect\<close> says whether that
  connection succeeds; a failure is the error the function returns. The
  \<open>attachmentsDir\<close> argument is handed to the Redis store and plays no part in
  threading, so it is not modelled.
\<close>

definition new_channel_threads_storage ::
  "(redis_config \<Rightarrow> bool) \<Rightarrow> redis_config option \<Rightarrow> string \<Rightarrow> redis_config option \<Rightarrow>
   (transform_error + threads_storage) \<times> redis_config option" where
  "new_channel_threads_storage connect factory channel_name redis_cfg =
     (case redis_cfg of
        None \<Rightarrow> (Inr new_memory_storage, factory)
      | Some rc \<Rightarrow>
          (case factory of
             Some f \<Rightarrow> (Inr (new_redis_storage channel_name), factory)
           | None \<Rightarrow>
               if connect rc then (Inr (new_redis_storage channel_name), Some rc)
               else (Inl (RedisConnectError (rc_addr rc)), None)))"

subsection \<open>Operations as data\<close>

datatype store_op = OpHas string | OpLookup string | OpStore string addr

fun store_step :: "world \<times> threads_storage \<Rightarrow> store_op \<Rightarrow> world \<times> threads_storage" where
  "store_step (w, s) (OpHas ts) = (w, s)"
| "store_step (w, s) (OpLookup ts) = snd (lookup_thread w s ts)"
| "store_step (w, s) (OpStore ts a) = store_thread w s ts a"

fun run_store_ops ::
  "world \<times> threads_storage \<Rightarrow> store_op list \<Rightarrow> world \<times> threads_storage" where
  "run_store_ops st [] = st"
| "run_store_ops st (op # ops) = run_store_ops (store_step st op) ops"

fun op_key :: "store_op \<Rightarrow> string option" where
  "op_key (OpHas ts) = None"
| "op_key (OpLookup ts) = Some ts"
| "op_key (OpStore ts a) = Some ts"

subsection \<open>The abstract store\<close>

record abs_threads =
  at_view :: "string \<rightharpoonup> post_doc"
  at_touched :: "string set"

definition abs_has :: "abs_threads \<Rightarrow> string \<Rightarrow> bool" where
  "abs_has A ts \<longleftrightarrow> at_view A ts \<noteq> None"

definition abs_lookup :: "abs_threads \<Rightarrow> string \<Rightarrow> post_doc option \<times> abs_threads" where
  "abs_lookup A ts =
     (at_view A ts,
      if at_view A ts = None then A else A\<lparr>at_touched := insert ts (at_touched A)\<rparr>)"

definition abs_store :: "abs_threads \<Rightarrow> string \<Rightarrow> post_doc \<Rightarrow> abs_threads" where
  "abs_store A ts d =
     \<lparr>at_view = (at_view A)(ts \<mapsto> d), at_touched = insert ts (at_touched A)\<rparr>"

definition abs_changed :: "abs_threads \<Rightarrow> post_doc option list" where
  "abs_changed A = map (at_view A) (sorted_list_of_set (at_touched A))"

datatype abs_op = AHas string | ALookup string | AStore string post_doc

fun abs_step :: "abs_threads \<Rightarrow> abs_op \<Rightarrow> abs_threads" where
  "abs_step A (AHas ts) = A"
| "abs_step A (ALookup ts) = snd (abs_lookup A ts)"
| "abs_step A (AStore ts d) = abs_store A ts d"

definition abs_run :: "abs_threads \<Rightarrow> abs_op list \<Rightarrow> abs_threads" where
  "abs_run A ops = fold (\<lambda>op B. abs_step B op) ops A"

text \<open>
  The abstract counterpart of a concrete operation. A stored pointer stands for the
  JSON of the post it points to. A post that cannot be serialised has no counterpart.
\<close>

fun op_abs :: "heap \<Rightarrow> store_op \<Rightarrow> abs_op option" where
  "op_abs h (OpHas ts) = Some (AHas ts)"
| "op_abs h (OpLookup ts) = Some (ALookup ts)"
| "op_abs h (OpStore ts a) = map_option (AStore ts) (serialize h a)"

fun thread_view :: "world \<Rightarrow> threads_storage \<Rightarrow> string \<Rightarrow> post_doc option" where
  "thread_view w (MemoryStorage m) ts = Option.bind (m ts) (serialize (w_heap w))"
| "thread_view w (RedisStorage r) ts =
     (case rs_local r ts of
        Some a \<Rightarrow> serialize (w_heap w) a
      | None \<Rightarrow> w_remote w (redis_key (rs_channel r) ts))"

fun touched :: "threads_storage \<Rightarrow> string set" where
  "touched (MemoryStorage m) = dom m"
| "touched (RedisStorage r) = rs_changed r"

definition abs_of :: "world \<Rightarrow> threads_storage \<Rightarrow> abs_threads" where
  "abs_of w s = \<lparr>at_view = thread_view w s, at_touched = touched s\<rparr>"

fun storage_wf :: "world \<Rightarrow> threads_storage \<Rightarrow> bool" where
  "storage_wf w (MemoryStorage m) \<longleftrightarrow>
     finite (dom m) \<and> (\<forall>a\<in>ran m. serialize (w_heap w) a \<noteq> None)"
| "storage_wf w (RedisStorage r) \<longleftrightarrow>
     finite (rs_changed r) \<and> rs_changed r = dom (rs_local r) \<and>
     (\<forall>a\<in>ran (rs_local r). serialize (w_heap w) a \<noteq> None)"

subsection \<open>Example states used by the witnesses\<close>

text \<open>The roots a store holds: the addresses its map resolves locally.\<close>

fun store_addrs :: "threads_storage \<Rightarrow> addr set" where
  "store_addrs (MemoryStorage m) = ran m"
| "store_addrs (RedisStorage r) = ran (rs_local r)"

definition demo_post :: ipost where
  "demo_post = new_post ''alice'' ''general'' ''msg'' 1000"

definition demo_world :: world where
  "demo_world = \<lparr>w_heap = [demo_post], w_remote = Map.empty\<rparr>"

subsection \<open>Lemmas: key namespacing, well-formedness, refinement of each operation\<close>

lemma redis_key_inj:
  assumes "CHR '':'' \<notin> set ts1" "CHR '':'' \<notin> set ts2" "redis_key c1 ts1 = redis_key c2 ts2"
  shows "c1 = c2 \<and> ts1 = ts2"
  using assms append_Cons_sep_inj [of "CHR '':''" ts1 ts2 c1 c2] by (simp add: redis_key_def)

lemma redis_key_same_channel [simp]: "redis_key ch ts1 = redis_key ch ts2 \<longleftrightarrow> ts1 = ts2"
  by (simp add: redis_key_def)

lemma storage_wf_new:
  "storage_wf w new_memory_storage" "storage_wf w (new_redis_storage ch)"
  by (simp_all add: new_memory_storage_def new_redis_storage_def)

lemma new_channel_threads_storage_cases:
  assumes "fst (new_channel_threads_storage connect factory ch cfg) = Inr s"
  shows "s = new_memory_storage \<or> s = new_redis_storage ch"
  using assms by (auto simp: new_channel_threads_storage_def split: option.splits if_splits)

lemma new_channel_threads_storage_fresh:
  assumes "fst (new_channel_threads_storage connect factory ch cfg) = Inr s"
  shows "storage_wf w s" and "touched s = {}"
  using new_channel_threads_storage_cases [OF assms] storage_wf_new
  by (auto simp: new_memory_storage_def new_redis_storage_def)

lemma lookup_thread_None:
  "lookup_thread w s ts = (None, w', s') \<Longrightarrow> w' = w \<and> s' = s"
  by (cases s) (auto split: option.splits prod.splits)

lemma lookup_thread_not_has:
  "\<not> has_thread w s ts \<Longrightarrow> lookup_thread w s ts = (None, w, s)"
  by (cases s) auto

lemma store_thread_heap:
  "store_thread w s ts a = (w', s') \<Longrightarrow> w_heap w' = w_heap w"
  by (cases s) (auto split: option.splits)

lemma store_then_lookup:
  "store_thread w s ts a = (w', s') \<Longrightarrow>
     has_thread w' s' ts \<and> lookup_thread w' s' ts = (Some a, w', s')"
  by (cases s) (auto split: option.splits)

lemma has_thread_refines:
  "storage_wf w s \<Longrightarrow> has_thread w s ts = abs_has (abs_of w s) ts"
  by (cases s) (auto simp: abs_has_def abs_of_def ranI bind_eq_Some_conv split: option.split)

lemma lookup_fetch:
  assumes "rs_local r ts = None" "w_remote w (redis_key (rs_channel r) ts) = Some d"
  obtains a h' where "alloc_doc d (w_heap w) = (a, h')"
    "lookup_thread w (RedisStorage r) ts = (Some a, w\<lparr>w_heap := h'\<rparr>,
       RedisStorage (r\<lparr>rs_local := (rs_local r)(ts \<mapsto> a), rs_changed := insert ts (rs_changed r)\<rparr>))"
  using assms by (cases "alloc_doc d (w_heap w)") auto

lemma lookup_thread_cases:
  assumes "lookup_thread w s ts = (r, w', s')"
  obtains (same) "w' = w" "s' = s" "r = None \<or> (\<exists>a. r = Some a \<and> a \<in> store_addrs s)"
    | (fetch) rs d a h' where "s = RedisStorage rs" "rs_local rs ts = None"
        "w_remote w (redis_key (rs_channel rs) ts) = Some d" "alloc_doc d (w_heap w) = (a, h')"
        "r = Some a" "w' = w\<lparr>w_heap := h'\<rparr>"
        "s' = RedisStorage (rs\<lparr>rs_local := (rs_local rs)(ts \<mapsto> a), rs_changed := insert ts (rs_changed rs)\<rparr>)"
proof (cases s)
  case (MemoryStorage m)
  have "m ts = None \<or> (\<exists>a. m ts = Some a \<and> a \<in> ran m)"
    by (cases "m ts") (auto intro: ranI)
  moreover from assms MemoryStorage have "r = m ts" "w' = w" "s' = s" by auto
  ultimately show ?thesis using MemoryStorage by (intro same) auto
next
  case (RedisStorage rs)
  show ?thesis
  proof (cases "rs_local rs ts")
    case (Some a)
    then have "a \<in> ran (rs_local rs)" by (rule ranI)
    moreover from Some assms RedisStorage have "r = Some a" "w' = w" "s' = s" by auto
    ultimately show ?thesis using RedisStorage by (intro same) auto
  next
    case None
    show ?thesis
    proof (cases "w_remote w (redis_key (rs_channel rs) ts)")
      case None2: None
      with None assms RedisStorage show ?thesis using same by simp
    next
      case (Some d)
      obtain a h' where ad: "alloc_doc d (w_heap w) = (a, h')"
        and lk: "lookup_thread w (RedisStorage rs) ts = (Some a, w\<lparr>w_heap := h'\<rparr>,
           RedisStorage (rs\<lparr>rs_local := (rs_local rs)(ts \<mapsto> a), rs_changed := insert ts (rs_changed rs)\<rparr>))"
        by (rule lookup_fetch [OF None Some])
      from assms RedisStorage lk have "r = Some a" "w' = w\<lparr>w_heap := h'\<rparr>"
        "s' = RedisStorage (rs\<lparr>rs_local := (rs_local rs)(ts \<mapsto> a), rs_changed := insert ts (rs_changed rs)\<rparr>)"
        by simp_all
      with RedisStorage None Some ad show ?thesis by (rule fetch)
    qed
  qed
qed

lemma redis_fetch_refines:
  assumes wf: "storage_wf w (RedisStorage rs)" and miss: "rs_local rs ts = None"
    and d: "w_remote w (redis_key (rs_channel rs) ts) = Some d" and ad: "alloc_doc d (w_heap w) = (a, h')"
  defines "s' \<equiv> RedisStorage (rs\<lparr>rs_local := (rs_local rs)(ts \<mapsto> a), rs_changed := insert ts (rs_changed rs)\<rparr>)"
  shows "thread_view (w\<lparr>w_heap := h'\<rparr>) s' = thread_view w (RedisStorage rs)"
    and "storage_wf (w\<lparr>w_heap := h'\<rparr>) s'" and "serialize h' a = Some d"
proof -
  obtain e where he: "h' = w_heap w @ e" using alloc_doc_extends [OF ad] by blast
  show sa: "serialize h' a = Some d" by (rule serialize_alloc_doc [OF ad])
  have old: "serialize h' b = serialize (w_heap w) b" if "b \<in> ran (rs_local rs)" for b
  proof -
    from wf that obtain x where "serialize (w_heap w) b = Some x" by auto
    then show ?thesis by (simp add: he serialize_append)
  qed
  show "thread_view (w\<lparr>w_heap := h'\<rparr>) s' = thread_view w (RedisStorage rs)"
  proof
    fix k
    show "thread_view (w\<lparr>w_heap := h'\<rparr>) s' k = thread_view w (RedisStorage rs) k"
    proof (cases "k = ts")
      case True
      with miss d sa show ?thesis by (simp add: s'_def)
    next
      case False
      with old show ?thesis by (cases "rs_local rs k") (auto simp: s'_def intro: ranI)
    qed
  qed
  show "storage_wf (w\<lparr>w_heap := h'\<rparr>) s'"
    using wf sa old miss by (auto simp: s'_def ran_map_upd)
qed

lemma lookup_thread_refines:
  assumes wf: "storage_wf w s" and l: "lookup_thread w s ts = (r, w', s')"
  shows "(Option.bind r (serialize (w_heap w')), abs_of w' s') = abs_lookup (abs_of w s) ts"
    and "storage_wf w' s'"
    and "r = None \<longleftrightarrow> thread_view w s ts = None"
proof -
  have "((Option.bind r (serialize (w_heap w')), abs_of w' s') = abs_lookup (abs_of w s) ts) \<and>
        storage_wf w' s' \<and> (r = None \<longleftrightarrow> thread_view w s ts = None)"
  proof (cases s)
    case (MemoryStorage m)
    show ?thesis
    proof (cases "m ts")
      case None
      with wf l MemoryStorage show ?thesis by (auto simp: abs_lookup_def abs_of_def)
    next
      case (Some a)
      with wf MemoryStorage have "serialize (w_heap w) a \<noteq> None" by (auto intro: ranI)
      moreover from l MemoryStorage Some have "r = Some a" "w' = w" "s' = s" by simp_all
      ultimately show ?thesis using Some wf MemoryStorage by (auto simp: abs_lookup_def abs_of_def)
    qed
  next
    case (RedisStorage rs)
    show ?thesis
    proof (cases "rs_local rs ts")
      case (Some a)
      with wf RedisStorage have "serialize (w_heap w) a \<noteq> None" by (auto intro: ranI)
      moreover from l RedisStorage Some have "r = Some a" "w' = w" "s' = s" by simp_all
      ultimately show ?thesis using Some wf RedisStorage by (auto simp: abs_lookup_def abs_of_def)
    next
      case None
      show ?thesis
      proof (cases "w_remote w (redis_key (rs_channel rs) ts)")
        case None2: None
        with None wf l RedisStorage show ?thesis by (auto simp: abs_lookup_def abs_of_def)
      next
        case (Some d)
        obtain a h' where ad: "alloc_doc d (w_heap w) = (a, h')"
          and lk: "lookup_thread w (RedisStorage rs) ts = (Some a, w\<lparr>w_heap := h'\<rparr>,
             RedisStorage (rs\<lparr>rs_local := (rs_local rs)(ts \<mapsto> a), rs_changed := insert ts (rs_changed rs)\<rparr>))"
          by (rule lookup_fetch [OF None Some])
        note f = redis_fetch_refines [OF wf [unfolded RedisStorage] None Some ad]
        from l lk RedisStorage have eqs: "r = Some a" "w' = w\<lparr>w_heap := h'\<rparr>"
          "s' = RedisStorage (rs\<lparr>rs_local := (rs_local rs)(ts \<mapsto> a), rs_changed := insert ts (rs_changed rs)\<rparr>)"
          by simp_all
        have "storage_wf w' s'" by (simp only: eqs) (rule f(2))
        moreover have "(Option.bind r (serialize (w_heap w')), abs_of w' s') = abs_lookup (abs_of w s) ts"
          using f(1,3) None Some RedisStorage eqs by (simp add: abs_lookup_def abs_of_def)
        moreover have "r = None \<longleftrightarrow> thread_view w s ts = None"
          using eqs None Some RedisStorage by simp
        ultimately show ?thesis by blast
      qed
    qed
  qed
  then show "(Option.bind r (serialize (w_heap w')), abs_of w' s') = abs_lookup (abs_of w s) ts"
    and "storage_wf w' s'" and "r = None \<longleftrightarrow> thread_view w s ts = None" by blast+
qed


lemma store_thread_refines:
  assumes wf: "storage_wf w s" and sd: "serialize (w_heap w) a = Some d"
    and st: "store_thread w s ts a = (w', s')"
  shows "abs_of w' s' = abs_store (abs_of w s) ts d"
    and "storage_wf w' s'"
    and "w_heap w' = w_heap w"
proof -
  have "abs_of w' s' = abs_store (abs_of w s) ts d \<and> storage_wf w' s' \<and> w_heap w' = w_heap w"
  proof (cases s)
    case (MemoryStorage m)
    from st MemoryStorage have w': "w' = w" and s': "s' = MemoryStorage (m(ts \<mapsto> a))" by simp_all
    have "storage_wf w' s'"
      using wf MemoryStorage sd by (auto simp: w' s' dest!: subsetD [OF ran_upd_subset])
    moreover have "thread_view w' s' = (thread_view w s)(ts \<mapsto> d)"
      using MemoryStorage sd by (auto simp: w' s' fun_eq_iff)
    ultimately show ?thesis using MemoryStorage by (simp add: abs_store_def abs_of_def s' w')
  next
    case (RedisStorage rs)
    from st RedisStorage sd have w': "w' = w\<lparr>w_remote := (w_remote w)(redis_key (rs_channel rs) ts \<mapsto> d)\<rparr>"
      and s': "s' = RedisStorage (rs\<lparr>rs_local := (rs_local rs)(ts \<mapsto> a),
                                   rs_changed := insert ts (rs_changed rs)\<rparr>)"
      by auto
    have view: "thread_view w' s' = (thread_view w s)(ts \<mapsto> d)"
    proof
      fix k
      show "thread_view w' s' k = ((thread_view w s)(ts \<mapsto> d)) k"
        using RedisStorage sd by (cases "k = ts") (auto simp: w' s' split: option.split)
    qed
    have "storage_wf w' s'"
      using wf RedisStorage sd by (auto simp: w' s' dest!: subsetD [OF ran_upd_subset])
    with view RedisStorage wf show ?thesis by (auto simp: abs_store_def abs_of_def s' w')
  qed
  then show "abs_of w' s' = abs_store (abs_of w s) ts d" and "storage_wf w' s'"
    and "w_heap w' = w_heap w" by blast+
qed

lemma get_changed_refines:
  assumes wf: "storage_wf w s"
  shows "map (serialize (w_heap w)) (get_changed_threads s) = abs_changed (abs_of w s)"
proof (cases s)
  case (MemoryStorage m)
  let ?ks = "sorted_list_of_set (dom m)"
  from wf MemoryStorage have fin: "finite (dom m)" by simp
  then have "List.map_filter m ?ks = map (the \<circ> m) ?ks"
    by (intro map_filter_all_Some) auto
  moreover have "map (serialize (w_heap w) \<circ> (the \<circ> m)) ?ks = map (thread_view w s) ?ks"
    using fin MemoryStorage by (intro map_cong) auto
  ultimately show ?thesis using MemoryStorage by (simp add: abs_changed_def abs_of_def)
next
  case (RedisStorage rs)
  let ?ks = "sorted_list_of_set (rs_changed rs)"
  from wf RedisStorage have fin: "finite (rs_changed rs)" and ch: "rs_changed rs = dom (rs_local rs)"
    by auto
  then have "List.map_filter (rs_local rs) ?ks = map (the \<circ> rs_local rs) ?ks"
    by (intro map_filter_all_Some) auto
  moreover have "map (serialize (w_heap w) \<circ> (the \<circ> rs_local rs)) ?ks = map (thread_view w s) ?ks"
    using fin ch RedisStorage by (intro map_cong) auto
  ultimately show ?thesis using RedisStorage by (simp add: abs_changed_def abs_of_def)
qed

lemma store_step_frame:
  assumes "storage_wf w s" "op_abs (w_heap w) op = Some aop" "store_step (w, s) op = (w', s')"
  shows "abs_of w' s' = abs_step (abs_of w s) aop \<and> storage_wf w' s' \<and> (\<exists>e. w_heap w' = w_heap w @ e)"
proof (cases op)
  case (OpHas ts)
  with assms show ?thesis by auto
next
  case (OpLookup ts)
  obtain r where l: "lookup_thread w s ts = (r, w', s')"
    using assms(3) OpLookup by (cases "lookup_thread w s ts") auto
  have "\<exists>e. w_heap w' = w_heap w @ e"
  proof (cases s)
    case (MemoryStorage m)
    with l show ?thesis by auto
  next
    case (RedisStorage rs)
    with l show ?thesis
      by (auto split: option.splits prod.splits dest: alloc_doc_extends)
  qed
  with lookup_thread_refines [OF assms(1) l] assms(2) OpLookup show ?thesis
    by (auto simp: prod_eq_iff)
next
  case (OpStore ts a)
  with assms(2) obtain d where sd: "serialize (w_heap w) a = Some d" and aop: "aop = AStore ts d"
    by auto
  from assms(3) OpStore have st: "store_thread w s ts a = (w', s')" by simp
  from store_thread_refines [OF assms(1) sd st] aop show ?thesis by simp
qed


lemma op_abs_append:
  "op_abs h op = Some aop \<Longrightarrow> op_abs (h @ e) op = Some aop"
  by (cases op) (auto simp: serialize_append)

lemma store_step_touched:
  "touched (snd (store_step (w, s) op)) \<subseteq> touched s \<union> set_option (op_key op)"
  by (cases op; cases s) (auto split: option.splits prod.splits)

lemma serialize_demo [simp]:
  "serialize [demo_post] 0 = Some (PostDoc (post_data.truncate demo_post) [])"
  by (simp add: serialize_def deref_def demo_post_def new_post_def)

lemma run_store_ops_refines:
  assumes "storage_wf w s" "those (map (op_abs (w_heap w)) ops) = Some aops"
    and "run_store_ops (w, s) ops = (w', s')"
  shows "abs_of w' s' = abs_run (abs_of w s) aops \<and> storage_wf w' s'"
  using assms
proof (induction ops arbitrary: w s aops)
  case Nil
  then show ?case by (simp add: abs_run_def)
next
  case (Cons op ops)
  from Cons.prems(2) obtain aop aops' where aop: "op_abs (w_heap w) op = Some aop"
    and rest: "those (map (op_abs (w_heap w)) ops) = Some aops'" and aops: "aops = aop # aops'"
    by (auto split: option.splits)
  obtain w1 s1 where st: "store_step (w, s) op = (w1, s1)" by fastforce
  from store_step_frame [OF Cons.prems(1) aop st] obtain e where
    abs1: "abs_of w1 s1 = abs_step (abs_of w s) aop" and wf1: "storage_wf w1 s1"
    and h1: "w_heap w1 = w_heap w @ e" by blast
  from rest have "those (map (op_abs (w_heap w1)) ops) = Some aops'"
    unfolding h1 by (rule those_map_Some_mono) (rule op_abs_append)
  moreover from Cons.prems(3) st have "run_store_ops (w1, s1) ops = (w', s')" by simp
  ultimately have "abs_of w' s' = abs_run (abs_of w1 s1) aops' \<and> storage_wf w' s'"
    using Cons.IH wf1 by blast
  with abs1 aops show ?case by (simp add: abs_run_def)
qed

lemma store_addrs_store:
  "store_thread w s k a = (w', s') \<Longrightarrow> store_addrs s' \<subseteq> insert a (store_addrs s)"
  by (cases s) (auto dest: subsetD [OF ran_upd_subset])

lemma store_thread_remote:
  "store_thread w s k a = (w', s') \<Longrightarrow>
     ran (w_remote w') \<subseteq> ran (w_remote w) \<union> set_option (serialize (w_heap w) a)"
  by (cases s) (auto split: option.splits dest: subsetD [OF ran_upd_subset])

lemma storage_wf_heap:
  "storage_wf w s \<Longrightarrow> (\<forall>a\<in>store_addrs s. serialize h a \<noteq> None) \<Longrightarrow> storage_wf (w\<lparr>w_heap := h\<rparr>) s"
  by (cases s) auto

subsection \<open>Properties of the thread store\<close>

text \<open>
  Claim C6: a store opened by \<open>newChannelThreadsStorage\<close> refines the abstract store,
  whichever backend the configuration selects. Take a run of has/lookup/store operations
  in which every stored post can be serialised. The run ends in a well-formed store
  whose abstraction is the abstract run of the same operations.
\<close>

theorem thread_store_simulation:
  assumes "fst (new_channel_threads_storage connect factory ch cfg) = Inr s"
    and "those (map (op_abs (w_heap w)) ops) = Some aops"
    and "run_store_ops (w, s) ops = (w', s')"
  shows "abs_of w' s' = abs_run (abs_of w s) aops \<and> storage_wf w' s'"
  using run_store_ops_refines [OF new_channel_threads_storage_fresh(1) [OF assms(1)] assms(2,3)] .

theorem thread_store_simulation_witness:
  "fst (new_channel_threads_storage (\<lambda>_. True) None ''general'' None) = Inr new_memory_storage \<and>
   abs_of (fst (run_store_ops (demo_world, new_memory_storage) [OpStore ''10'' 0, OpLookup ''10'']))
          (snd (run_store_ops (demo_world, new_memory_storage) [OpStore ''10'' 0, OpLookup ''10'']))
   = abs_run (abs_of demo_world new_memory_storage)
       [AStore ''10'' (PostDoc (post_data.truncate demo_post) []), ALookup ''10'']"
proof -
  have o: "fst (new_channel_threads_storage (\<lambda>_. True) None ''general'' None) = Inr new_memory_storage"
    by (simp add: new_channel_threads_storage_def)
  have ops: "those (map (op_abs (w_heap demo_world)) [OpStore ''10'' 0, OpLookup ''10''])
      = Some [AStore ''10'' (PostDoc (post_data.truncate demo_post) []), ALookup ''10'']"
    by (simp add: demo_world_def)
  show ?thesis using o thread_store_simulation [OF o ops prod.collapse [symmetric]] by simp
qed

text \<open>
  Claim C12: \<open>GetChangedThreads\<close> of a store opened by \<open>newChannelThreadsStorage\<close>,
  after any run of operations, returns the roots of exactly the touched keys, ordered by
  key. Their JSON is what the abstract store holds for those keys. Every mutation made
  through the store is therefore visible to the code that collects the output.
\<close>

theorem changed_threads_refine:
  assumes "fst (new_channel_threads_storage connect factory ch cfg) = Inr s"
    and "those (map (op_abs (w_heap w)) ops) = Some aops"
    and "run_store_ops (w, s) ops = (w', s')"
  shows "map (serialize (w_heap w')) (get_changed_threads s') = abs_changed (abs_run (abs_of w s) aops)"
proof -
  from run_store_ops_refines [OF new_channel_threads_storage_fresh(1) [OF assms(1)] assms(2,3)]
  have "abs_of w' s' = abs_run (abs_of w s) aops" and "storage_wf w' s'" by blast+
  then show ?thesis using get_changed_refines by metis
qed

theorem changed_threads_refine_witness:
  "fst (new_channel_threads_storage (\<lambda>_. True) None ''general'' (Some \<lparr>rc_addr = ''r:6379'', rc_user = [], rc_password = []\<rparr>))
     = Inr (new_redis_storage ''general'') \<and>
   map (serialize (w_heap (fst (run_store_ops (demo_world, new_redis_storage ''general'') [OpStore ''10'' 0]))))
       (get_changed_threads (snd (run_store_ops (demo_world, new_redis_storage ''general'') [OpStore ''10'' 0])))
   = abs_changed (abs_run (abs_of demo_world (new_redis_storage ''general''))
       [AStore ''10'' (PostDoc (post_data.truncate demo_post) [])])"
proof -
  have o: "fst (new_channel_threads_storage (\<lambda>_. True) None ''general''
              (Some \<lparr>rc_addr = ''r:6379'', rc_user = [], rc_password = []\<rparr>)) = Inr (new_redis_storage ''general'')"
    by (simp add: new_channel_threads_storage_def)
  have ops: "those (map (op_abs (w_heap demo_world)) [OpStore ''10'' 0])
      = Some [AStore ''10'' (PostDoc (post_data.truncate demo_post) [])]"
    by (simp add: demo_world_def)
  show ?thesis using o changed_threads_refine [OF o ops prod.collapse [symmetric]] by simp
qed

text \<open>
  Claim C15: in a store opened by \<open>newChannelThreadsStorage\<close>, a key that no lookup
  or store of a run names is not marked changed. \<open>GetChangedThreads\<close> only returns roots
  of changed keys, so it never returns the root of such a key.
\<close>

theorem untouched_key_not_changed:
  assumes "fst (new_channel_threads_storage connect factory ch cfg) = Inr s"
    and "run_store_ops (w, s) ops = (w', s')" and "Some ts \<notin> set (map op_key ops)"
  shows "ts \<notin> touched s'"
proof -
  have "ts \<notin> touched s''" if "run_store_ops (w0, s0) ops0 = (w'', s'')"
    "Some ts \<notin> set (map op_key ops0)" "ts \<notin> touched s0" for w0 s0 ops0 w'' s''
    using that
  proof (induction ops0 arbitrary: w0 s0)
    case Nil
    then show ?case by simp
  next
    case (Cons op ops)
    obtain w1 s1 where st: "store_step (w0, s0) op = (w1, s1)" by fastforce
    have "ts \<notin> touched s1"
      using store_step_touched [of w0 s0 op] st Cons.prems(2,3) by auto
    with Cons st show ?case by simp
  qed
  with assms new_channel_threads_storage_fresh(2) [OF assms(1)] show ?thesis by blast
qed

theorem untouched_key_not_changed_witness:
  "fst (new_channel_threads_storage (\<lambda>_. True) None ''general'' None) = Inr new_memory_storage \<and>
   Some ''11'' \<notin> set (map op_key [OpStore ''10'' 0, OpHas ''11'']) \<and>
   ''11'' \<notin> touched (snd (run_store_ops (demo_world, new_memory_storage) [OpStore ''10'' 0, OpHas ''11'']))"
proof -
  have o: "fst (new_channel_threads_storage (\<lambda>_. True) None ''general'' None) = Inr new_memory_storage"
    by (simp add: new_channel_threads_storage_def)
  have k: "Some ''11'' \<notin> set (map op_key [OpStore ''10'' 0, OpHas ''11''])" by simp
  show ?thesis using o k untouched_key_not_changed [OF o prod.collapse [symmetric] k] by simp
qed

text \<open>
  Claim C14: \<open>LookupThread\<close> returns a live pointer to the root
  \<open>IntermediatePost\<close>. Suppose a reply is appended in place to the \<open>Replies\<close> of the
  returned root. A second lookup of the same key then sees the reply, with no
  \<open>StoreThread\<close> in between.
\<close>

theorem lookup_mutation_visible:
  assumes "lookup_thread w s ts = (Some a, w1, s1)" "deref (w_heap w1) a = Some p"
  shows "Option.bind (fst (lookup_thread
            (w1\<lparr>w_heap := heap_upd (w_heap w1) a (p\<lparr>post_replies := post_replies p @ [r]\<rparr>)\<rparr>) s1 ts))
            (deref (heap_upd (w_heap w1) a (p\<lparr>post_replies := post_replies p @ [r]\<rparr>)))
         = Some (p\<lparr>post_replies := post_replies p @ [r]\<rparr>)"
proof -
  have again: "fst (lookup_thread w2 s1 ts) = Some a" for w2
    using assms(1) by (cases s) (auto split: option.splits prod.splits)
  from assms(2) have "a < length (w_heap w1)" by (rule deref_Some_less)
  with again show ?thesis by (simp add: heap_simps)
qed

theorem lookup_mutation_visible_witness:
  "lookup_thread demo_world (MemoryStorage [''10'' \<mapsto> 0]) ''10''
     = (Some 0, demo_world, MemoryStorage [''10'' \<mapsto> 0]) \<and>
   deref (w_heap demo_world) 0 = Some demo_post \<and>
   Option.bind (fst (lookup_thread
      (demo_world\<lparr>w_heap := heap_upd (w_heap demo_world) 0 (demo_post\<lparr>post_replies := post_replies demo_post @ [1]\<rparr>)\<rparr>)
      (MemoryStorage [''10'' \<mapsto> 0]) ''10''))
      (deref (heap_upd (w_heap demo_world) 0 (demo_post\<lparr>post_replies := post_replies demo_post @ [1]\<rparr>)))
   = Some (demo_post\<lparr>post_replies := post_replies demo_post @ [1]\<rparr>)"
proof -
  have l: "lookup_thread demo_world (MemoryStorage [''10'' \<mapsto> 0]) ''10''
           = (Some 0, demo_world, MemoryStorage [''10'' \<mapsto> 0])" by simp
  have d: "deref (w_heap demo_world) 0 = Some demo_post" by (simp add: demo_world_def deref_def)
  show ?thesis using l d lookup_mutation_visible [OF l d, of 1] by blast
qed

text \<open>
  Claim C13: a second Redis store opened by \<open>newChannelThreadsStorage\<close> on the same
  channel finds a thread stored through the first. Its lookup returns the same JSON
  document. Only the looked-up key becomes changed in the second store, even though the
  backend holds the first store's other keys.
\<close>

theorem second_instance_sees_store:
  assumes "new_channel_threads_storage connect factory ch (Some rc) = (Inr s1, factory1)"
    and "new_channel_threads_storage connect factory1 ch (Some rc) = (Inr s2, factory2)"
    and "serialize (w_heap w) a = Some d" and "store_thread w s1 ts a = (w1, s1')"
    and "lookup_thread w1 s2 ts = (res, w2, s2')"
  shows "Option.bind res (serialize (w_heap w2)) = Some d \<and> touched s2' = {ts}"
proof -
  from assms(1) have s1: "s1 = new_redis_storage ch"
    by (auto simp: new_channel_threads_storage_def split: option.splits if_splits)
  from assms(2) have s2: "s2 = new_redis_storage ch"
    by (auto simp: new_channel_threads_storage_def split: option.splits if_splits)
  from assms(3,4) s1 have remote: "w_remote w1 (redis_key ch ts) = Some d"
    by (auto simp: new_redis_storage_def)
  have "(Option.bind res (serialize (w_heap w2)), abs_of w2 s2') = abs_lookup (abs_of w1 s2) ts"
    using lookup_thread_refines(1) [OF storage_wf_new(2) assms(5) [unfolded s2]] s2 by simp
  with remote s2 show ?thesis
    by (simp add: abs_lookup_def abs_of_def new_redis_storage_def)
qed

theorem second_instance_sees_store_witness:
  "new_channel_threads_storage (\<lambda>_. True) None ''general'' (Some \<lparr>rc_addr = ''r:6379'', rc_user = [], rc_password = []\<rparr>)
     = (Inr (new_redis_storage ''general''), Some \<lparr>rc_addr = ''r:6379'', rc_user = [], rc_password = []\<rparr>) \<and>
   new_channel_threads_storage (\<lambda>_. True) (Some \<lparr>rc_addr = ''r:6379'', rc_user = [], rc_password = []\<rparr>) ''general''
     (Some \<lparr>rc_addr = ''r:6379'', rc_user = [], rc_password = []\<rparr>)
     = (Inr (new_redis_storage ''general''), Some \<lparr>rc_addr = ''r:6379'', rc_user = [], rc_password = []\<rparr>) \<and>
   Option.bind (fst (lookup_thread (fst (store_thread demo_world (new_redis_storage ''general'') ''21'' 0))
                       (new_redis_storage ''general'') ''21''))
      (serialize (w_heap (fst (snd (lookup_thread (fst (store_thread demo_world (new_redis_storage ''general'') ''21'' 0))
                       (new_redis_storage ''general'') ''21''))))) = Some (PostDoc (post_data.truncate demo_post) []) \<and>
   touched (snd (snd (lookup_thread (fst (store_thread demo_world (new_redis_storage ''general'') ''21'' 0))
                       (new_redis_storage ''general'') ''21''))) = {''21''}"
proof -
  let ?rc = "\<lparr>rc_addr = ''r:6379'', rc_user = [], rc_password = []\<rparr>"
  have o1: "new_channel_threads_storage (\<lambda>_. True) None ''general'' (Some ?rc)
              = (Inr (new_redis_storage ''general''), Some ?rc)"
    by (simp add: new_channel_threads_storage_def)
  have o2: "new_channel_threads_storage (\<lambda>_. True) (Some ?rc) ''general'' (Some ?rc)
              = (Inr (new_redis_storage ''general''), Some ?rc)"
    by (simp add: new_channel_threads_storage_def)
  have sd: "serialize (w_heap demo_world) 0 = Some (PostDoc (post_data.truncate demo_post) [])"
    by (simp add: demo_world_def)
  let ?w1 = "fst (store_thread demo_world (new_redis_storage ''general'') ''21'' 0)"
  have lk: "lookup_thread ?w1 (new_redis_storage ''general'') ''21''
      = (fst (lookup_thread ?w1 (new_redis_storage ''general'') ''21''),
         fst (snd (lookup_thread ?w1 (new_redis_storage ''general'') ''21'')),
         snd (snd (lookup_thread ?w1 (new_redis_storage ''general'') ''21'')))" by simp
  show ?thesis
    using o1 o2 second_instance_sees_store [OF o1 o2 sd prod.collapse [symmetric] lk]
    by simp
qed

text \<open>
  Claim C19: the Redis keyspace is namespaced by channel. Take two stores opened by
  \<open>newChannelThreadsStorage\<close> for different channels, where timestamps contain no
  colon. A store through the first changes nothing that the second resolves.
\<close>

theorem redis_channels_separate:
  assumes "new_channel_threads_storage connect factory ch1 (Some rc) = (Inr s1, factory1)"
    and "new_channel_threads_storage connect factory1 ch2 (Some rc) = (Inr s2, factory2)"
    and "ch1 \<noteq> ch2" "CHR '':'' \<notin> set ts" "CHR '':'' \<notin> set ts'"
    and "store_thread w s1 ts a = (w', s1')"
  shows "thread_view w' s2 ts' = thread_view w s2 ts'"
proof -
  from assms(1) have s1: "s1 = new_redis_storage ch1"
    by (auto simp: new_channel_threads_storage_def split: option.splits if_splits)
  from assms(2) have s2: "s2 = new_redis_storage ch2"
    by (auto simp: new_channel_threads_storage_def split: option.splits if_splits)
  have "redis_key ch1 ts \<noteq> redis_key ch2 ts'"
    using redis_key_inj [OF assms(4,5)] assms(3) by blast
  with assms(6) s1 s2 show ?thesis
    by (auto simp: new_redis_storage_def split: option.splits)
qed

theorem redis_channels_separate_witness:
  "new_channel_threads_storage (\<lambda>_. True) None ''general'' (Some \<lparr>rc_addr = ''r:6379'', rc_user = [], rc_password = []\<rparr>)
     = (Inr (new_redis_storage ''general''), Some \<lparr>rc_addr = ''r:6379'', rc_user = [], rc_password = []\<rparr>) \<and>
   new_channel_threads_storage (\<lambda>_. True) (Some \<lparr>rc_addr = ''r:6379'', rc_user = [], rc_password = []\<rparr>) ''random''
     (Some \<lparr>rc_addr = ''r:6379'', rc_user = [], rc_password = []\<rparr>)
     = (Inr (new_redis_storage ''random''), Some \<lparr>rc_addr = ''r:6379'', rc_user = [], rc_password = []\<rparr>) \<and>
   thread_view (fst (store_thread demo_world (new_redis_storage ''general'') ''10'' 0))
      (new_redis_storage ''random'') ''10'' = thread_view demo_world (new_redis_storage ''random'') ''10''"
proof -
  let ?rc = "\<lparr>rc_addr = ''r:6379'', rc_user = [], rc_password = []\<rparr>"
  have o1: "new_channel_threads_storage (\<lambda>_. True) None ''general'' (Some ?rc)
              = (Inr (new_redis_storage ''general''), Some ?rc)"
    by (simp add: new_channel_threads_storage_def)
  have o2: "new_channel_threads_storage (\<lambda>_. True) (Some ?rc) ''random'' (Some ?rc)
              = (Inr (new_redis_storage ''random''), Some ?rc)"
    by (simp add: new_channel_threads_storage_def)
  have ne: "''general'' \<noteq> ''random''" and c1: "CHR '':'' \<notin> set ''10''" by simp_all
  show ?thesis
    using o1 o2 redis_channels_separate [OF o1 o2 ne c1 c1 prod.collapse [symmetric]] by simp
qed

text \<open>
  The JSON form keeps an \<open>IntermediatePost\<close>. Serialise a post to JSON and
  read it back into any heap. The fresh post has the same fields and as many replies,
  and it serialises to the same document.
\<close>

theorem json_roundtrip:
  assumes "serialize h a = Some d" "deref h a = Some p" "alloc_doc d h' = (b, h'')"
  shows "serialize h'' b = Some d \<and>
         (\<exists>p'. deref h'' b = Some p' \<and> post_data.truncate p' = post_data.truncate p \<and>
               length (post_replies p') = length (post_replies p))"
proof -
  from assms(1,2) obtain n where "to_doc (Suc n) h a = Some d" by (auto simp: serialize_def)
  with assms(2) obtain ds where d: "d = PostDoc (post_data.truncate p) ds"
    and ds: "those (map (to_doc n h) (post_replies p)) = Some ds"
    by (auto split: option.splits)
  obtain rs h1 where rs: "alloc_docs ds h' = (rs, h1)" by fastforce
  with assms(3) d have b: "b = length h1" and h'': "h'' = h1 @ [mk_ipost (post_data.truncate p) rs]"
    by (simp_all add: alloc_def)
  have "length rs = length ds"
    using rs by (induction ds arbitrary: h' rs h1) (auto split: prod.splits)
  moreover have "length ds = length (post_replies p)" using ds by (rule those_map_length)
  ultimately show ?thesis
    using serialize_alloc_doc [OF assms(3)] by (simp add: b h'' heap_simps)
qed

theorem json_roundtrip_witness:
  "serialize [demo_post] 0 = Some (PostDoc (post_data.truncate demo_post) []) \<and>
   deref [demo_post] 0 = Some demo_post \<and>
   serialize [demo_post, demo_post] 1 = Some (PostDoc (post_data.truncate demo_post) []) \<and>
   (\<exists>p'. deref [demo_post, demo_post] 1 = Some p' \<and> post_data.truncate p' = post_data.truncate demo_post \<and>
          length (post_replies p') = length (post_replies demo_post))"
proof -
  have d: "deref [demo_post] 0 = Some demo_post" by (simp add: deref_def)
  have a: "alloc_doc (PostDoc (post_data.truncate demo_post) []) [demo_post] = (1, [demo_post, demo_post])"
    by (simp add: alloc_def mk_ipost_def demo_post_def new_post_def post_data.defs ipost.defs)
  show ?thesis using json_roundtrip [OF serialize_demo d a] d by simp
qed

end
