(* ===== verification/Threads.thy ===== *)
theory Threads
  imports ThreadStore Timestamps
begin

text \<open>
  \<open>AddPostToThreads\<close> (src/unnamed/part_001, lines 289--336) and its state. The state
  is the world (post heap and Redis backend), the channel's thread store, the channel's
  timestamp ledger and the log. Go passes the new post as a pointer. Nothing else refers
  to it until it is stored or appended, so the model passes it by value and allocates
  it at the point where the code links it into the store or into a root's replies.
  A dropped post is never allocated. A root found by \<open>LookupThread\<close> is changed in
  place through its heap cell, as Go changes it through the pointer.
\<close>

record thread_ctx =
  tc_world :: world
  tc_threads :: threads_storage
  tc_timestamps :: ts_ledger
  tc_log :: "log_event list"

text \<open>Lines 290--296: posts of direct and group channels carry the channel's members.\<close>

abbreviation mark_direct :: "ichannel \<Rightarrow> ipost \<Rightarrow> ipost" where
  "mark_direct channel post \<equiv>
     (if ch_type channel = ChannelTypeDirect \<or> ch_type channel = ChannelTypeGroup
      then post\<lparr>post_is_direct := True, post_channel_members := ch_members_usernames channel\<rparr>
      else post\<lparr>post_is_direct := False\<rparr>)"

definition add_post_to_threads ::
  "slack_post \<Rightarrow> ipost \<Rightarrow> ichannel \<Rightarrow> bool \<Rightarrow> thread_ctx \<Rightarrow> thread_ctx option" where
  "add_post_to_threads original post channel import_workflow_posts c =
     (let post1 = mark_direct channel post
      in case reserve_ts (tc_timestamps c) (post_create_at post1) of
        None \<Rightarrow> None
      | Some (t, ledger) \<Rightarrow>
         (let post2 = post1\<lparr>post_create_at := t\<rparr>;
              c1 = c\<lparr>tc_timestamps := ledger\<rparr>;
              w = tc_world c1;
              threads = tc_threads c1
          in if sp_thread_ts original \<noteq> [] \<and> sp_thread_ts original \<noteq> sp_timestamp original then
               (case lookup_thread w threads (sp_thread_ts original) of
                  (None, w', threads') \<Rightarrow>
                    Some (c1\<lparr>tc_world := w', tc_threads := threads',
                             tc_log := tc_log c1 @ [RootPostMissing (sp_thread_ts original)]\<rparr>)
                | (Some root, w', threads') \<Rightarrow>
                    (case deref (w_heap w') root of
                       None \<Rightarrow> None
                     | Some root_post \<Rightarrow>
                         if \<not> import_workflow_posts \<and> post_user root_post = workflow_user_name
                         then Some (c1\<lparr>tc_world := w', tc_threads := threads'\<rparr>)
                         else
                           (case alloc post2 (w_heap w') of (a, h) \<Rightarrow>
                              Some (c1\<lparr>tc_world := w'\<lparr>w_heap := heap_upd h root
                                        (root_post\<lparr>post_replies := post_replies root_post @ [a]\<rparr>)\<rparr>,
                                       tc_threads := threads'\<rparr>))))
             else
               (let post3 = sanitise_post post2;
                    key = (if sp_timestamp original = sp_thread_ts original
                           then sp_thread_ts original else sp_timestamp original);
                    warn = (if has_thread w threads key then [OverwritingRootPost key] else [])
                in case alloc post3 (w_heap w) of (a, h) \<Rightarrow>
                   (case store_thread (w\<lparr>w_heap := h\<rparr>) threads key a of (w', threads') \<Rightarrow>
                      Some (c1\<lparr>tc_world := w', tc_threads := threads', tc_log := tc_log c1 @ warn\<rparr>)))))"

subsection \<open>The thread invariant and example inputs\<close>

text \<open>
  \<open>threads_inv\<close>: the store is well formed; each stored root is live and its replies
  are live leaves that are not roots; every JSON thread in the backend is one level
  deep. The code only ever appends leaves to roots, so threads never nest further.
\<close>

definition leaf_post :: "heap \<Rightarrow> addr \<Rightarrow> bool" where
  "leaf_post h c \<longleftrightarrow> (\<exists>q. deref h c = Some q \<and> post_replies q = [])"

definition flat_root :: "heap \<Rightarrow> addr set \<Rightarrow> addr \<Rightarrow> bool" where
  "flat_root h roots a \<longleftrightarrow>
     (\<exists>p. deref h a = Some p \<and> (\<forall>c\<in>set (post_replies p). leaf_post h c \<and> c \<notin> roots))"

fun flat_doc :: "post_doc \<Rightarrow> bool" where
  "flat_doc (PostDoc d ds) \<longleftrightarrow> (\<forall>x\<in>set ds. case x of PostDoc _ ys \<Rightarrow> ys = [])"

definition threads_inv :: "thread_ctx \<Rightarrow> bool" where
  "threads_inv c \<longleftrightarrow>
     storage_wf (tc_world c) (tc_threads c) \<and>
     (\<forall>a\<in>store_addrs (tc_threads c).
        flat_root (w_heap (tc_world c)) (store_addrs (tc_threads c)) a) \<and>
     (\<forall>d\<in>ran (w_remote (tc_world c)). flat_doc d)"

definition demo_channel :: ichannel where
  "demo_channel = \<lparr>ch_id = ''C1'', ch_original_name = ''general'', ch_name = ''general'',
     ch_display_name = ''general'', ch_members = [''U1''], ch_members_usernames = [''alice''],
     ch_purpose = [], ch_header = [], ch_topic = [], ch_type = ChannelTypeOpen\<rparr>"

definition slack_msg :: "string \<Rightarrow> string \<Rightarrow> string \<Rightarrow> slack_post" where
  "slack_msg ts thread_ts text = \<lparr>sp_kind = PlainMessage, sp_user = ''U1'', sp_text = text,
     sp_timestamp = ts, sp_thread_ts = thread_ts, sp_file = None, sp_files = None,
     sp_attachments = [], sp_comment = None\<rparr>"

definition demo_ctx :: thread_ctx where
  "demo_ctx = \<lparr>tc_world = \<lparr>w_heap = [], w_remote = Map.empty\<rparr>, tc_threads = new_memory_storage,
     tc_timestamps = {}, tc_log = []\<rparr>"

definition demo_root :: ipost where
  "demo_root = sanitise_post ((mark_direct demo_channel (new_post ''alice'' ''general'' ''hi'' 10000))
                 \<lparr>post_create_at := 10000\<rparr>)"

definition demo_ctx1 :: thread_ctx where
  "demo_ctx1 = \<lparr>tc_world = \<lparr>w_heap = [demo_root], w_remote = Map.empty\<rparr>,
     tc_threads = MemoryStorage [''10'' \<mapsto> 0], tc_timestamps = {10000}, tc_log = []\<rparr>"

subsection \<open>Behaviour of each branch and preservation of the invariant\<close>

lemma add_post_reply_missing:
  assumes "reserve_ts (tc_timestamps c) (post_create_at (mark_direct channel post)) = Some (t, L)"
    and "sp_thread_ts orig \<noteq> []" "sp_thread_ts orig \<noteq> sp_timestamp orig"
    and "lookup_thread (tc_world c) (tc_threads c) (sp_thread_ts orig) = (None, w', s')"
  shows "add_post_to_threads orig post channel imp c =
           Some (c\<lparr>tc_timestamps := L, tc_world := w', tc_threads := s',
                   tc_log := tc_log c @ [RootPostMissing (sp_thread_ts orig)]\<rparr>)"
  using assms by (simp add: add_post_to_threads_def Let_def)

lemma add_post_reply_found:
  assumes "reserve_ts (tc_timestamps c) (post_create_at (mark_direct channel post)) = Some (t, L)"
    and "sp_thread_ts orig \<noteq> []" "sp_thread_ts orig \<noteq> sp_timestamp orig"
    and "lookup_thread (tc_world c) (tc_threads c) (sp_thread_ts orig) = (Some ra, w', s')"
    and "deref (w_heap w') ra = Some rp"
  shows "add_post_to_threads orig post channel imp c =
           (if \<not> imp \<and> post_user rp = workflow_user_name
            then Some (c\<lparr>tc_timestamps := L, tc_world := w', tc_threads := s'\<rparr>)
            else Some (c\<lparr>tc_timestamps := L,
               tc_world := w'\<lparr>w_heap := heap_upd (w_heap w' @ [(mark_direct channel post)\<lparr>post_create_at := t\<rparr>]) ra
                              (rp\<lparr>post_replies := post_replies rp @ [length (w_heap w')]\<rparr>)\<rparr>,
               tc_threads := s'\<rparr>))"
  using assms by (simp add: add_post_to_threads_def Let_def alloc_def)

lemma add_post_root:
  assumes "reserve_ts (tc_timestamps c) (post_create_at (mark_direct channel post)) = Some (t, L)"
    and "sp_thread_ts orig = [] \<or> sp_thread_ts orig = sp_timestamp orig"
    and "store_thread ((tc_world c)\<lparr>w_heap := w_heap (tc_world c) @
            [sanitise_post ((mark_direct channel post)\<lparr>post_create_at := t\<rparr>)]\<rparr>)
          (tc_threads c) (sp_timestamp orig) (length (w_heap (tc_world c))) = (w', s')"
  shows "add_post_to_threads orig post channel imp c =
           Some (c\<lparr>tc_timestamps := L, tc_world := w', tc_threads := s',
                   tc_log := tc_log c @ (if has_thread (tc_world c) (tc_threads c) (sp_timestamp orig)
                                         then [OverwritingRootPost (sp_timestamp orig)] else [])\<rparr>)"
proof -
  have key: "(if sp_timestamp orig = sp_thread_ts orig then sp_thread_ts orig else sp_timestamp orig)
             = sp_timestamp orig" by simp
  have "\<not> (sp_thread_ts orig \<noteq> [] \<and> sp_thread_ts orig \<noteq> sp_timestamp orig)" using assms(2) by blast
  with assms(1,3) show ?thesis
    by (simp only: add_post_to_threads_def Let_def key alloc_def option.case prod.case if_False
        thread_ctx.simps) simp
qed

lemma add_post_to_threads_cases:
  assumes res: "add_post_to_threads orig post channel imp c = Some c'"
  obtains (root) t L w' s' where
      "reserve_ts (tc_timestamps c) (post_create_at (mark_direct channel post)) = Some (t, L)"
      "sp_thread_ts orig = [] \<or> sp_thread_ts orig = sp_timestamp orig"
      "store_thread ((tc_world c)\<lparr>w_heap := w_heap (tc_world c) @
          [sanitise_post ((mark_direct channel post)\<lparr>post_create_at := t\<rparr>)]\<rparr>)
        (tc_threads c) (sp_timestamp orig) (length (w_heap (tc_world c))) = (w', s')"
      "c' = c\<lparr>tc_timestamps := L, tc_world := w', tc_threads := s',
              tc_log := tc_log c @ (if has_thread (tc_world c) (tc_threads c) (sp_timestamp orig)
                                    then [OverwritingRootPost (sp_timestamp orig)] else [])\<rparr>"
  | (missing) t L w' s' where
      "reserve_ts (tc_timestamps c) (post_create_at (mark_direct channel post)) = Some (t, L)"
      "sp_thread_ts orig \<noteq> []" "sp_thread_ts orig \<noteq> sp_timestamp orig"
      "lookup_thread (tc_world c) (tc_threads c) (sp_thread_ts orig) = (None, w', s')"
      "c' = c\<lparr>tc_timestamps := L, tc_world := w', tc_threads := s',
              tc_log := tc_log c @ [RootPostMissing (sp_thread_ts orig)]\<rparr>"
  | (dropped) t L ra rp w' s' where
      "reserve_ts (tc_timestamps c) (post_create_at (mark_direct channel post)) = Some (t, L)"
      "sp_thread_ts orig \<noteq> []" "sp_thread_ts orig \<noteq> sp_timestamp orig"
      "lookup_thread (tc_world c) (tc_threads c) (sp_thread_ts orig) = (Some ra, w', s')"
      "deref (w_heap w') ra = Some rp" "\<not> imp" "post_user rp = workflow_user_name"
      "c' = c\<lparr>tc_timestamps := L, tc_world := w', tc_threads := s'\<rparr>"
  | (appended) t L ra rp w' s' where
      "reserve_ts (tc_timestamps c) (post_create_at (mark_direct channel post)) = Some (t, L)"
      "sp_thread_ts orig \<noteq> []" "sp_thread_ts orig \<noteq> sp_timestamp orig"
      "lookup_thread (tc_world c) (tc_threads c) (sp_thread_ts orig) = (Some ra, w', s')"
      "deref (w_heap w') ra = Some rp" "imp \<or> post_user rp \<noteq> workflow_user_name"
      "c' = c\<lparr>tc_timestamps := L,
               tc_world := w'\<lparr>w_heap := heap_upd (w_heap w' @ [(mark_direct channel post)\<lparr>post_create_at := t\<rparr>]) ra
                              (rp\<lparr>post_replies := post_replies rp @ [length (w_heap w')]\<rparr>)\<rparr>,
               tc_threads := s'\<rparr>"
proof -
  obtain t L where r: "reserve_ts (tc_timestamps c) (post_create_at (mark_direct channel post)) = Some (t, L)"
    using res by (cases "reserve_ts (tc_timestamps c) (post_create_at (mark_direct channel post))")
      (auto simp: add_post_to_threads_def Let_def)
  consider (rt) "sp_thread_ts orig = [] \<or> sp_thread_ts orig = sp_timestamp orig"
    | (rp) "sp_thread_ts orig \<noteq> []" "sp_thread_ts orig \<noteq> sp_timestamp orig" by blast
  then show ?thesis
  proof cases
    case rt
    obtain w' s' where st: "store_thread ((tc_world c)\<lparr>w_heap := w_heap (tc_world c) @
          [sanitise_post ((mark_direct channel post)\<lparr>post_create_at := t\<rparr>)]\<rparr>)
        (tc_threads c) (sp_timestamp orig) (length (w_heap (tc_world c))) = (w', s')" by fastforce
    from add_post_root [OF r rt st] res show ?thesis using root [OF r rt st] by simp
  next
    case rp
    obtain r0 w' s' where lk: "lookup_thread (tc_world c) (tc_threads c) (sp_thread_ts orig) = (r0, w', s')"
      by (cases "lookup_thread (tc_world c) (tc_threads c) (sp_thread_ts orig)") auto
    show ?thesis
    proof (cases r0)
      case None
      from add_post_reply_missing [OF r rp lk [unfolded None]] res
      show ?thesis using missing [OF r rp lk [unfolded None]] by simp
    next
      case (Some ra)
      show ?thesis
      proof (cases "deref (w_heap w') ra")
        case None
        with res r rp lk Some show ?thesis by (simp add: add_post_to_threads_def Let_def)
      next
        case (Some rpost)
        note found = add_post_reply_found [OF r rp lk [unfolded \<open>r0 = Some ra\<close>] Some, of imp]
        show ?thesis
        proof (cases "\<not> imp \<and> post_user rpost = workflow_user_name")
          case True
          with found res show ?thesis
            using dropped [OF r rp lk [unfolded \<open>r0 = Some ra\<close>] Some] by auto
        next
          case False
          with found res show ?thesis
            using appended [OF r rp lk [unfolded \<open>r0 = Some ra\<close>] Some] by auto
        qed
      qed
    qed
  qed
qed

lemma leaf_post_less: "leaf_post h c \<Longrightarrow> c < length h"
  by (auto simp: leaf_post_def dest: deref_Some_less)

lemma leaf_post_append: "leaf_post h c \<Longrightarrow> leaf_post (h @ e) c"
  by (auto simp: leaf_post_def dest: deref_append)

lemma flat_root_append:
  assumes "flat_root h roots a" and "\<forall>c. c \<in> roots' \<longrightarrow> c \<in> roots \<or> length h \<le> c"
  shows "flat_root (h @ e) roots' a"
proof -
  from assms(1) obtain p where p: "deref h a = Some p"
    and cs: "\<forall>c\<in>set (post_replies p). leaf_post h c \<and> c \<notin> roots" by (auto simp: flat_root_def)
  have "\<forall>c\<in>set (post_replies p). leaf_post (h @ e) c \<and> c \<notin> roots'"
  proof
    fix c assume c: "c \<in> set (post_replies p)"
    with cs have "leaf_post h c" "c \<notin> roots" by auto
    moreover from \<open>leaf_post h c\<close> have "c < length h" by (rule leaf_post_less)
    ultimately show "leaf_post (h @ e) c \<and> c \<notin> roots'"
      using assms(2) leaf_post_append by fastforce
  qed
  with p show ?thesis by (auto simp: flat_root_def dest: deref_append)
qed

lemma flat_root_serialize:
  assumes "flat_root h roots a"
  shows "serialize h a \<noteq> None"
proof -
  from assms obtain p where p: "deref h a = Some p"
    and cs: "\<forall>c\<in>set (post_replies p). leaf_post h c" by (auto simp: flat_root_def)
  have "\<forall>c\<in>set (post_replies p). to_doc (Suc 0) h c \<noteq> None"
    using cs by (auto simp: leaf_post_def)
  then have "those (map (to_doc (Suc 0) h) (post_replies p)) \<noteq> None"
    by (rule those_map_not_None)
  with p obtain d where d: "to_doc (Suc (Suc 0)) h a = Some d" by auto
  from p have "Suc (Suc 0) \<le> Suc (length h)" by (auto dest: deref_Some_less)
  with d have "to_doc (Suc (length h)) h a = Some d" by (rule to_doc_mono)
  then show ?thesis by (simp add: serialize_def)
qed

lemma threads_inv_ignores [simp]:
  "threads_inv (c\<lparr>tc_timestamps := L\<rparr>) = threads_inv c"
  "threads_inv (c\<lparr>tc_log := g\<rparr>) = threads_inv c"
  by (simp_all add: threads_inv_def)

lemma flat_doc_leaf: "flat_doc (PostDoc dd ds) \<Longrightarrow> x \<in> set ds \<Longrightarrow> \<exists>d'. x = PostDoc d' []"
  by (cases x) auto

lemma alloc_docs_leaves:
  assumes "\<forall>x\<in>set ds. \<exists>d'. x = PostDoc d' []" and "alloc_docs ds h = (rs, h1)"
  shows "(\<forall>r\<in>set rs. length h \<le> r \<and> r < length h1 \<and> leaf_post h1 r) \<and> (\<exists>e. h1 = h @ e)"
  using assms
proof (induction ds arbitrary: h rs h1)
  case Nil
  then show ?case by simp
next
  case (Cons x ds)
  from Cons.prems(1) obtain d' where x: "x = PostDoc d' []" by auto
  let ?h = "h @ [mk_ipost d' []]"
  obtain rs1 h2 where rest: "alloc_docs ds ?h = (rs1, h2)" by fastforce
  with Cons.prems(2) x have rs: "rs = length h # rs1" and h1: "h1 = h2"
    by (simp_all add: alloc_def)
  from Cons.prems(1) have "\<forall>x\<in>set ds. \<exists>d'. x = PostDoc d' []" by simp
  from Cons.IH [OF this rest] obtain e where
    r1: "\<forall>r\<in>set rs1. length ?h \<le> r \<and> r < length h2 \<and> leaf_post h2 r" and e: "h2 = ?h @ e"
    by blast
  have "leaf_post h2 (length h)"
    unfolding e by (rule leaf_post_append) (simp add: leaf_post_def heap_simps)
  with r1 rs h1 e show ?case by auto
qed

lemma alloc_flat_doc:
  assumes "flat_doc (PostDoc dd ds)" and "alloc_doc (PostDoc dd ds) h = (a, h')"
  shows "length h \<le> a \<and> (\<exists>e. h' = h @ e) \<and>
         (\<exists>rs. deref h' a = Some (mk_ipost dd rs) \<and>
              (\<forall>r\<in>set rs. length h \<le> r \<and> r < a \<and> leaf_post h' r))"
proof -
  obtain rs h1 where ds: "alloc_docs ds h = (rs, h1)" by fastforce
  with assms(2) have a: "a = length h1" and h': "h' = h1 @ [mk_ipost dd rs]"
    by (simp_all add: alloc_def)
  from alloc_docs_leaves [OF _ ds] assms(1) flat_doc_leaf obtain e where
    rs: "\<forall>r\<in>set rs. length h \<le> r \<and> r < length h1 \<and> leaf_post h1 r" and h1: "h1 = h @ e"
    by blast
  have "\<forall>r\<in>set rs. length h \<le> r \<and> r < a \<and> leaf_post h' r"
    using rs leaf_post_append by (simp add: a h')
  moreover have "deref h' a = Some (mk_ipost dd rs)" by (simp add: a h' heap_simps)
  ultimately show ?thesis using h1 by (auto simp: a h')
qed

lemma roots_less:
  "threads_inv c \<Longrightarrow> b \<in> store_addrs (tc_threads c) \<Longrightarrow> b < length (w_heap (tc_world c))"
  by (auto simp: threads_inv_def flat_root_def dest: deref_Some_less)

lemma threads_inv_lookup:
  assumes inv: "threads_inv c"
    and l: "lookup_thread (tc_world c) (tc_threads c) ts = (r, w', s')"
  shows "threads_inv (c\<lparr>tc_world := w', tc_threads := s'\<rparr>) \<and>
         (\<forall>ra. r = Some ra \<longrightarrow> ra \<in> store_addrs s') \<and>
         (\<exists>e. w_heap w' = w_heap (tc_world c) @ e) \<and> w_remote w' = w_remote (tc_world c)"
  using l
proof (cases rule: lookup_thread_cases)
  case same
  then have eq: "c\<lparr>tc_world := w', tc_threads := s'\<rparr> = c" by simp
  show ?thesis unfolding eq using same inv by auto
next
  case (fetch rs d a h')
  let ?w = "tc_world c" and ?s = "tc_threads c"
  have wf': "storage_wf w' s'"
    using lookup_thread_refines(2) [OF _ l] inv by (simp add: threads_inv_def)
  obtain dd ds where d: "d = PostDoc dd ds" by (cases d)
  from fetch(3) inv have "flat_doc d" by (auto simp: threads_inv_def intro: ranI)
  from alloc_flat_doc [OF this [unfolded d] fetch(4) [unfolded d]] obtain e rs' where
    fresh: "length (w_heap ?w) \<le> a" and he: "h' = w_heap ?w @ e"
    and da: "deref h' a = Some (mk_ipost dd rs')"
    and kids: "\<forall>r\<in>set rs'. length (w_heap ?w) \<le> r \<and> r < a \<and> leaf_post h' r"
    by blast
  have roots': "store_addrs s' = insert a (store_addrs ?s)"
    using fetch(1,2,7) by (simp add: ran_map_upd)
  have old_less: "b < length (w_heap ?w)" if "b \<in> store_addrs ?s" for b
    using roots_less [OF inv] that by simp
  have "flat_root h' (store_addrs s') b" if "b \<in> store_addrs s'" for b
  proof (cases "b = a")
    case True
    have "\<forall>r\<in>set rs'. leaf_post h' r \<and> r \<notin> store_addrs s'"
      using kids old_less roots' by fastforce
    with da True show ?thesis by (simp add: flat_root_def)
  next
    case False
    with that roots' have "b \<in> store_addrs ?s" by simp
    with inv have "flat_root (w_heap ?w) (store_addrs ?s) b" by (simp add: threads_inv_def)
    then show ?thesis unfolding he
      by (rule flat_root_append) (use roots' fresh in auto)
  qed
  with wf' inv fetch(5,6) show ?thesis
    by (auto simp: threads_inv_def he roots')
qed

lemma leaf_post_upd: "leaf_post h c \<Longrightarrow> c \<noteq> a \<Longrightarrow> leaf_post (heap_upd h a q) c"
  by (simp add: leaf_post_def heap_simps)

lemma threads_inv_append_reply:
  assumes inv: "threads_inv c" and ra: "ra \<in> store_addrs (tc_threads c)"
    and rp: "deref (w_heap (tc_world c)) ra = Some rp" and leaf: "post_replies p = []"
  shows "threads_inv (c\<lparr>tc_world := (tc_world c)\<lparr>w_heap := heap_upd (w_heap (tc_world c) @ [p]) ra
            (rp\<lparr>post_replies := post_replies rp @ [length (w_heap (tc_world c))]\<rparr>)\<rparr>\<rparr>)"
    (is "threads_inv (c\<lparr>tc_world := (tc_world c)\<lparr>w_heap := ?H\<rparr>\<rparr>)")
proof -
  let ?h = "w_heap (tc_world c)" and ?R = "store_addrs (tc_threads c)"
  have ra_less: "ra < length ?h" using rp by (rule deref_Some_less)
  have new_leaf: "leaf_post ?H (length ?h)"
    using ra_less leaf by (simp add: leaf_post_def heap_simps)
  have new_not_root: "length ?h \<notin> ?R" using roots_less [OF inv] by auto
  have flat: "flat_root ?H ?R b" if b: "b \<in> ?R" for b
  proof -
    from inv b obtain q where q: "deref ?h b = Some q"
      and cs: "\<forall>c\<in>set (post_replies q). leaf_post ?h c \<and> c \<notin> ?R"
      by (auto simp: threads_inv_def flat_root_def)
    have old: "leaf_post ?H c \<and> c \<notin> ?R" if "c \<in> set (post_replies q)" for c
    proof -
      from cs that have "leaf_post ?h c" "c \<notin> ?R" by auto
      moreover from this(2) ra have "c \<noteq> ra" by blast
      ultimately show ?thesis by (auto intro: leaf_post_upd leaf_post_append)
    qed
    show ?thesis
    proof (cases "b = ra")
      case True
      with q rp have "q = rp" by simp
      with True old new_leaf new_not_root ra_less show ?thesis
        by (auto simp: flat_root_def heap_simps)
    next
      case False
      have "b < length ?h" using roots_less [OF inv b] by simp
      with False q old show ?thesis by (auto simp: flat_root_def heap_simps)
    qed
  qed
  have "\<forall>a\<in>?R. serialize ?H a \<noteq> None" using flat flat_root_serialize by blast
  then have "storage_wf ((tc_world c)\<lparr>w_heap := ?H\<rparr>) (tc_threads c)"
    using inv by (intro storage_wf_heap) (auto simp: threads_inv_def)
  with flat inv show ?thesis by (simp add: threads_inv_def)
qed

lemma threads_inv_store_root:
  assumes inv: "threads_inv c" and leaf: "post_replies p = []"
    and st: "store_thread ((tc_world c)\<lparr>w_heap := w_heap (tc_world c) @ [p]\<rparr>) (tc_threads c) k
               (length (w_heap (tc_world c))) = (w', s')"
  shows "threads_inv (c\<lparr>tc_world := w', tc_threads := s'\<rparr>)"
proof -
  let ?h = "w_heap (tc_world c)" and ?R = "store_addrs (tc_threads c)"
  let ?w1 = "(tc_world c)\<lparr>w_heap := ?h @ [p]\<rparr>"
  have heap': "w_heap w' = ?h @ [p]" using store_thread_heap [OF st] by simp
  have roots': "store_addrs s' \<subseteq> insert (length ?h) ?R" using store_addrs_store [OF st] .
  have sd: "serialize (?h @ [p]) (length ?h) = Some (PostDoc (post_data.truncate p) [])"
    using leaf by (rule serialize_leaf)
  have flat: "flat_root (w_heap w') (store_addrs s') b" if b: "b \<in> store_addrs s'" for b
  proof (cases "b = length ?h")
    case True
    with leaf show ?thesis by (simp add: flat_root_def heap' heap_simps)
  next
    case False
    with b roots' have "b \<in> ?R" by blast
    with inv have "flat_root ?h ?R b" by (simp add: threads_inv_def)
    then show ?thesis unfolding heap' by (rule flat_root_append) (use roots' in auto)
  qed
  have wf1: "storage_wf ?w1 (tc_threads c)"
  proof (rule storage_wf_heap)
    show "storage_wf (tc_world c) (tc_threads c)" using inv by (simp add: threads_inv_def)
    show "\<forall>a\<in>?R. serialize (?h @ [p]) a \<noteq> None"
      using inv flat_root_serialize serialize_append
      by (fastforce simp: threads_inv_def)
  qed
  have wf': "storage_wf w' s'" using store_thread_refines(2) [OF wf1 _ st] sd by simp
  have "\<forall>d\<in>ran (w_remote w'). flat_doc d"
    using store_thread_remote [OF st] inv sd by (fastforce simp: threads_inv_def)
  with wf' flat show ?thesis by (simp add: threads_inv_def)
qed

lemma mark_direct_fields [simp]:
  "post_replies (mark_direct channel p) = post_replies p"
  "post_user (mark_direct channel p) = post_user p"
  "post_create_at (mark_direct channel p) = post_create_at p"
  "post_message (mark_direct channel p) = post_message p"
  by simp_all

lemma demo_step1:
  "add_post_to_threads (slack_msg ''10'' [] ''hi'') (new_post ''alice'' ''general'' ''hi'' 10000)
     demo_channel False demo_ctx = Some demo_ctx1"
proof -
  have r: "reserve_ts (tc_timestamps demo_ctx)
             (post_create_at (mark_direct demo_channel (new_post ''alice'' ''general'' ''hi'' 10000)))
           = Some (10000, {10000})"
    by (simp add: demo_ctx_def reserve_ts_def next_free_ts_step new_post_def)
  have e: "sp_thread_ts (slack_msg ''10'' [] ''hi'') = [] \<or>
           sp_thread_ts (slack_msg ''10'' [] ''hi'') = sp_timestamp (slack_msg ''10'' [] ''hi'')"
    by (simp add: slack_msg_def)
  have st: "store_thread ((tc_world demo_ctx)\<lparr>w_heap := w_heap (tc_world demo_ctx) @ [demo_root]\<rparr>)
      (tc_threads demo_ctx) (sp_timestamp (slack_msg ''10'' [] ''hi'')) (length (w_heap (tc_world demo_ctx)))
      = (\<lparr>w_heap = [demo_root], w_remote = Map.empty\<rparr>, MemoryStorage [''10'' \<mapsto> 0])"
    by (simp add: demo_ctx_def slack_msg_def new_memory_storage_def)
  show ?thesis
    using add_post_root [OF r e st [unfolded demo_root_def]]
    by (simp add: demo_ctx_def demo_ctx1_def demo_root_def slack_msg_def new_memory_storage_def)
qed

lemma threads_inv_demo: "threads_inv demo_ctx" "threads_inv demo_ctx1"
proof -
  show "threads_inv demo_ctx" by (simp add: threads_inv_def demo_ctx_def new_memory_storage_def)
  have "flat_root [demo_root] {0} 0"
    by (simp add: flat_root_def deref_def demo_root_def new_post_def)
  moreover have "serialize [demo_root] 0 \<noteq> None"
    using calculation by (rule flat_root_serialize)
  ultimately show "threads_inv demo_ctx1" by (simp add: threads_inv_def demo_ctx1_def)
qed

lemma add_post_inv:
  assumes inv: "threads_inv c" and leaf: "post_replies post = []"
    and res: "add_post_to_threads orig post channel imp c = Some c'"
  shows "threads_inv c'"
  using res
proof (cases rule: add_post_to_threads_cases)
  case (root t L w' s')
  have "threads_inv (c\<lparr>tc_world := w', tc_threads := s'\<rparr>)"
    using threads_inv_store_root [OF inv _ root(3)] leaf by simp
  with root(4) show ?thesis by (simp add: threads_inv_def)
next
  case (missing t L w' s')
  with threads_inv_lookup [OF inv missing(4)] show ?thesis by (simp add: threads_inv_def)
next
  case (dropped t L ra rp w' s')
  with threads_inv_lookup [OF inv dropped(4)] show ?thesis by (simp add: threads_inv_def)
next
  case (appended t L ra rp w' s')
  from threads_inv_lookup [OF inv appended(4)] have inv1: "threads_inv (c\<lparr>tc_world := w', tc_threads := s'\<rparr>)"
    and ra: "ra \<in> store_addrs s'" by auto
  have "threads_inv (c\<lparr>tc_world := w', tc_threads := s'\<rparr>\<lparr>tc_world :=
           w'\<lparr>w_heap := heap_upd (w_heap w' @ [(mark_direct channel post)\<lparr>post_create_at := t\<rparr>]) ra
             (rp\<lparr>post_replies := post_replies rp @ [length (w_heap w')]\<rparr>)\<rparr>\<rparr>)"
    using threads_inv_append_reply [OF inv1] ra appended(5) leaf by simp
  with appended(7) show ?thesis by (simp add: threads_inv_def)
qed

lemma add_post_some:
  assumes inv: "threads_inv c" and room: "tc_timestamps c \<noteq> UNIV"
  shows "\<exists>c'. add_post_to_threads orig post channel imp c = Some c'"
proof -
  obtain t where r: "reserve_ts (tc_timestamps c) (post_create_at (mark_direct channel post))
                     = Some (t, insert t (tc_timestamps c))"
    using reserve_ts_ok [OF room] by blast
  let ?p2 = "(mark_direct channel post)\<lparr>post_create_at := t\<rparr>"
  show ?thesis
  proof (cases "sp_thread_ts orig \<noteq> [] \<and> sp_thread_ts orig \<noteq> sp_timestamp orig")
    case True
    obtain r0 w' s' where l: "lookup_thread (tc_world c) (tc_threads c) (sp_thread_ts orig) = (r0, w', s')"
      by (metis prod.exhaust)
    from threads_inv_lookup [OF inv l] have inv1: "threads_inv (c\<lparr>tc_world := w', tc_threads := s'\<rparr>)"
      and in1: "\<forall>ra. r0 = Some ra \<longrightarrow> ra \<in> store_addrs s'" by blast+
    show ?thesis
    proof (cases r0)
      case None
      with add_post_reply_missing [OF r _ _ l [unfolded None]] True show ?thesis by blast
    next
      case (Some ra)
      with in1 inv1 obtain rp where "deref (w_heap w') ra = Some rp"
        by (auto simp: threads_inv_def flat_root_def)
      from add_post_reply_found [OF r _ _ l [unfolded Some] this] True show ?thesis by auto
    qed
  next
    case False
    obtain w' s' where st: "store_thread ((tc_world c)\<lparr>w_heap := w_heap (tc_world c) @ [sanitise_post ?p2]\<rparr>)
        (tc_threads c) (sp_timestamp orig) (length (w_heap (tc_world c))) = (w', s')"
      by fastforce
    from add_post_root [OF r _ st] False show ?thesis by auto
  qed
qed

lemma add_post_ledger:
  assumes "add_post_to_threads orig post channel imp c = Some c'"
  shows "\<exists>t. t \<notin> tc_timestamps c \<and> tc_timestamps c' = insert t (tc_timestamps c)"
  using assms by (cases rule: add_post_to_threads_cases) (auto dest: reserve_ts_fresh)

subsection \<open>Properties of \<open>AddPostToThreads\<close>\<close>

text \<open>
  Claim C3: a root post (no thread timestamp, or one equal to its own timestamp) is
  stored when the ledger has room. \<open>AddPostToThreads\<close> reserves a fresh timestamp for
  it and stores the sanitised post, with that timestamp as its \<open>CreateAt\<close>, under its
  Slack timestamp, where a lookup finds it. It logs an overwrite warning exactly when
  the key was already present.
\<close>

theorem root_stored:
  assumes "tc_timestamps c \<noteq> UNIV"
    and "sp_thread_ts orig = [] \<or> sp_thread_ts orig = sp_timestamp orig"
  shows "\<exists>c' a t. add_post_to_threads orig post channel imp c = Some c' \<and>
           t \<notin> tc_timestamps c \<and> tc_timestamps c' = insert t (tc_timestamps c) \<and>
           lookup_thread (tc_world c') (tc_threads c') (sp_timestamp orig)
             = (Some a, tc_world c', tc_threads c') \<and>
           deref (w_heap (tc_world c')) a
             = Some (sanitise_post ((mark_direct channel post)\<lparr>post_create_at := t\<rparr>)) \<and>
           tc_log c' = tc_log c @ (if has_thread (tc_world c) (tc_threads c) (sp_timestamp orig)
                                   then [OverwritingRootPost (sp_timestamp orig)] else [])"
proof -
  obtain t where fresh: "t \<notin> tc_timestamps c"
    and r: "reserve_ts (tc_timestamps c) (post_create_at (mark_direct channel post))
            = Some (t, insert t (tc_timestamps c))"
    using reserve_ts_ok [OF assms(1)] by blast
  let ?p = "sanitise_post ((mark_direct channel post)\<lparr>post_create_at := t\<rparr>)"
  let ?h = "w_heap (tc_world c)"
  obtain w' s' where st: "store_thread ((tc_world c)\<lparr>w_heap := ?h @ [?p]\<rparr>) (tc_threads c)
      (sp_timestamp orig) (length ?h) = (w', s')" by fastforce
  have "w_heap w' = ?h @ [?p]" using store_thread_heap [OF st] by simp
  then have "deref (w_heap w') (length ?h) = Some ?p" by (simp add: heap_simps)
  with add_post_root [OF r assms(2) st] store_then_lookup [OF st] fresh show ?thesis
    by fastforce
qed

theorem root_stored_witness:
  "tc_timestamps demo_ctx \<noteq> UNIV \<and>
   (sp_thread_ts (slack_msg ''10'' [] ''hi'') = [] \<or>
    sp_thread_ts (slack_msg ''10'' [] ''hi'') = sp_timestamp (slack_msg ''10'' [] ''hi'')) \<and>
   (\<exists>c' a t. add_post_to_threads (slack_msg ''10'' [] ''hi'') (new_post ''alice'' ''general'' ''hi'' 10000)
        demo_channel False demo_ctx = Some c' \<and>
      t \<notin> tc_timestamps demo_ctx \<and> tc_timestamps c' = insert t (tc_timestamps demo_ctx) \<and>
      lookup_thread (tc_world c') (tc_threads c') (sp_timestamp (slack_msg ''10'' [] ''hi''))
        = (Some a, tc_world c', tc_threads c') \<and>
      deref (w_heap (tc_world c')) a = Some (sanitise_post ((mark_direct demo_channel
          (new_post ''alice'' ''general'' ''hi'' 10000))\<lparr>post_create_at := t\<rparr>)) \<and>
      tc_log c' = tc_log demo_ctx @
        (if has_thread (tc_world demo_ctx) (tc_threads demo_ctx) (sp_timestamp (slack_msg ''10'' [] ''hi''))
         then [OverwritingRootPost (sp_timestamp (slack_msg ''10'' [] ''hi''))] else []))"
proof -
  have u: "tc_timestamps demo_ctx \<noteq> UNIV" by (simp add: demo_ctx_def)
  have e: "sp_thread_ts (slack_msg ''10'' [] ''hi'') = [] \<or>
           sp_thread_ts (slack_msg ''10'' [] ''hi'') = sp_timestamp (slack_msg ''10'' [] ''hi'')"
    by (simp add: slack_msg_def)
  show ?thesis using u e root_stored [OF u e] by blast
qed

text \<open>
  Claim C5: a reply whose root is not in the thread store is dropped. Only the
  timestamp is reserved and \<open>RootPostMissing\<close> is logged; the heap and the store are
  unchanged.
\<close>

theorem reply_without_root_dropped:
  assumes "tc_timestamps c \<noteq> UNIV"
    and "sp_thread_ts orig \<noteq> []" "sp_thread_ts orig \<noteq> sp_timestamp orig"
    and "\<not> has_thread (tc_world c) (tc_threads c) (sp_thread_ts orig)"
  shows "\<exists>t. t \<notin> tc_timestamps c \<and>
           add_post_to_threads orig post channel imp c
             = Some (c\<lparr>tc_timestamps := insert t (tc_timestamps c),
                       tc_log := tc_log c @ [RootPostMissing (sp_thread_ts orig)]\<rparr>)"
proof -
  obtain t where fresh: "t \<notin> tc_timestamps c"
    and r: "reserve_ts (tc_timestamps c) (post_create_at (mark_direct channel post))
            = Some (t, insert t (tc_timestamps c))"
    using reserve_ts_ok [OF assms(1)] by blast
  from add_post_reply_missing [OF r assms(2,3) lookup_thread_not_has [OF assms(4)]] fresh
  show ?thesis by auto
qed

theorem reply_without_root_dropped_witness:
  "tc_timestamps demo_ctx \<noteq> UNIV \<and> sp_thread_ts (slack_msg ''15'' ''10'' ''re'') \<noteq> [] \<and>
   sp_thread_ts (slack_msg ''15'' ''10'' ''re'') \<noteq> sp_timestamp (slack_msg ''15'' ''10'' ''re'') \<and>
   \<not> has_thread (tc_world demo_ctx) (tc_threads demo_ctx) (sp_thread_ts (slack_msg ''15'' ''10'' ''re'')) \<and>
   (\<exists>t. t \<notin> tc_timestamps demo_ctx \<and>
      add_post_to_threads (slack_msg ''15'' ''10'' ''re'') (new_post ''alice'' ''general'' ''re'' 15000)
        demo_channel False demo_ctx
      = Some (demo_ctx\<lparr>tc_timestamps := insert t (tc_timestamps demo_ctx),
               tc_log := tc_log demo_ctx @ [RootPostMissing (sp_thread_ts (slack_msg ''15'' ''10'' ''re''))]\<rparr>))"
proof -
  have u: "tc_timestamps demo_ctx \<noteq> UNIV" by (simp add: demo_ctx_def)
  have n: "\<not> has_thread (tc_world demo_ctx) (tc_threads demo_ctx) (sp_thread_ts (slack_msg ''15'' ''10'' ''re''))"
    by (simp add: demo_ctx_def slack_msg_def new_memory_storage_def)
  have a: "sp_thread_ts (slack_msg ''15'' ''10'' ''re'') \<noteq> []"
    and b: "sp_thread_ts (slack_msg ''15'' ''10'' ''re'') \<noteq> sp_timestamp (slack_msg ''15'' ''10'' ''re'')"
    by (simp_all add: slack_msg_def)
  show ?thesis using u a b n reply_without_root_dropped [OF u a b n] by blast
qed

text \<open>
  Claim C4: a reply whose root is found, and which the workflow filter does not drop,
  is allocated with a fresh timestamp and appended to the end of the root's
  \<open>Replies\<close> in place. The store and the log are unchanged.
\<close>

theorem reply_appended_to_root:
  assumes "tc_timestamps c \<noteq> UNIV"
    and "sp_thread_ts orig \<noteq> []" "sp_thread_ts orig \<noteq> sp_timestamp orig"
    and "lookup_thread (tc_world c) (tc_threads c) (sp_thread_ts orig) = (Some ra, w', s')"
    and "deref (w_heap w') ra = Some rp"
    and "imp \<or> post_user rp \<noteq> workflow_user_name"
  shows "\<exists>c' a t. add_post_to_threads orig post channel imp c = Some c' \<and>
           t \<notin> tc_timestamps c \<and> tc_timestamps c' = insert t (tc_timestamps c) \<and>
           tc_threads c' = s' \<and> tc_log c' = tc_log c \<and> a \<noteq> ra \<and>
           deref (w_heap (tc_world c')) ra = Some (rp\<lparr>post_replies := post_replies rp @ [a]\<rparr>) \<and>
           deref (w_heap (tc_world c')) a = Some ((mark_direct channel post)\<lparr>post_create_at := t\<rparr>)"
proof -
  obtain t where fresh: "t \<notin> tc_timestamps c"
    and r: "reserve_ts (tc_timestamps c) (post_create_at (mark_direct channel post))
            = Some (t, insert t (tc_timestamps c))"
    using reserve_ts_ok [OF assms(1)] by blast
  have ra: "ra < length (w_heap w')" using assms(5) by (rule deref_Some_less)
  from add_post_reply_found [OF r assms(2,3,4,5)] assms(6)
  have "add_post_to_threads orig post channel imp c =
          Some (c\<lparr>tc_timestamps := insert t (tc_timestamps c),
             tc_world := w'\<lparr>w_heap := heap_upd (w_heap w' @ [(mark_direct channel post)\<lparr>post_create_at := t\<rparr>]) ra
                            (rp\<lparr>post_replies := post_replies rp @ [length (w_heap w')]\<rparr>)\<rparr>,
             tc_threads := s'\<rparr>)" by auto
  with fresh ra show ?thesis by (auto simp: heap_simps)
qed

theorem reply_appended_to_root_witness:
  "tc_timestamps demo_ctx1 \<noteq> UNIV \<and>
   sp_thread_ts (slack_msg ''15'' ''10'' ''re'') \<noteq> [] \<and>
   sp_thread_ts (slack_msg ''15'' ''10'' ''re'') \<noteq> sp_timestamp (slack_msg ''15'' ''10'' ''re'') \<and>
   lookup_thread (tc_world demo_ctx1) (tc_threads demo_ctx1) (sp_thread_ts (slack_msg ''15'' ''10'' ''re''))
     = (Some 0, tc_world demo_ctx1, tc_threads demo_ctx1) \<and>
   deref (w_heap (tc_world demo_ctx1)) 0 = Some demo_root \<and>
   (False \<or> post_user demo_root \<noteq> workflow_user_name) \<and>
   (\<exists>c' a t. add_post_to_threads (slack_msg ''15'' ''10'' ''re'') (new_post ''bob'' ''general'' ''re'' 15000)
        demo_channel False demo_ctx1 = Some c' \<and>
      t \<notin> tc_timestamps demo_ctx1 \<and> tc_timestamps c' = insert t (tc_timestamps demo_ctx1) \<and>
      tc_threads c' = tc_threads demo_ctx1 \<and> tc_log c' = tc_log demo_ctx1 \<and> a \<noteq> 0 \<and>
      deref (w_heap (tc_world c')) 0 = Some (demo_root\<lparr>post_replies := post_replies demo_root @ [a]\<rparr>) \<and>
      deref (w_heap (tc_world c')) a
        = Some ((mark_direct demo_channel (new_post ''bob'' ''general'' ''re'' 15000))\<lparr>post_create_at := t\<rparr>))"
proof -
  have u: "tc_timestamps demo_ctx1 \<noteq> UNIV"
    using ledger_not_full [of "{10000 :: int64}"] by (simp add: demo_ctx1_def)
  have a: "sp_thread_ts (slack_msg ''15'' ''10'' ''re'') \<noteq> []"
    and b: "sp_thread_ts (slack_msg ''15'' ''10'' ''re'') \<noteq> sp_timestamp (slack_msg ''15'' ''10'' ''re'')"
    by (simp_all add: slack_msg_def)
  have l: "lookup_thread (tc_world demo_ctx1) (tc_threads demo_ctx1) (sp_thread_ts (slack_msg ''15'' ''10'' ''re''))
     = (Some 0, tc_world demo_ctx1, tc_threads demo_ctx1)"
    by (simp add: demo_ctx1_def slack_msg_def)
  have d: "deref (w_heap (tc_world demo_ctx1)) 0 = Some demo_root"
    by (simp add: demo_ctx1_def deref_def)
  have wf: "False \<or> post_user demo_root \<noteq> workflow_user_name"
    by (simp add: demo_root_def new_post_def workflow_user_name_def)
  show ?thesis using u a b l d wf reply_appended_to_root [OF u a b l d wf] by blast
qed

text \<open>
  Claim C1: \<open>AddPostToThreads\<close> preserves the thread invariant. The store is
  well formed, every stored root has only leaf replies that are not roots themselves,
  and every JSON thread in the Redis backend is one level deep. The channel's ledger
  gains exactly one timestamp it did not hold.
\<close>

theorem add_post_preserves_inv:
  assumes inv: "threads_inv c" and leaf: "post_replies post = []"
    and res: "add_post_to_threads orig post channel imp c = Some c'"
  shows "threads_inv c' \<and> (\<exists>t. t \<notin> tc_timestamps c \<and> tc_timestamps c' = insert t (tc_timestamps c))"
  using add_post_inv [OF inv leaf res] add_post_ledger [OF res] by blast

theorem add_post_preserves_inv_witness:
  "threads_inv demo_ctx \<and> post_replies (new_post ''alice'' ''general'' ''hi'' 10000) = [] \<and>
   add_post_to_threads (slack_msg ''10'' [] ''hi'') (new_post ''alice'' ''general'' ''hi'' 10000)
     demo_channel False demo_ctx = Some demo_ctx1 \<and> threads_inv demo_ctx1 \<and>
   (\<exists>t. t \<notin> tc_timestamps demo_ctx \<and> tc_timestamps demo_ctx1 = insert t (tc_timestamps demo_ctx))"
proof -
  have leaf: "post_replies (new_post ''alice'' ''general'' ''hi'' 10000) = []" by (simp add: new_post_def)
  from add_post_preserves_inv [OF threads_inv_demo(1) leaf demo_step1] leaf threads_inv_demo(1) demo_step1
  show ?thesis by simp
qed

end
