(* ===== verification/Entities.thy ===== *)
theory Entities
  imports Data
begin

text \<open>
  The entity transformers of src/unnamed/part_001: \<open>IntermediateChannel.Sanitise\<close>
  (lines 38--73), \<open>IntermediateUser.Sanitise\<close> (88--108), \<open>TransformUsers\<close> (138--164),
  \<open>filterValidMembers\<close> (166--175), \<open>getOriginalName\<close> (177--183),
  \<open>TransformChannels\<close> (185--215), \<open>PopulateUserMemberships\<close> (217--240),
  \<open>PopulateChannelMemberships\<close> (242--265) and \<open>TransformAllChannels\<close> (267--287).
  Each one changes \<open>t.Intermediate\<close>, so each is a function on the \<open>intermediate\<close>
  record or on the values it holds. Their warnings go to the logger and change no state,
  so they are left out.
\<close>

subsection \<open>String helpers\<close>

text \<open>
  \<open>strings.Trim(s, cutset)\<close>. The cutset \<open>"_-"\<close> is ASCII, and an ASCII byte is never
  part of a multi-byte UTF-8 sequence, so trimming bytes trims runes.
\<close>

definition trim_chars :: "char list \<Rightarrow> string \<Rightarrow> string" where
  "trim_chars cs s = rev (dropWhile (\<lambda>c. c \<in> set cs) (rev (dropWhile (\<lambda>c. c \<in> set cs) s)))"

text \<open>
  \<open>strings.ToLower\<close> on the ASCII letters. Go also lowers non-ASCII letters. The only
  argument is a channel's \<open>Id\<close>, which \<open>TransformChannels\<close> leaves empty.
\<close>

definition lower_ascii :: "string \<Rightarrow> string" where
  "lower_ascii s = map (\<lambda>c. if CHR ''A'' \<le> c \<and> c \<le> CHR ''Z'' then char_of (of_char c + (32::nat)) else c) s"

subsection \<open>Sanitising channels and users\<close>

definition sanitise_channel :: "ext_env \<Rightarrow> ichannel \<Rightarrow> ichannel" where
  "sanitise_channel env c =
     (if ch_type c = ChannelTypeDirect then c
      else
        (let n1 = trim_chars ''_-'' (ch_name c);
             n2 = (if length n1 > channel_name_max_length then take channel_name_max_length n1 else n1);
             n3 = (if length n2 = 1 then ''slack-channel-'' @ n2 else n2);
             n4 = (if \<not> env_valid_channel_chars env n3 then lower_ascii (ch_id c) else n3);
             d1 = trim_chars ''_-'' (ch_display_name c);
             d2 = (if rune_count d1 > channel_display_name_max_runes
                   then take_runes channel_display_name_max_runes d1 else d1);
             d3 = (if length d2 = 1 then ''slack-channel-'' @ d2 else d2);
             pu = (if rune_count (ch_purpose c) > channel_purpose_max_runes
                   then take_runes channel_purpose_max_runes (ch_purpose c) else ch_purpose c);
             hd = (if rune_count (ch_header c) > channel_header_max_runes
                   then take_runes channel_header_max_runes (ch_header c) else ch_header c)
         in c\<lparr>ch_name := n4, ch_display_name := d3, ch_purpose := pu, ch_header := hd\<rparr>))"

text \<open>
  \<open>IntermediateUser.Sanitise\<close> tests the rune count of \<open>Position\<close>, \<open>FirstName\<close> and
  \<open>LastName\<close> but cuts them with a byte slice \<open>s[0:max]\<close>, hence \<open>take\<close>.
\<close>

definition sanitise_user :: "iuser \<Rightarrow> iuser" where
  "sanitise_user u =
     (let e = (if u_email u = [] then u_username u @ ''@example.com'' else u_email u);
          p = (if rune_count (u_position u) > user_position_max_runes
               then take user_position_max_runes (u_position u) else u_position u);
          f = (if rune_count (u_first_name u) > user_first_name_max_runes
               then take user_first_name_max_runes (u_first_name u) else u_first_name u);
          l = (if rune_count (u_last_name u) > user_last_name_max_runes
               then take user_last_name_max_runes (u_last_name u) else u_last_name u)
      in u\<lparr>u_email := e, u_position := p, u_first_name := f, u_last_name := l\<rparr>)"

subsection \<open>Users\<close>

text \<open>Lines 143--158: one Slack user as an \<open>IntermediateUser\<close>, sanitised.\<close>

definition import_user :: "bool \<Rightarrow> string \<Rightarrow> slack_user \<Rightarrow> iuser" where
  "import_user auth_data_as_email auth_service su =
     (let u = sanitise_user \<lparr>u_id = su_id su, u_username = su_username su,
                u_first_name = su_first_name su, u_last_name = su_last_name su,
                u_position = su_title su, u_email = su_email su, u_password = [],
                u_memberships = [], u_auth_data = None, u_auth_service = []\<rparr>
      in if auth_data_as_email \<and> auth_service \<noteq> []
         then u\<lparr>u_auth_data := Some (u_email u), u_auth_service := auth_service\<rparr> else u)"

definition transform_users ::
  "slack_user list \<Rightarrow> bool \<Rightarrow> string \<Rightarrow> intermediate \<Rightarrow> intermediate" where
  "transform_users users auth_data_as_email auth_service im =
     im\<lparr>i_users := fold (\<lambda>su m. let u = import_user auth_data_as_email auth_service su
                                     in m(u_id u \<mapsto> u)) users Map.empty\<rparr>"

subsection \<open>Channels\<close>

definition filter_valid_members :: "string list \<Rightarrow> (string \<rightharpoonup> iuser) \<Rightarrow> string list" where
  "filter_valid_members members users = filter (\<lambda>m. users m \<noteq> None) members"

definition get_original_name :: "slack_channel \<Rightarrow> string" where
  "get_original_name c = (if sch_name c = [] then sch_id c else sch_name c)"

text \<open>
  Lines 185--215. The loop variable is a copy, so renaming a large group channel to its
  purpose also changes what \<open>getOriginalName\<close> returns. The new channel's \<open>Id\<close> and
  \<open>Topic\<close> are not set, so they are empty.
\<close>

fun transform_channels :: "ext_env \<Rightarrow> (string \<rightharpoonup> iuser) \<Rightarrow> slack_channel list \<Rightarrow> ichannel list" where
  "transform_channels env users [] = []"
| "transform_channels env users (c # cs) =
     (let valid = filter_valid_members (sch_members c) users
      in if (sch_type c = ChannelTypeDirect \<or> sch_type c = ChannelTypeGroup) \<and> length valid \<le> 1
         then transform_channels env users cs
         else
           (let c1 = (if sch_type c = ChannelTypeGroup \<and> length valid > channel_group_max_users
                      then c\<lparr>sch_name := sch_purpose c, sch_type := ChannelTypePrivate\<rparr> else c);
                nc = \<lparr>ch_id = [], ch_original_name = get_original_name c1,
                      ch_name = env_convert_channel_name env (sch_name c1) (sch_id c1),
                      ch_display_name = get_original_name c1, ch_members = valid,
                      ch_members_usernames = [], ch_purpose = sch_purpose c1,
                      ch_header = sch_topic c1, ch_topic = [], ch_type = sch_type c1\<rparr>
            in sanitise_channel env nc # transform_channels env users cs))"

definition user_memberships :: "intermediate \<Rightarrow> string \<Rightarrow> string list" where
  "user_memberships im uid =
     map ch_name (filter (\<lambda>c. uid \<in> set (ch_members c)) (i_public im)) @
     map ch_name (filter (\<lambda>c. uid \<in> set (ch_members c)) (i_private im))"

definition populate_user_memberships :: "intermediate \<Rightarrow> intermediate" where
  "populate_user_memberships im =
     im\<lparr>i_users := (\<lambda>uid. map_option (\<lambda>u. u\<lparr>u_memberships := user_memberships im uid\<rparr>)
                                       (i_users im uid))\<rparr>"

definition members_usernames :: "(string \<rightharpoonup> iuser) \<Rightarrow> string list \<Rightarrow> string list" where
  "members_usernames users members = List.map_filter (\<lambda>m. map_option u_username (users m)) members"

definition populate_channel_memberships :: "intermediate \<Rightarrow> intermediate" where
  "populate_channel_memberships im =
     (let upd = (\<lambda>c. c\<lparr>ch_members_usernames := members_usernames (i_users im) (ch_members c)\<rparr>)
      in im\<lparr>i_group := map upd (i_group im), i_direct := map upd (i_direct im)\<rparr>)"

text \<open>\<open>SplitChannelsByMemberSize\<close> is a partition of the group channels by \<open>env_big_group\<close>.\<close>

definition transform_all_channels :: "ext_env \<Rightarrow> slack_export \<Rightarrow> intermediate \<Rightarrow> intermediate" where
  "transform_all_channels env export im =
     (let users = i_users im;
          big = filter (env_big_group env) (se_group export);
          regular = filter (\<lambda>c. \<not> env_big_group env c) (se_group export)
      in im\<lparr>i_public := transform_channels env users (se_public export),
               i_private := transform_channels env users (se_private export) @
                            transform_channels env users big,
               i_group := transform_channels env users regular,
               i_direct := transform_channels env users (se_direct export)\<rparr>)"

subsection \<open>Example inputs\<close>

definition e_acute :: string where "e_acute = [CHR 0xC3, CHR 0xA9]"

text \<open>An environment for the examples: Slack timestamps of whole seconds, ASCII channel names.\<close>

definition demo_ts :: "string \<Rightarrow> int64" where
  "demo_ts s = word_of_nat (foldl (\<lambda>n c. 10 * n + (of_char c - 48)) 0 s * 1000)"

definition demo_env :: ext_env where
  "demo_env = \<lparr>env_convert_ts = demo_ts, env_convert_channel_name = (\<lambda>name cid. name),
     env_valid_channel_chars = (\<lambda>s. s \<noteq> [] \<and> list_all (\<lambda>c. c \<in> set ''abcdefghijklmnopqrstuvwxyz0123456789-_'') s),
     env_big_group = (\<lambda>c. length (sch_members c) > channel_group_max_users),
     env_props_runes = (\<lambda>atts. 20 + length (concat atts)),
     env_file_path = (\<lambda>dir base. dir @ ''/'' @ base),
     env_attach_io = (\<lambda>fid dest. None), env_new_id = ''id0'', env_redis_connect = (\<lambda>cfg. True)\<rparr>"

definition demo_user :: "string \<Rightarrow> string \<Rightarrow> iuser" where
  "demo_user uid name = \<lparr>u_id = uid, u_username = name, u_first_name = [], u_last_name = [],
     u_position = [], u_email = name @ ''@x'', u_password = [], u_memberships = [],
     u_auth_data = None, u_auth_service = []\<rparr>"

definition demo_users :: "string \<rightharpoonup> iuser" where
  "demo_users = [''U1'' \<mapsto> demo_user ''U1'' ''alice'', ''U2'' \<mapsto> demo_user ''U2'' ''bob'']"

definition demo_slack_channel :: "string \<Rightarrow> channel_type \<Rightarrow> string list \<Rightarrow> slack_channel" where
  "demo_slack_channel name ty members = \<lparr>sch_id = ''C'' @ name, sch_name = name, sch_members = members,
     sch_purpose = [], sch_topic = [], sch_type = ty\<rparr>"

definition demo_im :: intermediate where
  "demo_im = \<lparr>i_public = [], i_private = [], i_group = [], i_direct = [], i_users = demo_users, i_posts = []\<rparr>"

definition eve_slack :: slack_user where
  "eve_slack = \<lparr>su_id = ''U1'', su_username = ''eve'', su_first_name = concat (replicate 65 e_acute),
     su_last_name = [], su_title = [], su_email = []\<rparr>"

definition demo_dm_export :: slack_export where
  "demo_dm_export = \<lparr>se_users = [], se_public = [], se_private = [], se_group = [],
     se_direct = [demo_slack_channel ''D1'' ChannelTypeDirect [''U1'', ''U2'', ''U9'']], se_posts = [],
     se_uploads = Map.empty\<rparr>"

definition demo_dm_channels :: intermediate where
  "demo_dm_channels = populate_channel_memberships (populate_user_memberships
     (transform_all_channels demo_env demo_dm_export demo_im))"

subsection \<open>Lemmas\<close>

lemmas limit_defs = post_props_max_runes_def channel_group_max_users_def channel_name_max_length_def
  channel_display_name_max_runes_def channel_purpose_max_runes_def channel_header_max_runes_def
  user_position_max_runes_def user_first_name_max_runes_def user_last_name_max_runes_def

lemma trim_chars_length: "length (trim_chars cs s) \<le> length s"
  by (simp add: trim_chars_def) (metis length_dropWhile_le length_rev order_trans)

lemma rune_count_take_le: "rune_count (take n s) \<le> n"
  using rune_count_le_length [of "take n s"] by simp

lemma cap_bytes:
  "rune_count (if rune_count s > n then take n s else s) \<le> n"
  "(if rune_count s > n then take n s else s) = take (length (if rune_count s > n then take n s else s)) s"
  by (simp_all add: rune_count_take_le) (simp add: min_def)

lemma import_user_fields:
  "u_position (import_user a s su) = (if rune_count (su_title su) > user_position_max_runes
     then take user_position_max_runes (su_title su) else su_title su)"
  "u_first_name (import_user a s su) = (if rune_count (su_first_name su) > user_first_name_max_runes
     then take user_first_name_max_runes (su_first_name su) else su_first_name su)"
  "u_last_name (import_user a s su) = (if rune_count (su_last_name su) > user_last_name_max_runes
     then take user_last_name_max_runes (su_last_name su) else su_last_name su)"
  "u_email (import_user a s su) \<noteq> []"
  by (simp_all add: import_user_def sanitise_user_def Let_def)

lemma length_lower_ascii [simp]: "length (lower_ascii s) = length s"
  by (simp add: lower_ascii_def)

lemma lower_ascii_Nil [simp]: "lower_ascii [] = []"
  by (simp add: lower_ascii_def)

lemma sanitise_channel_fields [simp]:
  "ch_members (sanitise_channel env c) = ch_members c"
  "ch_type (sanitise_channel env c) = ch_type c"
  "ch_id (sanitise_channel env c) = ch_id c"
  "ch_original_name (sanitise_channel env c) = ch_original_name c"
  "ch_members_usernames (sanitise_channel env c) = ch_members_usernames c"
  by (simp_all add: sanitise_channel_def Let_def)

lemma len_if_lower: "length x \<le> m \<Longrightarrow> length (if P then lower_ascii i else x) \<le> max m (length i)"
  by (simp add: le_max_iff_disj)

lemma cap_runes: "rune_count (if rune_count s > n then take_runes n s else s) \<le> n"
  by (simp add: rune_count_take_runes)

lemma sanitise_channel_name_cases:
  "ch_type c \<noteq> ChannelTypeDirect \<Longrightarrow>
     ch_name (sanitise_channel env c) = lower_ascii (ch_id c) \<or>
     env_valid_channel_chars env (ch_name (sanitise_channel env c))"
  by (simp add: sanitise_channel_def Let_def)

lemma transform_channels_set:
  "c' \<in> set (transform_channels env users cs) \<Longrightarrow>
     \<exists>c\<in>set cs. \<exists>c1. c' = sanitise_channel env c1 \<and> ch_id c1 = [] \<and>
        ch_members c1 = filter_valid_members (sch_members c) users \<and>
        ((ch_type c1 = ChannelTypeDirect \<or> ch_type c1 = ChannelTypeGroup) \<longrightarrow> 2 \<le> length (ch_members c1)) \<and>
        (ch_type c1 = ChannelTypeGroup \<longrightarrow> length (ch_members c1) \<le> channel_group_max_users)"
proof (induction env users cs rule: transform_channels.induct)
  case (1 env users)
  then show ?case by simp
next
  case (2 env users c cs)
  then show ?case
    by (auto simp: Let_def split: if_splits)
qed

lemma fold_map_upd_last:
  "fold (\<lambda>x m. m(key x \<mapsto> f x)) xs m0 k =
     (if \<exists>x\<in>set xs. key x = k then Some (f (last (filter (\<lambda>x. key x = k) xs))) else m0 k)"
  by (induction xs rule: rev_induct) auto

lemma import_user_id [simp]: "u_id (import_user a s su) = su_id su"
  by (simp add: import_user_def sanitise_user_def Let_def)

lemma rune_count_e_acutes: "rune_count (concat (replicate n e_acute)) = n"
  by (induction n) (simp_all add: rune_count_append e_acute_def utf8_cont_def)

lemma take_e_acutes: "take (2 * k) (concat (replicate (k + m) e_acute)) = concat (replicate k e_acute)"
  by (induction k) (simp_all add: e_acute_def)

lemma members_usernames_length:
  "set ms \<subseteq> dom users \<Longrightarrow> length (members_usernames users ms) = length ms"
  by (induction ms) (auto simp: members_usernames_def List.map_filter_simps)

lemma populate_user_memberships_users [simp]:
  "dom (i_users (populate_user_memberships im)) = dom (i_users im)"
  "i_direct (populate_user_memberships im) = i_direct im"
  "i_group (populate_user_memberships im) = i_group im"
  by (auto simp: populate_user_memberships_def)

lemma populate_user_memberships_usernames:
  "map_option u_username (i_users (populate_user_memberships im) k) = map_option u_username (i_users im k)"
  by (cases "i_users im k") (simp_all add: populate_user_memberships_def)

lemma members_usernames_populate:
  "members_usernames (i_users (populate_user_memberships im)) ms = members_usernames (i_users im) ms"
  by (simp add: members_usernames_def populate_user_memberships_usernames)

lemma transform_channels_mem:
  assumes "c0 \<in> set (transform_channels env users cs)"
  shows "set (ch_members c0) \<subseteq> dom users \<and>
         ((ch_type c0 = ChannelTypeDirect \<or> ch_type c0 = ChannelTypeGroup) \<longrightarrow> 2 \<le> length (ch_members c0))"
proof -
  from transform_channels_set [OF assms] obtain c :: slack_channel and c1 :: ichannel where
    "c0 = sanitise_channel env c1" "ch_members c1 = filter_valid_members (sch_members c) users"
    "(ch_type c1 = ChannelTypeDirect \<or> ch_type c1 = ChannelTypeGroup) \<longrightarrow> 2 \<le> length (ch_members c1)"
    by (elim bexE exE conjE) blast
  then show ?thesis by (auto simp: filter_valid_members_def)
qed

lemma demo_dm_channels_direct:
  "i_direct demo_dm_channels = [\<lparr>ch_id = [], ch_original_name = ''D1'', ch_name = ''D1'',
     ch_display_name = ''D1'', ch_members = [''U1'', ''U2''], ch_members_usernames = [''alice'', ''bob''],
     ch_purpose = [], ch_header = [], ch_topic = [], ch_type = ChannelTypeDirect\<rparr>]"
  by (simp add: demo_dm_channels_def populate_channel_memberships_def populate_user_memberships_def
      transform_all_channels_def demo_dm_export_def demo_im_def demo_slack_channel_def demo_env_def
      filter_valid_members_def demo_users_def get_original_name_def sanitise_channel_def
      members_usernames_def List.map_filter_simps demo_user_def)

subsection \<open>Properties of the entity transformers\<close>

text \<open>
  Claim C31: \<open>IntermediateChannel.Sanitise\<close> bounds every field it cuts for a channel
  that is not direct. The name has at most 64 bytes, unless it falls back to the
  channel's id. The display name has at most 64 runes, the purpose 250 and the header
  1024.
\<close>

theorem sanitise_channel_bounds:
  assumes "ch_type c \<noteq> ChannelTypeDirect"
  shows "length (ch_name (sanitise_channel env c)) \<le> max channel_name_max_length (length (ch_id c)) \<and>
         rune_count (ch_display_name (sanitise_channel env c)) \<le> channel_display_name_max_runes \<and>
         rune_count (ch_purpose (sanitise_channel env c)) \<le> channel_purpose_max_runes \<and>
         rune_count (ch_header (sanitise_channel env c)) \<le> channel_header_max_runes"
proof -
  let ?n1 = "trim_chars ''_-'' (ch_name c)"
  let ?n2 = "if length ?n1 > channel_name_max_length then take channel_name_max_length ?n1 else ?n1"
  let ?n3 = "if length ?n2 = 1 then ''slack-channel-'' @ ?n2 else ?n2"
  let ?d1 = "trim_chars ''_-'' (ch_display_name c)"
  let ?d2 = "if rune_count ?d1 > channel_display_name_max_runes
             then take_runes channel_display_name_max_runes ?d1 else ?d1"
  have n2: "length ?n2 \<le> channel_name_max_length" by simp
  have n3: "length ?n3 \<le> channel_name_max_length"
    using n2 by (simp add: channel_name_max_length_def)
  have d2: "rune_count ?d2 \<le> channel_display_name_max_runes" by (rule cap_runes)
  have d3: "rune_count (if length ?d2 = 1 then ''slack-channel-'' @ ?d2 else ?d2) \<le> channel_display_name_max_runes"
    using d2 rune_count_le_length [of ?d2]
    by (simp add: rune_count_append channel_display_name_max_runes_def utf8_cont_def)
  have name: "ch_name (sanitise_channel env c) =
      (if \<not> env_valid_channel_chars env ?n3 then lower_ascii (ch_id c) else ?n3)"
    using assms by (simp add: sanitise_channel_def Let_def)
  have disp: "ch_display_name (sanitise_channel env c) =
      (if length ?d2 = 1 then ''slack-channel-'' @ ?d2 else ?d2)"
    using assms by (simp add: sanitise_channel_def Let_def)
  have rest: "ch_purpose (sanitise_channel env c) = (if rune_count (ch_purpose c) > channel_purpose_max_runes
                   then take_runes channel_purpose_max_runes (ch_purpose c) else ch_purpose c)"
    "ch_header (sanitise_channel env c) = (if rune_count (ch_header c) > channel_header_max_runes
                   then take_runes channel_header_max_runes (ch_header c) else ch_header c)"
    using assms by (simp_all add: sanitise_channel_def Let_def)
  have "length (ch_name (sanitise_channel env c)) \<le> max channel_name_max_length (length (ch_id c))"
    unfolding name by (rule len_if_lower [OF n3])
  then show ?thesis
    unfolding disp rest using d3 cap_runes by blast
qed


text \<open>
  Claim C27: every channel that \<open>TransformChannels\<close> produces, unless direct, has a
  name that passes \<open>isValidChannelNameCharacters\<close>, or the empty name. The fallback
  \<open>strings.ToLower(c.Id)\<close> of \<open>Sanitise\<close> reads an \<open>Id\<close> that
  \<open>TransformChannels\<close> never sets.
\<close>

theorem transform_channels_name_valid_or_empty:
  "\<forall>c'\<in>set (transform_channels env users cs).
     ch_type c' = ChannelTypeDirect \<or> ch_name c' = [] \<or> env_valid_channel_chars env (ch_name c')"
proof
  fix c' assume "c' \<in> set (transform_channels env users cs)"
  from transform_channels_set [OF this]
  obtain c1 where c': "c' = sanitise_channel env c1" and id: "ch_id c1 = []" by blast
  then show "ch_type c' = ChannelTypeDirect \<or> ch_name c' = [] \<or> env_valid_channel_chars env (ch_name c')"
    using sanitise_channel_name_cases [of c1 env] by auto
qed

text \<open>
  Claim C29: every channel that \<open>TransformChannels\<close> produces has only members that are
  imported users. A direct or group channel has at least two of them, and a group
  channel at most \<open>ChannelGroupMaxUsers\<close>.
\<close>

theorem transform_channels_members:
  "\<forall>c'\<in>set (transform_channels env users cs).
     set (ch_members c') \<subseteq> dom users \<and>
     ((ch_type c' = ChannelTypeDirect \<or> ch_type c' = ChannelTypeGroup) \<longrightarrow> 2 \<le> length (ch_members c')) \<and>
     (ch_type c' = ChannelTypeGroup \<longrightarrow> length (ch_members c') \<le> channel_group_max_users)"
proof
  fix c' assume "c' \<in> set (transform_channels env users cs)"
  from transform_channels_set [OF this] obtain c :: slack_channel and c1 :: ichannel where c': "c' = sanitise_channel env c1"
    and m: "ch_members c1 = filter_valid_members (sch_members c) users"
    and dg: "(ch_type c1 = ChannelTypeDirect \<or> ch_type c1 = ChannelTypeGroup) \<longrightarrow> 2 \<le> length (ch_members c1)"
    and g: "ch_type c1 = ChannelTypeGroup \<longrightarrow> length (ch_members c1) \<le> channel_group_max_users"
    by (elim bexE exE conjE) blast
  have "set (ch_members c1) \<subseteq> dom users" by (auto simp: m filter_valid_members_def)
  with dg g show "set (ch_members c') \<subseteq> dom users \<and>
     ((ch_type c' = ChannelTypeDirect \<or> ch_type c' = ChannelTypeGroup) \<longrightarrow> 2 \<le> length (ch_members c')) \<and>
     (ch_type c' = ChannelTypeGroup \<longrightarrow> length (ch_members c') \<le> channel_group_max_users)"
    by (simp add: c')
qed

text \<open>
  After \<open>TransformUsers\<close>, the users map holds exactly the ids of the Slack
  users. Each id maps to the sanitised import of the last Slack user with that id.
\<close>

theorem transform_users_last_wins:
  "i_users (transform_users us a s im) k =
     (if \<exists>su\<in>set us. su_id su = k
      then Some (import_user a s (last (filter (\<lambda>su. su_id su = k) us))) else None)"
  using fold_map_upd_last [of "\<lambda>su. u_id (import_user a s su)" "import_user a s" us Map.empty k]
  by (simp add: transform_users_def Let_def)

text \<open>
  Claim C28: every user \<open>TransformUsers\<close> puts in the users map is sanitised: it is
  stored under its own id, it has an email (the placeholder when Slack gives none),
  its position, first and last name are within their rune limits, and each of them is a
  prefix of the corresponding field of a Slack user with that id.
\<close>

theorem transform_users_sanitised:
  assumes "i_users (transform_users us a s im) k = Some u"
  shows "u_id u = k \<and> u_email u \<noteq> [] \<and>
    rune_count (u_position u) \<le> user_position_max_runes \<and>
    rune_count (u_first_name u) \<le> user_first_name_max_runes \<and>
    rune_count (u_last_name u) \<le> user_last_name_max_runes \<and>
    (\<exists>su. su \<in> set us \<and> su_id su = k \<and>
       u_position u = take (length (u_position u)) (su_title su) \<and>
       u_first_name u = take (length (u_first_name u)) (su_first_name su) \<and>
       u_last_name u = take (length (u_last_name u)) (su_last_name su))"
proof -
  let ?su = "last (filter (\<lambda>su. su_id su = k) us)"
  from assms have ex: "\<exists>su\<in>set us. su_id su = k" and u: "u = import_user a s ?su"
    by (simp_all add: transform_users_last_wins split: if_splits)
  from ex have "filter (\<lambda>su. su_id su = k) us \<noteq> []" by (simp add: filter_empty_conv)
  then have "?su \<in> set (filter (\<lambda>su. su_id su = k) us)" by (rule last_in_set)
  then have su: "?su \<in> set us" "su_id ?su = k" by simp_all
  have p: "u_position u = (if rune_count (su_title ?su) > user_position_max_runes
     then take user_position_max_runes (su_title ?su) else su_title ?su)"
    and f: "u_first_name u = (if rune_count (su_first_name ?su) > user_first_name_max_runes
     then take user_first_name_max_runes (su_first_name ?su) else su_first_name ?su)"
    and l: "u_last_name u = (if rune_count (su_last_name ?su) > user_last_name_max_runes
     then take user_last_name_max_runes (su_last_name ?su) else su_last_name ?su)"
    unfolding u by (rule import_user_fields)+
  have "u_position u = take (length (u_position u)) (su_title ?su) \<and>
      u_first_name u = take (length (u_first_name u)) (su_first_name ?su) \<and>
      u_last_name u = take (length (u_last_name u)) (su_last_name ?su)"
    unfolding p f l by (intro conjI cap_bytes(2))
  with su have pre: "\<exists>su. su \<in> set us \<and> su_id su = k \<and>
       u_position u = take (length (u_position u)) (su_title su) \<and>
       u_first_name u = take (length (u_first_name u)) (su_first_name su) \<and>
       u_last_name u = take (length (u_last_name u)) (su_last_name su)" by blast
  have "rune_count (u_position u) \<le> user_position_max_runes \<and>
    rune_count (u_first_name u) \<le> user_first_name_max_runes \<and>
    rune_count (u_last_name u) \<le> user_last_name_max_runes"
    unfolding p f l by (intro conjI cap_bytes(1))
  moreover have "u_id u = k" "u_email u \<noteq> []" using su unfolding u by (simp_all add: import_user_fields)
  ultimately show ?thesis using pre by blast
qed


text \<open>
  After \<open>TransformAllChannels\<close> and both membership passes, each group and
  direct channel's \<open>MembersUsernames\<close> is the username of each of its members, in
  order. A direct or group channel has at least two.
\<close>

theorem dm_channels_carry_usernames:
  "\<forall>ch\<in>set (i_group (populate_channel_memberships (populate_user_memberships (transform_all_channels env export im))) @
            i_direct (populate_channel_memberships (populate_user_memberships (transform_all_channels env export im)))).
     ch_members_usernames ch = members_usernames (i_users im) (ch_members ch) \<and>
     length (ch_members_usernames ch) = length (ch_members ch) \<and>
     ((ch_type ch = ChannelTypeDirect \<or> ch_type ch = ChannelTypeGroup) \<longrightarrow> 2 \<le> length (ch_members_usernames ch))"
proof
  let ?im1 = "transform_all_channels env export im"
  fix ch
  assume "ch \<in> set (i_group (populate_channel_memberships (populate_user_memberships ?im1)) @
                     i_direct (populate_channel_memberships (populate_user_memberships ?im1)))"
  then obtain c0 cs where c0: "c0 \<in> set (transform_channels env (i_users im) cs)"
    and ch: "ch = c0\<lparr>ch_members_usernames := members_usernames (i_users im) (ch_members c0)\<rparr>"
    by (auto simp: populate_channel_memberships_def transform_all_channels_def Let_def members_usernames_populate)
  from transform_channels_mem [OF c0] members_usernames_length
  show "ch_members_usernames ch = members_usernames (i_users im) (ch_members ch) \<and>
     length (ch_members_usernames ch) = length (ch_members ch) \<and>
     ((ch_type ch = ChannelTypeDirect \<or> ch_type ch = ChannelTypeGroup) \<longrightarrow> 2 \<le> length (ch_members_usernames ch))"
    by (simp add: ch)
qed

text \<open>
  Claim C30: \<open>TransformChannels\<close> turns a group channel with more than
  \<open>ChannelGroupMaxUsers\<close> valid members into a private channel. Its original name
  becomes its purpose (or its id, when the purpose is empty), not its Slack name.
\<close>

theorem big_group_becomes_private:
  assumes "sch_type c = ChannelTypeGroup"
    and "channel_group_max_users < length (filter_valid_members (sch_members c) users)"
  shows "map (\<lambda>c'. (ch_original_name c', ch_type c')) (transform_channels env users [c]) =
           [(if sch_purpose c = [] then sch_id c else sch_purpose c, ChannelTypePrivate)]"
  using assms by (simp add: Let_def get_original_name_def channel_group_max_users_def)

theorem transform_users_sanitised_witness:
  "i_users (transform_users [eve_slack] False [] demo_im) ''U1'' = Some (import_user False [] eve_slack) \<and>
   rune_count (u_first_name (import_user False [] eve_slack)) \<le> user_first_name_max_runes \<and>
   rune_count (su_first_name eve_slack) > user_first_name_max_runes"
proof -
  have m: "i_users (transform_users [eve_slack] False [] demo_im) ''U1'' = Some (import_user False [] eve_slack)"
    by (simp add: transform_users_def eve_slack_def)
  have "rune_count (su_first_name eve_slack) > user_first_name_max_runes"
    by (simp add: eve_slack_def rune_count_e_acutes user_first_name_max_runes_def)
  with transform_users_sanitised [OF m] m show ?thesis by simp
qed


theorem sanitise_channel_bounds_witness:
  "ch_type \<lparr>ch_id = [], ch_original_name = ''news'', ch_name = ''_news_'', ch_display_name = ''News'',
      ch_members = [], ch_members_usernames = [], ch_purpose = [], ch_header = [], ch_topic = [],
      ch_type = ChannelTypeOpen\<rparr> \<noteq> ChannelTypeDirect \<and>
   length (ch_name (sanitise_channel demo_env \<lparr>ch_id = [], ch_original_name = ''news'', ch_name = ''_news_'',
      ch_display_name = ''News'', ch_members = [], ch_members_usernames = [], ch_purpose = [], ch_header = [],
      ch_topic = [], ch_type = ChannelTypeOpen\<rparr>)) \<le> max channel_name_max_length 0"
proof -
  let ?c = "\<lparr>ch_id = [], ch_original_name = ''news'', ch_name = ''_news_'', ch_display_name = ''News'',
      ch_members = [], ch_members_usernames = [], ch_purpose = [], ch_header = [], ch_topic = [],
      ch_type = ChannelTypeOpen\<rparr>"
  have d: "ch_type ?c \<noteq> ChannelTypeDirect" by simp
  from sanitise_channel_bounds [OF d, of demo_env] d show ?thesis by simp
qed

theorem transform_channels_name_valid_or_empty_witness:
  "transform_channels demo_env demo_users [demo_slack_channel (''caf'' @ e_acute) ChannelTypeOpen [''U1'']] \<noteq> [] \<and>
   (ch_type (hd (transform_channels demo_env demo_users [demo_slack_channel (''caf'' @ e_acute) ChannelTypeOpen [''U1'']]))
      = ChannelTypeDirect \<or>
    ch_name (hd (transform_channels demo_env demo_users [demo_slack_channel (''caf'' @ e_acute) ChannelTypeOpen [''U1'']])) = [] \<or>
    env_valid_channel_chars demo_env
      (ch_name (hd (transform_channels demo_env demo_users [demo_slack_channel (''caf'' @ e_acute) ChannelTypeOpen [''U1'']])))) \<and>
   ch_name (hd (transform_channels demo_env demo_users [demo_slack_channel (''caf'' @ e_acute) ChannelTypeOpen [''U1'']])) = []"
proof -
  let ?T = "transform_channels demo_env demo_users [demo_slack_channel (''caf'' @ e_acute) ChannelTypeOpen [''U1'']]"
  have ne: "?T \<noteq> []" and nm: "ch_name (hd ?T) = []"
    by (simp_all add: demo_env_def demo_users_def demo_slack_channel_def filter_valid_members_def
        get_original_name_def sanitise_channel_def Let_def trim_chars_def e_acute_def limit_defs)
  from ne have "hd ?T \<in> set ?T" by (rule hd_in_set)
  from bspec [OF transform_channels_name_valid_or_empty this]
  have "ch_type (hd ?T) = ChannelTypeDirect \<or> ch_name (hd ?T) = [] \<or> env_valid_channel_chars demo_env (ch_name (hd ?T))" .
  with ne nm show ?thesis by blast
qed

theorem transform_channels_members_witness:
  "transform_channels demo_env demo_users [demo_slack_channel ''dm'' ChannelTypeDirect [''U1'', ''U2'', ''U3'']] \<noteq> [] \<and>
   set (ch_members (hd (transform_channels demo_env demo_users [demo_slack_channel ''dm'' ChannelTypeDirect [''U1'', ''U2'', ''U3'']])))
     \<subseteq> dom demo_users \<and>
   2 \<le> length (ch_members (hd (transform_channels demo_env demo_users [demo_slack_channel ''dm'' ChannelTypeDirect [''U1'', ''U2'', ''U3'']])))"
proof -
  let ?T = "transform_channels demo_env demo_users [demo_slack_channel ''dm'' ChannelTypeDirect [''U1'', ''U2'', ''U3'']]"
  have ne: "?T \<noteq> []" and ty: "ch_type (hd ?T) = ChannelTypeDirect"
    by (simp_all add: demo_users_def demo_slack_channel_def filter_valid_members_def
        get_original_name_def sanitise_channel_def)
  from ne have "hd ?T \<in> set ?T" by (rule hd_in_set)
  from bspec [OF transform_channels_members this] ne ty show ?thesis
    by (simp del: transform_channels.simps)
qed

theorem dm_channels_carry_usernames_witness:
  "i_direct demo_dm_channels \<noteq> [] \<and>
   ch_members_usernames (hd (i_direct demo_dm_channels))
     = members_usernames (i_users demo_im) (ch_members (hd (i_direct demo_dm_channels))) \<and>
   length (ch_members_usernames (hd (i_direct demo_dm_channels))) = 2"
proof -
  have ne: "i_direct demo_dm_channels \<noteq> []" by (simp add: demo_dm_channels_direct)
  then have "hd (i_direct demo_dm_channels) \<in> set (i_group demo_dm_channels @ i_direct demo_dm_channels)" by simp
  from bspec [OF dm_channels_carry_usernames [of demo_env demo_dm_export demo_im] this [unfolded demo_dm_channels_def]]
  have "ch_members_usernames (hd (i_direct demo_dm_channels))
          = members_usernames (i_users demo_im) (ch_members (hd (i_direct demo_dm_channels)))"
    by (simp add: demo_dm_channels_def)
  with ne show ?thesis
    by (simp add: demo_dm_channels_direct members_usernames_def demo_im_def demo_users_def
        List.map_filter_simps demo_user_def)
qed

theorem big_group_becomes_private_witness:
  "sch_type ((demo_slack_channel ''G1'' ChannelTypeGroup (map (\<lambda>n. [n]) ''123456789''))\<lparr>sch_purpose := ''team''\<rparr>)
     = ChannelTypeGroup \<and>
   channel_group_max_users < length (filter_valid_members
     (sch_members ((demo_slack_channel ''G1'' ChannelTypeGroup (map (\<lambda>n. [n]) ''123456789''))\<lparr>sch_purpose := ''team''\<rparr>))
     (\<lambda>k. Some (demo_user k k))) \<and>
   map (\<lambda>c'. (ch_original_name c', ch_type c')) (transform_channels demo_env (\<lambda>k. Some (demo_user k k))
     [(demo_slack_channel ''G1'' ChannelTypeGroup (map (\<lambda>n. [n]) ''123456789''))\<lparr>sch_purpose := ''team''\<rparr>])
   = [(''team'', ChannelTypePrivate)]"
proof -
  let ?c = "(demo_slack_channel ''G1'' ChannelTypeGroup (map (\<lambda>n. [n]) ''123456789''))\<lparr>sch_purpose := ''team''\<rparr>"
  have a: "sch_type ?c = ChannelTypeGroup" by (simp add: demo_slack_channel_def)
  have b: "channel_group_max_users < length (filter_valid_members (sch_members ?c) (\<lambda>k. Some (demo_user k k)))"
    by (simp add: demo_slack_channel_def filter_valid_members_def channel_group_max_users_def)
  from big_group_becomes_private [OF a b, of demo_env] a b show ?thesis by simp
qed

end
