(* ===== verification/Pipeline.thy ===== *)
theory Pipeline
  imports Threads Entities
begin

text \<open>
  \<open>TransformPosts\<close> (src/unnamed/part_001, lines 425--661) and \<open>Transform\<close> (675--694),
  with the helpers they call: \<open>buildChannelsByOriginalNameMap\<close> (338--353),
  \<open>getNormalisedFilePath\<close> (355--358), \<open>addFileToPost\<close> (360--389),
  \<open>newChannelThreadsStorage\<close> (391--403, in ThreadStore) and
  \<open>selectOrCreateWorkflowUser\<close> (405--423). The transformer's state is
  \<open>transformer\<close>: the \<open>Intermediate\<close>, the post heap and Redis backend, the Redis
  factory and the log. The \<open>switch\<close> over the kind of a Slack post is
  \<open>transform_post\<close>, with one definition per case. A \<open>continue\<close> of the loop returns
  the channel state with only the log changed. \<open>None\<close> is a timestamp probe that never
  ends. \<open>Inl\<close> is the error that \<open>TransformPosts\<close> returns.

  \<open>sort.Slice\<close> is not stable. The model sorts with the stable \<open>sort_key\<close>, which is
  one of the orders \<open>sort.Slice\<close> may produce.
\<close>

record transformer =
  t_intermediate :: intermediate
  t_world :: world
  t_redis_factory :: "redis_config option"
  t_log :: "log_event list"

abbreviation log_warn :: "thread_ctx \<Rightarrow> log_event \<Rightarrow> thread_ctx" where
  "log_warn c e \<equiv> c\<lparr>tc_log := tc_log c @ [e]\<rparr>"

subsection \<open>Attachments\<close>

definition get_normalised_file_path :: "ext_env \<Rightarrow> slack_file \<Rightarrow> string \<Rightarrow> string" where
  "get_normalised_file_path env file attachments_dir =
     env_file_path env attachments_dir (sf_id file @ ''_'' @ sf_name file)"

definition add_file_to_post ::
  "ext_env \<Rightarrow> slack_file \<Rightarrow> uploads \<Rightarrow> ipost \<Rightarrow> string \<Rightarrow> attach_error + ipost" where
  "add_file_to_post env file uploads post attachments_dir =
     (case uploads (sf_id file) of
        None \<Rightarrow> Inl (FileNotFound (sf_id file))
      | Some _ \<Rightarrow>
          (let dest = get_normalised_file_path env file attachments_dir
           in case env_attach_io env (sf_id file) dest of
                Some e \<Rightarrow> Inl e
              | None \<Rightarrow> Inr (post\<lparr>post_attachments := post_attachments post @ [dest]\<rparr>)))"

text \<open>Lines 468--482 (and 534--548): a failed attachment is logged and skipped.\<close>

fun add_files ::
  "ext_env \<Rightarrow> uploads \<Rightarrow> string \<Rightarrow> slack_file list \<Rightarrow> ipost \<times> log_event list \<Rightarrow> ipost \<times> log_event list" where
  "add_files env uploads dir [] acc = acc"
| "add_files env uploads dir (f # fs) (post, lg) =
     add_files env uploads dir fs
       (case add_file_to_post env f uploads post dir of
          Inl e \<Rightarrow> (post, lg @ [FileAttachError e])
        | Inr post' \<Rightarrow> (post', lg))"

definition attach_files ::
  "ext_env \<Rightarrow> transform_config \<Rightarrow> uploads \<Rightarrow> slack_post \<Rightarrow> ipost \<times> log_event list \<Rightarrow> ipost \<times> log_event list" where
  "attach_files env cfg uploads sp acc =
     (if (sp_file sp \<noteq> None \<or> sp_files sp \<noteq> None) \<and> \<not> cfg_skip_attachments cfg then
        (case sp_file sp of
           Some f \<Rightarrow> add_files env uploads (cfg_attachments_dir cfg) [f] acc
         | None \<Rightarrow>
             (case sp_files sp of
                Some fs \<Rightarrow> add_files env uploads (cfg_attachments_dir cfg) fs acc
              | None \<Rightarrow> acc))
      else acc)"

text \<open>
  Lines 484--497 (and 550--563). \<open>Inl\<close> is the \<open>continue\<close> that discards the post.
\<close>

fun attach_props ::
  "ext_env \<Rightarrow> transform_config \<Rightarrow> slack_post \<Rightarrow> ipost \<times> log_event list \<Rightarrow>
   log_event list + ipost \<times> log_event list" where
  "attach_props env cfg sp (post, lg) =
     (if sp_attachments sp \<noteq> [] then
        (if env_props_runes env (sp_attachments sp) \<le> post_props_max_runes
         then Inr (post\<lparr>post_props := Some (sp_attachments sp)\<rparr>, lg)
         else if cfg_discard_invalid_props cfg then Inl (lg @ [PropsTooLargeDiscarded])
         else Inr (post, lg @ [PropsTooLargeDropped]))
      else Inr (post, lg))"

subsection \<open>The cases of the switch\<close>

text \<open>Lines 461--499: build the post, attach files and props, hand it to \<open>AddPostToThreads\<close>.\<close>

definition add_attached_post ::
  "ext_env \<Rightarrow> transform_config \<Rightarrow> uploads \<Rightarrow> ichannel \<Rightarrow> slack_post \<Rightarrow> iuser \<Rightarrow>
   thread_ctx \<Rightarrow> thread_ctx option" where
  "add_attached_post env cfg uploads channel sp author c =
     (let post = new_post (u_username author) (ch_name channel) (sp_text sp)
                   (env_convert_ts env (sp_timestamp sp))
      in case attach_props env cfg sp (attach_files env cfg uploads sp (post, tc_log c)) of
           Inl lg \<Rightarrow> Some (c\<lparr>tc_log := lg\<rparr>)
         | Inr (post', lg) \<Rightarrow>
             add_post_to_threads sp post' channel (cfg_import_workflow_messages cfg) (c\<lparr>tc_log := lg\<rparr>))"

definition handle_plain ::
  "ext_env \<Rightarrow> transform_config \<Rightarrow> uploads \<Rightarrow> ichannel \<Rightarrow> (string \<rightharpoonup> iuser) \<Rightarrow> slack_post \<Rightarrow>
   thread_ctx \<Rightarrow> thread_ctx option" where
  "handle_plain env cfg uploads channel users sp c =
     (if sp_user sp = [] then Some (log_warn c UserFieldMissing)
      else case users (sp_user sp) of
        None \<Rightarrow> Some (log_warn c (UnknownUser (sp_user sp)))
      | Some author \<Rightarrow> add_attached_post env cfg uploads channel sp author c)"

definition handle_file_comment ::
  "ext_env \<Rightarrow> transform_config \<Rightarrow> ichannel \<Rightarrow> (string \<rightharpoonup> iuser) \<Rightarrow> slack_post \<Rightarrow>
   thread_ctx \<Rightarrow> thread_ctx option" where
  "handle_file_comment env cfg channel users sp c =
     (case sp_comment sp of
        None \<Rightarrow> Some (log_warn c NoComment)
      | Some cm \<Rightarrow>
          if sc_user cm = [] then Some (log_warn c UserFieldMissing)
          else case users (sc_user cm) of
            None \<Rightarrow> Some (log_warn c (UnknownUser (sc_user cm)))
          | Some author \<Rightarrow>
              add_post_to_threads sp
                (new_post (u_username author) (ch_name channel) (sc_comment cm)
                   (env_convert_ts env (sp_timestamp sp)))
                channel (cfg_import_workflow_messages cfg) c)"

definition select_or_create_workflow_user ::
  "ext_env \<Rightarrow> (string \<rightharpoonup> iuser) \<Rightarrow> iuser \<times> (string \<rightharpoonup> iuser)" where
  "select_or_create_workflow_user env users =
     (case users ''importedworkflow'' of
        Some u \<Rightarrow> (u, users)
      | None \<Rightarrow>
          (let u = sanitise_user \<lparr>u_id = ''importedworkflow'', u_username = workflow_user_name,
                     u_first_name = workflow_user_name, u_last_name = [], u_position = [],
                     u_email = ''imported-workflow@tinkoff.ru'', u_password = env_new_id env,
                     u_memberships = [], u_auth_data = None, u_auth_service = []\<rparr>
           in (u, users(''importedworkflow'' \<mapsto> u))))"

definition handle_bot ::
  "ext_env \<Rightarrow> transform_config \<Rightarrow> uploads \<Rightarrow> ichannel \<Rightarrow> slack_post \<Rightarrow> (string \<rightharpoonup> iuser) \<Rightarrow>
   thread_ctx \<Rightarrow> ((string \<rightharpoonup> iuser) \<times> thread_ctx) option" where
  "handle_bot env cfg uploads channel sp users c =
     (if \<not> cfg_import_workflow_messages cfg then Some (users, c)
      else
        (case select_or_create_workflow_user env users of
           (author, users') \<Rightarrow>
             map_option (Pair users') (add_attached_post env cfg uploads channel sp author c)))"

text \<open>Lines 578--642: the topic, purpose and name changes are handled alike.\<close>

definition handle_metadata ::
  "ext_env \<Rightarrow> transform_config \<Rightarrow> ichannel \<Rightarrow> (string \<rightharpoonup> iuser) \<Rightarrow> slack_post \<Rightarrow>
   thread_ctx \<Rightarrow> thread_ctx option" where
  "handle_metadata env cfg channel users sp c =
     (if sp_user sp = [] then Some (log_warn c UserFieldMissing)
      else case users (sp_user sp) of
        None \<Rightarrow> Some (log_warn c (UnknownUser (sp_user sp)))
      | Some author \<Rightarrow>
          add_post_to_threads sp
            (new_post (u_username author) (ch_name channel) (sp_text sp)
               (env_convert_ts env (sp_timestamp sp)))
            channel (cfg_import_workflow_messages cfg) c)"

definition transform_post ::
  "ext_env \<Rightarrow> transform_config \<Rightarrow> uploads \<Rightarrow> ichannel \<Rightarrow> slack_post \<Rightarrow>
   (string \<rightharpoonup> iuser) \<times> thread_ctx \<Rightarrow> ((string \<rightharpoonup> iuser) \<times> thread_ctx) option" where
  "transform_post env cfg uploads channel sp st =
     (case st of
        (users, c) \<Rightarrow>
          (case sp_kind sp of
             PlainMessage \<Rightarrow> map_option (Pair users) (handle_plain env cfg uploads channel users sp c)
           | FileComment \<Rightarrow> map_option (Pair users) (handle_file_comment env cfg channel users sp c)
           | BotMessage \<Rightarrow> handle_bot env cfg uploads channel sp users c
           | JoinLeaveMessage \<Rightarrow> Some (users, c)
           | MeMessage \<Rightarrow> Some (users, c)
           | ChannelTopicMessage \<Rightarrow> map_option (Pair users) (handle_metadata env cfg channel users sp c)
           | ChannelPurposeMessage \<Rightarrow> map_option (Pair users) (handle_metadata env cfg channel users sp c)
           | ChannelNameMessage \<Rightarrow> map_option (Pair users) (handle_metadata env cfg channel users sp c)
           | UnsupportedMessage \<Rightarrow> Some (users, log_warn c UnsupportedPostType)))"

subsection \<open>The loops\<close>

fun transform_channel_posts ::
  "ext_env \<Rightarrow> transform_config \<Rightarrow> uploads \<Rightarrow> ichannel \<Rightarrow> slack_post list \<Rightarrow>
   (string \<rightharpoonup> iuser) \<times> thread_ctx \<Rightarrow> ((string \<rightharpoonup> iuser) \<times> thread_ctx) option" where
  "transform_channel_posts env cfg uploads channel [] st = Some st"
| "transform_channel_posts env cfg uploads channel (sp # sps) st =
     (case transform_post env cfg uploads channel sp st of
        None \<Rightarrow> None
      | Some st' \<Rightarrow> transform_channel_posts env cfg uploads channel sps st')"

definition sort_posts :: "ext_env \<Rightarrow> slack_post list \<Rightarrow> slack_post list" where
  "sort_posts env posts = sort_key (\<lambda>sp. sint (env_convert_ts env (sp_timestamp sp))) posts"

definition build_channels_by_original_name_map :: "intermediate \<Rightarrow> string \<rightharpoonup> ichannel" where
  "build_channels_by_original_name_map im =
     fold (\<lambda>c m. m(ch_original_name c \<mapsto> c))
       (i_public im @ i_private im @ i_group im @ i_direct im) Map.empty"

text \<open>
  Lines 433--651, one channel per step: look the channel up, open its thread store,
  run its sorted posts with a fresh ledger, and append \<open>GetChangedThreads\<close> to the
  result.
\<close>

fun transform_channels_posts ::
  "ext_env \<Rightarrow> transform_config \<Rightarrow> uploads \<Rightarrow> (string \<rightharpoonup> ichannel) \<Rightarrow>
   (string \<times> slack_post list) list \<Rightarrow> transformer \<times> addr list \<Rightarrow>
   (transform_error + transformer \<times> addr list) option" where
  "transform_channels_posts env cfg uploads chans [] acc = Some (Inr acc)"
| "transform_channels_posts env cfg uploads chans ((name, posts) # rest) (t, result) =
     (case chans name of
        None \<Rightarrow>
          transform_channels_posts env cfg uploads chans rest
            (t\<lparr>t_log := t_log t @ [ChannelNotFound name]\<rparr>, result)
      | Some channel \<Rightarrow>
          (case new_channel_threads_storage (env_redis_connect env) (t_redis_factory t) name
                  (cfg_redis_config cfg) of
             (Inl e, f) \<Rightarrow> Some (Inl e)
           | (Inr threads, f) \<Rightarrow>
               (case transform_channel_posts env cfg uploads channel (sort_posts env posts)
                       (i_users (t_intermediate t),
                        \<lparr>tc_world = t_world t, tc_threads = threads, tc_timestamps = {},
                         tc_log = t_log t\<rparr>) of
                  None \<Rightarrow> None
                | Some (users, c) \<Rightarrow>
                    transform_channels_posts env cfg uploads chans rest
                      (t\<lparr>t_intermediate := (t_intermediate t)\<lparr>i_users := users\<rparr>,
                         t_world := tc_world c, t_redis_factory := f, t_log := tc_log c\<rparr>,
                       result @ get_changed_threads (tc_threads c)))))"

text \<open>
  The end of \<open>TransformPosts\<close> (lines 656--658): the collected roots become
  \<open>Intermediate.Posts\<close>, and \<open>newGroupChannels\<close> and \<open>newDirectChannels\<close> are appended to
  the channels. Both are declared empty (lines 428--429) and never extended.
\<close>

definition store_result_posts ::
  "transformer \<Rightarrow> addr list \<Rightarrow> ichannel list \<Rightarrow> ichannel list \<Rightarrow> transformer" where
  "store_result_posts t result new_groups new_directs =
     t\<lparr>t_intermediate := (t_intermediate t)\<lparr>i_posts := result,
        i_group := i_group (t_intermediate t) @ new_groups,
        i_direct := i_direct (t_intermediate t) @ new_directs\<rparr>\<rparr>"

definition transform_posts ::
  "ext_env \<Rightarrow> transform_config \<Rightarrow> slack_export \<Rightarrow> transformer \<Rightarrow> (transform_error + transformer) option" where
  "transform_posts env cfg export t =
     (case transform_channels_posts env cfg (se_uploads export)
             (build_channels_by_original_name_map (t_intermediate t)) (se_posts export) (t, []) of
        None \<Rightarrow> None
      | Some (Inl e) \<Rightarrow> Some (Inl e)
      | Some (Inr (t', result)) \<Rightarrow> Some (Inr (store_result_posts t' result [] [])))"

text \<open>\<open>TransformAllChannels\<close> always returns \<open>nil\<close>, so \<open>Transform\<close> fails only in \<open>TransformPosts\<close>.\<close>

definition transform ::
  "ext_env \<Rightarrow> transform_config \<Rightarrow> slack_export \<Rightarrow> transformer \<Rightarrow> (transform_error + transformer) option" where
  "transform env cfg export t =
     (let t1 = t\<lparr>t_intermediate := transform_users (se_users export) (cfg_auth_data_as_email cfg)
                                     (cfg_auth_service cfg) (t_intermediate t)\<rparr>;
          t2 = (if \<not> cfg_skip_channels cfg
                then t1\<lparr>t_intermediate := populate_channel_memberships (populate_user_memberships
                          (transform_all_channels env export (t_intermediate t1)))\<rparr>
                else t1)
      in if \<not> cfg_skip_posts cfg then transform_posts env cfg export t2 else Some (Inr t2))"

subsection \<open>Example inputs\<close>

definition demo_cfg :: transform_config where
  "demo_cfg = \<lparr>cfg_attachments_dir = ''data'', cfg_skip_attachments = False,
     cfg_discard_invalid_props = False, cfg_auth_data_as_email = False, cfg_auth_service = [],
     cfg_import_workflow_messages = False, cfg_skip_posts = False, cfg_skip_channels = False,
     cfg_redis_config = None\<rparr>"

definition demo_general :: ichannel where
  "demo_general = \<lparr>ch_id = [], ch_original_name = ''general'', ch_name = ''general'',
     ch_display_name = ''general'', ch_members = [''U1''], ch_members_usernames = [],
     ch_purpose = [], ch_header = [], ch_topic = [], ch_type = ChannelTypeOpen\<rparr>"

definition demo_transformer :: transformer where
  "demo_transformer = \<lparr>t_intermediate = \<lparr>i_public = [demo_general], i_private = [], i_group = [],
       i_direct = [], i_users = demo_users, i_posts = []\<rparr>,
     t_world = \<lparr>w_heap = [], w_remote = Map.empty\<rparr>, t_redis_factory = None, t_log = []\<rparr>"

definition spec_example :: slack_export where
  "spec_example = \<lparr>se_users = [], se_public = [], se_private = [], se_group = [], se_direct = [],
     se_posts = [(''general'', [slack_msg ''10'' [] ''a'', slack_msg ''15'' ''10'' ''b'',
                               slack_msg ''10'' [] ''c''])],
     se_uploads = Map.empty\<rparr>"

definition ledger_step :: "thread_ctx \<Rightarrow> thread_ctx \<Rightarrow> bool" where
  "ledger_step c c' \<longleftrightarrow> (\<exists>t. tc_timestamps c' \<subseteq> insert t (tc_timestamps c))"

subsection \<open>Lemmas\<close>

lemma store_result_posts_empty [simp]:
  "store_result_posts t result [] [] = t\<lparr>t_intermediate := (t_intermediate t)\<lparr>i_posts := result\<rparr>\<rparr>"
  by (simp add: store_result_posts_def)

lemma sort_spec_example:
  "sort_posts demo_env [slack_msg ''10'' [] ''a'', slack_msg ''15'' ''10'' ''b'', slack_msg ''10'' [] ''c'']
   = [slack_msg ''10'' [] ''a'', slack_msg ''10'' [] ''c'', slack_msg ''15'' ''10'' ''b'']"
  by (simp add: sort_posts_def demo_env_def demo_ts_def slack_msg_def insort_key_def)

lemma demo_env_sel [simp]:
  "env_convert_ts demo_env = demo_ts" "env_attach_io demo_env = (\<lambda>fid dest. None)"
  "env_redis_connect demo_env = (\<lambda>cfg. True)"
  by (simp_all add: demo_env_def)

lemma slack_msg_sel [simp]:
  "sp_kind (slack_msg ts th x) = PlainMessage" "sp_user (slack_msg ts th x) = ''U1''"
  "sp_text (slack_msg ts th x) = x" "sp_timestamp (slack_msg ts th x) = ts"
  "sp_thread_ts (slack_msg ts th x) = th" "sp_file (slack_msg ts th x) = None"
  "sp_files (slack_msg ts th x) = None" "sp_attachments (slack_msg ts th x) = []"
  "sp_comment (slack_msg ts th x) = None"
  by (simp_all add: slack_msg_def)

lemmas demo_defs = demo_users_def demo_user_def demo_ts_def demo_cfg_def
  demo_general_def demo_transformer_def spec_example_def

lemmas pipeline_defs = transform_post_def handle_plain_def add_attached_post_def attach_files_def
  add_post_to_threads_def reserve_ts_def Let_def alloc_def new_memory_storage_def new_post_def
  transform_posts_def build_channels_by_original_name_map_def new_channel_threads_storage_def

lemma add_file_to_post_indep:
  "List.map_filter (\<lambda>f. case add_file_to_post env f up p dir of Inl e \<Rightarrow> A e f | Inr _ \<Rightarrow> B f) fs =
   List.map_filter (\<lambda>f. case add_file_to_post env f up q dir of Inl e \<Rightarrow> A e f | Inr _ \<Rightarrow> B f) fs"
  by (induction fs) (simp_all add: List.map_filter_simps add_file_to_post_def Let_def split: option.splits)

lemma channels_posts_redis_fail:
  assumes "cfg_redis_config cfg = Some rc" "\<not> env_redis_connect env rc" "t_redis_factory t = None"
    and "\<exists>n\<in>set (map fst ps). chans n \<noteq> None"
  shows "transform_channels_posts env cfg up chans ps (t, res) = Some (Inl (RedisConnectError (rc_addr rc)))"
  using assms(3,4)
proof (induction ps arbitrary: t res)
  case Nil
  then show ?case by simp
next
  case (Cons np ps)
  obtain n posts where np: "np = (n, posts)" by fastforce
  show ?case
  proof (cases "chans n")
    case None
    with Cons.prems np have "\<exists>n\<in>set (map fst ps). chans n \<noteq> None" by auto
    with Cons.IH [of "t\<lparr>t_log := t_log t @ [ChannelNotFound n]\<rparr>"] Cons.prems(1) None np show ?thesis
      by simp
  next
    case (Some ch)
    with np Cons.prems(1) assms(1,2) show ?thesis by (simp add: new_channel_threads_storage_def)
  qed
qed

lemma add_files_links:
  "post_replies (fst (add_files env up dir fs (p, lg))) = post_replies p \<and>
   post_channel_members (fst (add_files env up dir fs (p, lg))) = post_channel_members p"
proof (induction fs arbitrary: p lg)
  case Nil
  then show ?case by simp
next
  case (Cons f fs)
  then show ?case
    by (cases "add_file_to_post env f up p dir")
       (auto simp: add_file_to_post_def Let_def split: option.splits)
qed

lemma attach_files_links:
  assumes "attach_files env cfg up sp (p, lg) = (p', lg')"
  shows "post_replies p' = post_replies p \<and> post_channel_members p' = post_channel_members p"
proof -
  have "post_replies (fst (attach_files env cfg up sp (p, lg))) = post_replies p \<and>
      post_channel_members (fst (attach_files env cfg up sp (p, lg))) = post_channel_members p"
    by (simp add: attach_files_def add_files_links del: add_files.simps split: option.split)
  with assms show ?thesis by simp
qed

lemma attach_props_links:
  "attach_props env cfg sp (p, lg) = Inr (p', lg') \<Longrightarrow>
     post_replies p' = post_replies p \<and> post_channel_members p' = post_channel_members p"
  by (auto split: if_splits)

lemma add_post_ok:
  assumes "threads_inv c" "tc_timestamps c \<noteq> UNIV" "post_replies p = []"
  shows "\<exists>c'. add_post_to_threads orig p ch imp c = Some c' \<and> threads_inv c' \<and> ledger_step c c'"
proof -
  obtain c' where r: "add_post_to_threads orig p ch imp c = Some c'"
    using add_post_some [OF assms(1,2)] by blast
  from add_post_inv [OF assms(1,3) r] add_post_ledger [OF r] r show ?thesis
    by (auto simp: ledger_step_def)
qed

lemma ledger_step_refl [simp]: "ledger_step c c"
  unfolding ledger_step_def by blast

lemma ledger_step_log [simp]: "ledger_step c (c\<lparr>tc_log := lg\<rparr>)"
  unfolding ledger_step_def by simp blast

lemma add_attached_post_ok:
  assumes "threads_inv c" "tc_timestamps c \<noteq> UNIV"
  shows "\<exists>c'. add_attached_post env cfg up ch sp author c = Some c' \<and> threads_inv c' \<and> ledger_step c c'"
proof -
  let ?p = "new_post (u_username author) (ch_name ch) (sp_text sp) (env_convert_ts env (sp_timestamp sp))"
  obtain p1 lg1 where af: "attach_files env cfg up sp (?p, tc_log c) = (p1, lg1)" by fastforce
  have l1: "post_replies p1 = []" using attach_files_links [OF af] by simp
  show ?thesis
  proof (cases "attach_props env cfg sp (p1, lg1)")
    case (Inl lg)
    with af assms show ?thesis by (simp add: add_attached_post_def)
  next
    case (Inr r)
    obtain p2 lg2 where r: "r = (p2, lg2)" by fastforce
    have l2: "post_replies p2 = []" using attach_props_links [OF Inr [unfolded r]] l1 by simp
    have "threads_inv (c\<lparr>tc_log := lg2\<rparr>)" "tc_timestamps (c\<lparr>tc_log := lg2\<rparr>) \<noteq> UNIV"
      using assms by simp_all
    from add_post_ok [OF this l2, of sp ch "cfg_import_workflow_messages cfg"] obtain c' where
      "add_post_to_threads sp p2 ch (cfg_import_workflow_messages cfg) (c\<lparr>tc_log := lg2\<rparr>) = Some c'"
      "threads_inv c'" "ledger_step (c\<lparr>tc_log := lg2\<rparr>) c'" by blast
    with af Inr r show ?thesis
      by (auto simp: add_attached_post_def ledger_step_def)
  qed
qed

lemma transform_post_ok:
  assumes "threads_inv c" "tc_timestamps c \<noteq> UNIV"
  shows "\<exists>users' c'. transform_post env cfg up ch sp (users, c) = Some (users', c') \<and>
           threads_inv c' \<and> ledger_step c c'"
proof -
  have np: "post_replies (new_post u n m t) = []" for u n m t by simp
  have plain: "\<exists>c'. handle_plain env cfg up ch users sp c = Some c' \<and> threads_inv c' \<and> ledger_step c c'"
    using assms add_attached_post_ok [OF assms]
    by (auto simp: handle_plain_def split: option.splits)
  have fc: "\<exists>c'. handle_file_comment env cfg ch users sp c = Some c' \<and> threads_inv c' \<and> ledger_step c c'"
    using assms add_post_ok [OF assms np]
    by (auto simp: handle_file_comment_def split: option.splits)
  have md: "\<exists>c'. handle_metadata env cfg ch users sp c = Some c' \<and> threads_inv c' \<and> ledger_step c c'"
    using assms add_post_ok [OF assms np]
    by (auto simp: handle_metadata_def split: option.splits)
  have bot: "\<exists>users' c'. handle_bot env cfg up ch sp users c = Some (users', c') \<and> threads_inv c' \<and> ledger_step c c'"
  proof (cases "cfg_import_workflow_messages cfg")
    case True
    obtain a us where s: "select_or_create_workflow_user env users = (a, us)" by fastforce
    from add_attached_post_ok [OF assms, of env cfg up ch sp a] True s show ?thesis
      by (auto simp: handle_bot_def)
  next
    case False
    with assms show ?thesis by (simp add: handle_bot_def)
  qed
  show ?thesis
    using plain fc md bot assms
    by (cases "sp_kind sp") (auto simp: transform_post_def ledger_step_def)
qed

lemma ledger_step_card:
  assumes "ledger_step c c'" "finite (tc_timestamps c)"
  shows "finite (tc_timestamps c') \<and> card (tc_timestamps c') \<le> Suc (card (tc_timestamps c))"
proof -
  from assms(1) obtain t where s: "tc_timestamps c' \<subseteq> insert t (tc_timestamps c)"
    by (auto simp: ledger_step_def)
  have f: "finite (insert t (tc_timestamps c))" using assms(2) by simp
  have "card (tc_timestamps c') \<le> card (insert t (tc_timestamps c))" by (rule card_mono [OF f s])
  also have "\<dots> \<le> Suc (card (tc_timestamps c))" using assms(2) by (simp add: card_insert_if)
  finally show ?thesis using finite_subset [OF s f] by blast
qed

lemma transform_channel_posts_ok:
  assumes "threads_inv c" "finite (tc_timestamps c)" "card (tc_timestamps c) + length sps < 2 ^ 64"
  shows "\<exists>users' c'. transform_channel_posts env cfg up ch sps (users, c) = Some (users', c') \<and> threads_inv c'"
  using assms
proof (induction sps arbitrary: users c)
  case Nil
  then show ?case by simp
next
  case (Cons sp sps)
  have "card (tc_timestamps c) < 2 ^ LENGTH(64)" using Cons.prems(3) by simp
  then have room: "tc_timestamps c \<noteq> UNIV" by (rule ledger_not_full)
  from transform_post_ok [OF Cons.prems(1) room, of env cfg up ch sp users] obtain users1 c1 where
    st: "transform_post env cfg up ch sp (users, c) = Some (users1, c1)"
    and inv1: "threads_inv c1" and ls: "ledger_step c c1" by blast
  from ledger_step_card [OF ls Cons.prems(2)] Cons.prems(3)
  have "finite (tc_timestamps c1)" "card (tc_timestamps c1) + length sps < 2 ^ 64" by auto
  from Cons.IH [OF inv1 this, of users1] st show ?case by simp
qed

lemma store_addrs_new:
  "store_addrs new_memory_storage = {}" "store_addrs (new_redis_storage ch) = {}"
  by (simp_all add: new_memory_storage_def new_redis_storage_def)

lemma fresh_ctx_inv:
  assumes "fst (new_channel_threads_storage connect f n rcfg) = Inr s"
    and "\<forall>d\<in>ran (w_remote w). flat_doc d"
  shows "threads_inv \<lparr>tc_world = w, tc_threads = s, tc_timestamps = {}, tc_log = lg\<rparr>"
  using new_channel_threads_storage_fresh(1) [OF assms(1), of w]
    new_channel_threads_storage_cases [OF assms(1)] store_addrs_new assms(2)
  by (auto simp: threads_inv_def)

lemma channels_posts_ok:
  assumes "\<forall>d\<in>ran (w_remote (t_world t)). flat_doc d" "\<forall>(n, ps)\<in>set cs. length ps < 2 ^ 64"
  shows "transform_channels_posts env cfg up chans cs (t, res) \<noteq> None"
  using assms
proof (induction cs arbitrary: t res)
  case Nil
  then show ?case by simp
next
  case (Cons np cs)
  obtain n ps where np: "np = (n, ps)" by fastforce
  show ?case
  proof (cases "chans n")
    case None
    with Cons np show ?thesis by simp
  next
    case (Some ch)
    obtain r f where o: "new_channel_threads_storage (env_redis_connect env) (t_redis_factory t) n
                          (cfg_redis_config cfg) = (r, f)" by fastforce
    show ?thesis
    proof (cases r)
      case (Inl e)
      with Some o np show ?thesis by simp
    next
      case (Inr s)
      let ?c0 = "\<lparr>tc_world = t_world t, tc_threads = s, tc_timestamps = {}, tc_log = t_log t\<rparr>"
      have inv0: "threads_inv ?c0"
        using fresh_ctx_inv [of _ _ n _ s, OF _ Cons.prems(1)] o Inr by (metis fst_conv)
      have "card (tc_timestamps ?c0) + length (sort_posts env ps) < 2 ^ 64"
        using Cons.prems(2) np by (simp add: sort_posts_def)
      from transform_channel_posts_ok [OF inv0 _ this, of env cfg up ch "i_users (t_intermediate t)"]
      obtain users' c' where run: "transform_channel_posts env cfg up ch (sort_posts env ps)
          (i_users (t_intermediate t), ?c0) = Some (users', c')" and inv': "threads_inv c'" by auto
      have "\<forall>d\<in>ran (w_remote (tc_world c')). flat_doc d" using inv' by (simp add: threads_inv_def)
      with Cons.IH Cons.prems(2) np run Some o Inr show ?thesis by simp
    qed
  qed
qed

lemma transform_posts_ok:
  assumes "\<forall>d\<in>ran (w_remote (t_world t)). flat_doc d" "\<forall>(n, ps)\<in>set (se_posts export). length ps < 2 ^ 64"
  shows "transform_posts env cfg export t \<noteq> None"
  using channels_posts_ok [OF assms, of env cfg "se_uploads export" _ "[]"]
  by (auto simp: transform_posts_def split: option.splits sum.splits)

subsection \<open>Properties of the pipeline\<close>

text \<open>
  The end-to-end example of spec section 8 through \<open>TransformPosts\<close>: a channel
  with a root at 10, a reply at 15 to 10, and a second root at 10. After sorting, the
  second root has \<open>CreateAt\<close> 10001 but is stored under the same Slack timestamp
  \<open>"10"\<close>. It overwrites the first root and logs the overwrite, and the reply joins
  it. The output is one thread with one reply, not two threads.
\<close>

theorem spec_example_overwrites:
  "\<exists>t'. transform_posts demo_env demo_cfg spec_example demo_transformer = Some (Inr t') \<and>
     map (\<lambda>a. map_option (\<lambda>p. (post_message p, post_create_at p, length (post_replies p)))
                 (deref (w_heap (t_world t')) a)) (i_posts (t_intermediate t'))
       = [Some (''c'', 10001, 1)] \<and>
     t_log t' = [OverwritingRootPost ''10'']"
  by (simp add: pipeline_defs demo_defs sort_spec_example next_free_ts_step
      deref_def heap_upd_def workflow_user_name_def sanitise_post_def posgresql_max_post_size_def)

text \<open>
  Claim C23: join/leave and me messages, and messages of an unsupported type, never
  reach \<open>AddPostToThreads\<close>. Only the log may change; the store, heap, ledger and
  users are untouched.
\<close>

theorem transform_post_skipped:
  assumes "sp_kind sp \<in> {JoinLeaveMessage, MeMessage, UnsupportedMessage}"
  shows "\<exists>lg. transform_post env cfg up ch sp (users, c) = Some (users, c\<lparr>tc_log := lg\<rparr>)"
  using assms by (auto simp: transform_post_def intro: exI [of _ "tc_log c"])


text \<open>
  Claim C25: attaching a post's files never aborts. Each file whose upload exists and
  whose copy succeeds adds its normalised destination path, in order. Each failure
  adds one \<open>FileAttachError\<close> to the log, and the post is otherwise unchanged.
\<close>

theorem add_files_skips_failures:
  "add_files env up dir fs (p, lg) =
     (p\<lparr>post_attachments := post_attachments p @
          List.map_filter (\<lambda>f. case add_file_to_post env f up p dir of
                                 Inl e \<Rightarrow> None | Inr _ \<Rightarrow> Some (get_normalised_file_path env f dir)) fs\<rparr>,
      lg @ List.map_filter (\<lambda>f. case add_file_to_post env f up p dir of
                                 Inl e \<Rightarrow> Some (FileAttachError e) | Inr _ \<Rightarrow> None) fs)"
proof (induction fs arbitrary: p lg)
  case Nil
  then show ?case by (simp add: List.map_filter_simps)
next
  case (Cons f fs)
  show ?case
  proof (cases "add_file_to_post env f up p dir")
    case (Inl e)
    with Cons.IH [of p "lg @ [FileAttachError e]"] show ?thesis
      by (simp add: List.map_filter_simps)
  next
    case (Inr p')
    then have p': "p' = p\<lparr>post_attachments := post_attachments p @ [get_normalised_file_path env f dir]\<rparr>"
      by (simp add: add_file_to_post_def Let_def split: option.splits)
    have ih: "add_files env up dir fs (p', lg) =
      (p'\<lparr>post_attachments := post_attachments p' @
          List.map_filter (\<lambda>f. case add_file_to_post env f up p dir of
                                 Inl e \<Rightarrow> None | Inr _ \<Rightarrow> Some (get_normalised_file_path env f dir)) fs\<rparr>,
       lg @ List.map_filter (\<lambda>f. case add_file_to_post env f up p dir of
                                 Inl e \<Rightarrow> Some (FileAttachError e) | Inr _ \<Rightarrow> None) fs)"
      using Cons.IH [of p' lg] unfolding add_file_to_post_indep [where p = p' and q = p] .
    show ?thesis using Inr ih by (simp add: List.map_filter_simps p')
  qed
qed

text \<open>
  \<open>buildChannelsByOriginalNameMap\<close> maps an original name to the last
  channel with that name, in the order public, private, group, direct. Names no channel
  has are absent.
\<close>

theorem channels_map_last_wins:
  "build_channels_by_original_name_map im n =
     (if \<exists>c\<in>set (i_public im @ i_private im @ i_group im @ i_direct im). ch_original_name c = n
      then Some (last (filter (\<lambda>c. ch_original_name c = n) (i_public im @ i_private im @ i_group im @ i_direct im)))
      else None)"
  unfolding build_channels_by_original_name_map_def
  by (rule fold_map_upd_last [of ch_original_name "\<lambda>c. c"])

text \<open>
  Claim C20: when the Redis backend is configured but cannot be reached,
  \<open>TransformPosts\<close> returns the connection error as soon as it meets a channel it
  knows. No partial result is returned.
\<close>

theorem redis_failure_aborts:
  assumes "cfg_redis_config cfg = Some rc" "\<not> env_redis_connect env rc" "t_redis_factory t = None"
    and "\<exists>n\<in>set (map fst (se_posts export)). build_channels_by_original_name_map (t_intermediate t) n \<noteq> None"
  shows "transform_posts env cfg export t = Some (Inl (RedisConnectError (rc_addr rc)))"
  using channels_posts_redis_fail [OF assms] by (simp add: transform_posts_def)

text \<open>
  Claim C24: with \<open>--discard-invalid-props\<close>, a plain message whose attachments
  property exceeds \<open>PostPropsMaxRunes\<close> is dropped with a warning. It is never handed
  to \<open>AddPostToThreads\<close>, so only the log changes.
\<close>

theorem oversized_props_discarded:
  assumes "sp_user sp \<noteq> []" "users (sp_user sp) = Some author" "sp_attachments sp \<noteq> []"
    and "post_props_max_runes < env_props_runes env (sp_attachments sp)" "cfg_discard_invalid_props cfg"
  shows "\<exists>lg. handle_plain env cfg up ch users sp c = Some (c\<lparr>tc_log := lg\<rparr>) \<and> lg \<noteq> [] \<and>
              last lg = PropsTooLargeDiscarded"
proof -
  obtain p1 lg1 where af: "attach_files env cfg up sp (new_post (u_username author) (ch_name ch) (sp_text sp)
      (env_convert_ts env (sp_timestamp sp)), tc_log c) = (p1, lg1)" by fastforce
  show ?thesis using assms by (simp add: handle_plain_def add_attached_post_def af exI [of _ "lg1 @ [PropsTooLargeDiscarded]"])
qed

text \<open>
  Claim C2: \<open>Transform\<close> always returns, with a result or an error, when every channel
  has fewer than \<open>2^64\<close> posts and the Redis backend holds one-level threads. Each
  channel's ledger gains at most one timestamp per post, so the probe loop always
  finds room. Every root a lookup returns is live.
\<close>

theorem transform_terminates:
  assumes "\<forall>d\<in>ran (w_remote (t_world t)). flat_doc d" "\<forall>(n, ps)\<in>set (se_posts export). length ps < 2 ^ 64"
  shows "transform env cfg export t \<noteq> None"
  using transform_posts_ok [of "t\<lparr>t_intermediate := im\<rparr>" export env cfg for im] assms
  by (simp add: transform_def Let_def)

theorem transform_post_skipped_witness:
  "sp_kind ((slack_msg ''20'' [] ''joined'')\<lparr>sp_kind := JoinLeaveMessage\<rparr>)
     \<in> {JoinLeaveMessage, MeMessage, UnsupportedMessage} \<and>
   (\<exists>lg. transform_post demo_env demo_cfg Map.empty demo_general
      ((slack_msg ''20'' [] ''joined'')\<lparr>sp_kind := JoinLeaveMessage\<rparr>) (demo_users, demo_ctx1)
      = Some (demo_users, demo_ctx1\<lparr>tc_log := lg\<rparr>))"
proof -
  have k: "sp_kind ((slack_msg ''20'' [] ''joined'')\<lparr>sp_kind := JoinLeaveMessage\<rparr>)
             \<in> {JoinLeaveMessage, MeMessage, UnsupportedMessage}" by simp
  show ?thesis using k transform_post_skipped [OF k] by blast
qed


theorem redis_failure_aborts_witness:
  "cfg_redis_config (demo_cfg\<lparr>cfg_redis_config := Some \<lparr>rc_addr = ''r:6379'', rc_user = [], rc_password = []\<rparr>\<rparr>)
     = Some \<lparr>rc_addr = ''r:6379'', rc_user = [], rc_password = []\<rparr> \<and>
   \<not> env_redis_connect (demo_env\<lparr>env_redis_connect := (\<lambda>_. False)\<rparr>)
       \<lparr>rc_addr = ''r:6379'', rc_user = [], rc_password = []\<rparr> \<and>
   t_redis_factory demo_transformer = None \<and>
   transform_posts (demo_env\<lparr>env_redis_connect := (\<lambda>_. False)\<rparr>)
     (demo_cfg\<lparr>cfg_redis_config := Some \<lparr>rc_addr = ''r:6379'', rc_user = [], rc_password = []\<rparr>\<rparr>)
     spec_example demo_transformer = Some (Inl (RedisConnectError ''r:6379''))"
proof -
  let ?rc = "\<lparr>rc_addr = ''r:6379'', rc_user = [], rc_password = []\<rparr>"
  let ?cfg = "demo_cfg\<lparr>cfg_redis_config := Some ?rc\<rparr>" and ?env = "demo_env\<lparr>env_redis_connect := (\<lambda>_. False)\<rparr>"
  have a: "cfg_redis_config ?cfg = Some ?rc" by simp
  have b: "\<not> env_redis_connect ?env ?rc" by simp
  have c: "t_redis_factory demo_transformer = None" by (simp add: demo_transformer_def)
  have d: "\<exists>n\<in>set (map fst (se_posts spec_example)).
             build_channels_by_original_name_map (t_intermediate demo_transformer) n \<noteq> None"
    by (simp add: spec_example_def demo_transformer_def build_channels_by_original_name_map_def demo_general_def)
  from redis_failure_aborts [OF a b c d] a b c show ?thesis by simp
qed

theorem oversized_props_discarded_witness:
  "sp_user ((slack_msg ''30'' [] ''big'')\<lparr>sp_attachments := [''{}'']\<rparr>) \<noteq> [] \<and>
   demo_users (sp_user ((slack_msg ''30'' [] ''big'')\<lparr>sp_attachments := [''{}'']\<rparr>)) = Some (demo_user ''U1'' ''alice'') \<and>
   sp_attachments ((slack_msg ''30'' [] ''big'')\<lparr>sp_attachments := [''{}'']\<rparr>) \<noteq> [] \<and>
   post_props_max_runes < env_props_runes (demo_env\<lparr>env_props_runes := (\<lambda>_. 900000)\<rparr>)
     (sp_attachments ((slack_msg ''30'' [] ''big'')\<lparr>sp_attachments := [''{}'']\<rparr>)) \<and>
   cfg_discard_invalid_props (demo_cfg\<lparr>cfg_discard_invalid_props := True\<rparr>) \<and>
   (\<exists>lg. handle_plain (demo_env\<lparr>env_props_runes := (\<lambda>_. 900000)\<rparr>) (demo_cfg\<lparr>cfg_discard_invalid_props := True\<rparr>)
      Map.empty demo_general demo_users ((slack_msg ''30'' [] ''big'')\<lparr>sp_attachments := [''{}'']\<rparr>) demo_ctx1
      = Some (demo_ctx1\<lparr>tc_log := lg\<rparr>) \<and> lg \<noteq> [] \<and> last lg = PropsTooLargeDiscarded)"
proof -
  let ?sp = "(slack_msg ''30'' [] ''big'')\<lparr>sp_attachments := [''{}'']\<rparr>"
  let ?env = "demo_env\<lparr>env_props_runes := (\<lambda>_. 900000)\<rparr>" and ?cfg = "demo_cfg\<lparr>cfg_discard_invalid_props := True\<rparr>"
  have a: "sp_user ?sp \<noteq> []" by simp
  have b: "demo_users (sp_user ?sp) = Some (demo_user ''U1'' ''alice'')" by (simp add: demo_users_def)
  have c: "sp_attachments ?sp \<noteq> []" by simp
  have d: "post_props_max_runes < env_props_runes ?env (sp_attachments ?sp)" by (simp add: post_props_max_runes_def)
  have e: "cfg_discard_invalid_props ?cfg" by simp
  from oversized_props_discarded [where sp = ?sp and users = demo_users and env = ?env and cfg = ?cfg
      and up = Map.empty and ch = demo_general and c = demo_ctx1, OF a b c d e] a b c d e
  show ?thesis by blast
qed

theorem transform_terminates_witness:
  "ran (w_remote (t_world demo_transformer)) = {} \<and>
   map (length \<circ> snd) (se_posts spec_example) = [3] \<and>
   transform demo_env demo_cfg spec_example demo_transformer \<noteq> None"
proof -
  have a: "\<forall>d\<in>ran (w_remote (t_world demo_transformer)). flat_doc d" by (simp add: demo_transformer_def)
  have b: "\<forall>(n, ps)\<in>set (se_posts spec_example). length ps < 2 ^ 64" by (simp add: spec_example_def)
  from transform_terminates [OF a b] show ?thesis by (simp add: demo_transformer_def spec_example_def)
qed

end
