(* ===== verification/Output.thy ===== *)
theory Output
  imports Pipeline
begin

text \<open>
  Well-formedness of what \<open>TransformPosts\<close> emits, across all channels. The invariant
  \<open>based h0\<close> says that the heap extends a base heap \<open>h0\<close> and that every post of the
  current channel's store, and every reply of it, lies above the base: a channel's
  store cannot reach posts of earlier channels. \<open>handler_outcome\<close> sums up what one
  message handler may do to the context (change the log, or call
  \<open>AddPostToThreads\<close> once with a post that has no replies yet). With these, the roots
  collected from all channels form one list of one-level threads (\<open>out_ok\<close>): each
  root is live, its replies are live leaves, and no reply is itself an emitted root.
  The last definitions are a complete export run through \<open>Transform\<close>.
\<close>

definition based :: "heap \<Rightarrow> thread_ctx \<Rightarrow> bool" where
  "based h0 c \<longleftrightarrow>
     length h0 \<le> length (w_heap (tc_world c)) \<and> take (length h0) (w_heap (tc_world c)) = h0 \<and>
     (\<forall>a\<in>store_addrs (tc_threads c). length h0 \<le> a \<and>
        (\<forall>p. deref (w_heap (tc_world c)) a = Some p \<longrightarrow> (\<forall>r\<in>set (post_replies p). length h0 \<le> r)))"

definition handler_outcome :: "ichannel \<Rightarrow> thread_ctx \<Rightarrow> thread_ctx \<Rightarrow> bool" where
  "handler_outcome ch c c' \<longleftrightarrow>
     (\<exists>lg. c' = c\<lparr>tc_log := lg\<rparr>) \<or>
     (\<exists>orig p imp lg. post_replies p = [] \<and> post_channel_members p = [] \<and>
        add_post_to_threads orig p ch imp (c\<lparr>tc_log := lg\<rparr>) = Some c')"

definition out_ok :: "heap \<Rightarrow> addr list \<Rightarrow> bool" where
  "out_ok h outs \<longleftrightarrow> (\<forall>a\<in>set outs. flat_root h (set outs) a)"

definition alice_slack :: slack_user where
  "alice_slack = \<lparr>su_id = ''U1'', su_username = ''alice'', su_first_name = [],
       su_last_name = [], su_title = [], su_email = ''alice@x''\<rparr>"

definition spec_export :: slack_export where
  "spec_export = spec_example\<lparr>se_users := [alice_slack]\<rparr>"

definition spec_cfg :: transform_config where
  "spec_cfg = demo_cfg\<lparr>cfg_skip_channels := True\<rparr>"

definition spec_run :: transformer where
  "spec_run = projr (the (transform demo_env spec_cfg spec_export demo_transformer))"

lemma based_ignores [simp]:
  "based h0 (c\<lparr>tc_log := lg\<rparr>) = based h0 c" "based h0 (c\<lparr>tc_timestamps := L\<rparr>) = based h0 c"
  by (simp_all add: based_def)

lemma take_append_le: "n \<le> length h \<Longrightarrow> take n (h @ e) = take n h"
  by simp

lemma take_heap_upd_ge: "n \<le> a \<Longrightarrow> take n (heap_upd h a p) = take n h"
  by (simp add: heap_upd_def)

lemma deref_take: "take (length h0) h = h0 \<Longrightarrow> a < length h0 \<Longrightarrow> deref h a = deref h0 a"
  by (metis deref_def length_take min.absorb_iff2 nat_less_le nth_take order.strict_trans2 nat_le_linear)

lemma store_addrs_lookup:
  "lookup_thread w s ts = (r, w', s') \<Longrightarrow>
     store_addrs s' = store_addrs s \<or>
     (\<exists>d a. r = Some a \<and> store_addrs s' = insert a (store_addrs s) \<and> alloc_doc d (w_heap w) = (a, w_heap w'))"
  by (cases s) (auto simp: ran_map_upd split: option.splits prod.splits)

lemma based_extend:
  assumes b: "based h0 c" and inv: "threads_inv c"
    and h': "w_heap w' = w_heap (tc_world c) @ e"
    and roots: "store_addrs s' \<subseteq> insert a (store_addrs (tc_threads c))"
    and new: "a \<in> store_addrs s' \<Longrightarrow> length (w_heap (tc_world c)) \<le> a \<and>
                (\<forall>p. deref (w_heap w') a = Some p \<longrightarrow> (\<forall>r\<in>set (post_replies p). length h0 \<le> r))"
  shows "based h0 (c\<lparr>tc_world := w', tc_threads := s'\<rparr>)"
proof -
  let ?h = "w_heap (tc_world c)"
  have len: "length h0 \<le> length ?h" using b by (simp add: based_def)
  have old: "length h0 \<le> x \<and> (\<forall>p. deref (w_heap w') x = Some p \<longrightarrow> (\<forall>r\<in>set (post_replies p). length h0 \<le> r))"
    if "x \<in> store_addrs (tc_threads c)" for x
  proof -
    have "x < length ?h" using roots_less [OF inv that] .
    then have "deref (w_heap w') x = deref ?h x" by (simp add: h' deref_def nth_append)
    with b that show ?thesis by (simp add: based_def)
  qed
  have "\<forall>x\<in>store_addrs s'. length h0 \<le> x \<and>
          (\<forall>p. deref (w_heap w') x = Some p \<longrightarrow> (\<forall>r\<in>set (post_replies p). length h0 \<le> r))"
  proof
    fix x assume x: "x \<in> store_addrs s'"
    show "length h0 \<le> x \<and> (\<forall>p. deref (w_heap w') x = Some p \<longrightarrow> (\<forall>r\<in>set (post_replies p). length h0 \<le> r))"
    proof (cases "x = a")
      case True
      with new x len show ?thesis by auto
    next
      case False
      with x roots old show ?thesis by blast
    qed
  qed
  moreover have "take (length h0) (w_heap w') = h0" using b len by (simp add: h' based_def)
  moreover have "length h0 \<le> length (w_heap w')" using len by (simp add: h')
  ultimately show ?thesis by (simp add: based_def)
qed

lemma based_lookup:
  assumes b: "based h0 c" and inv: "threads_inv c"
    and l: "lookup_thread (tc_world c) (tc_threads c) ts = (r, w', s')"
  shows "based h0 (c\<lparr>tc_world := w', tc_threads := s'\<rparr>)"
proof -
  let ?w = "tc_world c" and ?s = "tc_threads c"
  show ?thesis
  proof (cases "w' = ?w \<and> s' = ?s")
    case True
    then have "c\<lparr>tc_world := w', tc_threads := s'\<rparr> = c" by simp
    with b show ?thesis by simp
  next
    case False
    then obtain rs d where rs: "?s = RedisStorage rs" and miss: "rs_local rs ts = None"
      and d: "w_remote ?w (redis_key (rs_channel rs) ts) = Some d"
      using l by (cases ?s) (auto split: option.splits)
    obtain dd ds where dd: "d = PostDoc dd ds" by (cases d)
    from d inv have "flat_doc d" by (auto simp: threads_inv_def intro: ranI)
    obtain a h' where ad: "alloc_doc d (w_heap ?w) = (a, h')" by fastforce
    from alloc_flat_doc [OF \<open>flat_doc d\<close> [unfolded dd] ad [unfolded dd]] obtain e rs' where
      fresh: "length (w_heap ?w) \<le> a" and he: "h' = w_heap ?w @ e"
      and da: "deref h' a = Some (mk_ipost dd rs')"
      and kids: "\<forall>r\<in>set rs'. length (w_heap ?w) \<le> r \<and> r < a \<and> leaf_post h' r"
      by blast
    from l rs miss d ad have w': "w' = ?w\<lparr>w_heap := h'\<rparr>"
      and s': "s' = RedisStorage (rs\<lparr>rs_local := (rs_local rs)(ts \<mapsto> a),
                                   rs_changed := insert ts (rs_changed rs)\<rparr>)"
      by auto
    have roots: "store_addrs s' \<subseteq> insert a (store_addrs ?s)"
      using rs by (auto simp: s' dest: subsetD [OF ran_upd_subset])
    have len: "length h0 \<le> length (w_heap ?w)" using b by (simp add: based_def)
    show ?thesis
    proof (rule based_extend [OF b inv _ roots])
      show "w_heap w' = w_heap ?w @ e" by (simp add: w' he)
      show "length (w_heap ?w) \<le> a \<and>
            (\<forall>p. deref (w_heap w') a = Some p \<longrightarrow> (\<forall>r\<in>set (post_replies p). length h0 \<le> r))"
        using fresh da kids len by (auto simp: w')
    qed
  qed
qed

lemma based_append_reply:
  assumes b: "based h0 c" and inv: "threads_inv c" and ra: "ra \<in> store_addrs (tc_threads c)"
    and rp: "deref (w_heap (tc_world c)) ra = Some rp"
  shows "based h0 (c\<lparr>tc_world := (tc_world c)\<lparr>w_heap := heap_upd (w_heap (tc_world c) @ [p]) ra
            (rp\<lparr>post_replies := post_replies rp @ [length (w_heap (tc_world c))]\<rparr>)\<rparr>\<rparr>)"
proof -
  let ?h = "w_heap (tc_world c)"
  let ?H = "heap_upd (?h @ [p]) ra (rp\<lparr>post_replies := post_replies rp @ [length ?h]\<rparr>)"
  have len: "length h0 \<le> length ?h" and tk: "take (length h0) ?h = h0" using b by (simp_all add: based_def)
  have rab: "length h0 \<le> ra" and rpb: "\<forall>r\<in>set (post_replies rp). length h0 \<le> r"
    using b ra rp by (auto simp: based_def)
  have ral: "ra < length ?h" using rp by (rule deref_Some_less)
  have "take (length h0) ?H = h0" using take_heap_upd_ge [OF rab] len tk by simp
  moreover have "\<forall>x\<in>store_addrs (tc_threads c). length h0 \<le> x \<and>
      (\<forall>q. deref ?H x = Some q \<longrightarrow> (\<forall>r\<in>set (post_replies q). length h0 \<le> r))"
  proof
    fix x assume x: "x \<in> store_addrs (tc_threads c)"
    have xl: "x < length ?h" using roots_less [OF inv x] .
    show "length h0 \<le> x \<and> (\<forall>q. deref ?H x = Some q \<longrightarrow> (\<forall>r\<in>set (post_replies q). length h0 \<le> r))"
    proof (cases "x = ra")
      case True
      with rab rpb len ral show ?thesis by (auto simp: heap_simps)
    next
      case False
      with b x xl show ?thesis by (simp add: based_def heap_simps)
    qed
  qed
  ultimately show ?thesis using len by (simp add: based_def heap_simps)
qed

lemma based_add_post:
  assumes b: "based h0 c" and inv: "threads_inv c" and leaf: "post_replies post = []"
    and res: "add_post_to_threads orig post channel imp c = Some c'"
  shows "based h0 c'"
  using res
proof (cases rule: add_post_to_threads_cases)
  case (root t L w' s')
  let ?h = "w_heap (tc_world c)" and ?p3 = "sanitise_post ((mark_direct channel post)\<lparr>post_create_at := t\<rparr>)"
  have hw: "w_heap w' = ?h @ [?p3]" using store_thread_heap [OF root(3)] by simp
  have "based h0 (c\<lparr>tc_world := w', tc_threads := s'\<rparr>)"
  proof (rule based_extend [OF b inv hw])
    show "store_addrs s' \<subseteq> insert (length ?h) (store_addrs (tc_threads c))"
      using store_addrs_store [OF root(3)] .
    show "length ?h \<le> length ?h \<and>
          (\<forall>p. deref (w_heap w') (length ?h) = Some p \<longrightarrow> (\<forall>r\<in>set (post_replies p). length h0 \<le> r))"
      using leaf by (simp add: hw heap_simps)
  qed
  with root(4) show ?thesis by (simp add: based_def)
next
  case (missing t L w' s')
  with based_lookup [OF b inv missing(4)] show ?thesis by (simp add: based_def)
next
  case (dropped t L ra rp w' s')
  with based_lookup [OF b inv dropped(4)] show ?thesis by (simp add: based_def)
next
  case (appended t L ra rp w' s')
  have inv1: "threads_inv (c\<lparr>tc_world := w', tc_threads := s'\<rparr>)" and ra: "ra \<in> store_addrs s'"
    using threads_inv_lookup [OF inv appended(4)] by auto
  have b1: "based h0 (c\<lparr>tc_world := w', tc_threads := s'\<rparr>)" by (rule based_lookup [OF b inv appended(4)])
  have "based h0 (c\<lparr>tc_world := w', tc_threads := s'\<rparr>\<lparr>tc_world :=
           w'\<lparr>w_heap := heap_upd (w_heap w' @ [(mark_direct channel post)\<lparr>post_create_at := t\<rparr>]) ra
             (rp\<lparr>post_replies := post_replies rp @ [length (w_heap w')]\<rparr>)\<rparr>\<rparr>)"
    using based_append_reply [OF b1 inv1] ra appended(5) by simp
  with appended(7) show ?thesis by (simp add: based_def)
qed

lemma handler_outcome_log [simp]: "handler_outcome ch c (c\<lparr>tc_log := lg\<rparr>)"
  by (auto simp: handler_outcome_def)

lemma handler_outcome_refl [simp]: "handler_outcome ch c c"
  using handler_outcome_log [of ch c "tc_log c"] by simp

lemma handler_outcome_add:
  "post_replies p = [] \<Longrightarrow> post_channel_members p = [] \<Longrightarrow> add_post_to_threads orig p ch imp c = Some c' \<Longrightarrow> handler_outcome ch c c'"
  unfolding handler_outcome_def by (metis thread_ctx.update_convs(4) thread_ctx.surjective)

lemma add_attached_post_outcome:
  assumes "add_attached_post env cfg up ch sp author c = Some c'"
  shows "handler_outcome ch c c'"
proof -
  let ?p = "new_post (u_username author) (ch_name ch) (sp_text sp) (env_convert_ts env (sp_timestamp sp))"
  obtain p1 lg1 where af: "attach_files env cfg up sp (?p, tc_log c) = (p1, lg1)" by fastforce
  have l1: "post_replies p1 = []" "post_channel_members p1 = []" using attach_files_links [OF af] by simp_all
  show ?thesis
  proof (cases "attach_props env cfg sp (p1, lg1)")
    case (Inl lg)
    with af assms show ?thesis by (auto simp: add_attached_post_def)
  next
    case (Inr r)
    obtain p2 lg2 where r: "r = (p2, lg2)" by fastforce
    have l2: "post_replies p2 = []" "post_channel_members p2 = []"
      using attach_props_links [OF Inr [unfolded r]] l1 by simp_all
    from assms af Inr r have "add_post_to_threads sp p2 ch (cfg_import_workflow_messages cfg) (c\<lparr>tc_log := lg2\<rparr>) = Some c'"
      by (simp add: add_attached_post_def)
    with l2 show ?thesis unfolding handler_outcome_def by blast
  qed
qed

lemma transform_post_outcome:
  assumes "transform_post env cfg up ch sp (users, c) = Some (users', c')"
  shows "handler_outcome ch c c'"
proof -
  have np: "post_replies (new_post u n m t) = []" "post_channel_members (new_post u n m t) = []" for u n m t
    by simp_all
  show ?thesis
  proof (cases "sp_kind sp")
    case PlainMessage
    with assms show ?thesis
      by (auto simp: transform_post_def handle_plain_def split: if_splits option.splits
          intro: add_attached_post_outcome)
  next
    case FileComment
    with assms show ?thesis
      by (auto simp: transform_post_def handle_file_comment_def split: if_splits option.splits
          intro: handler_outcome_add [OF np(1,2)])
  next
    case BotMessage
    with assms show ?thesis
      by (auto simp: transform_post_def handle_bot_def split: if_splits prod.splits
          intro: add_attached_post_outcome)
  qed (use assms in \<open>auto simp: transform_post_def handle_metadata_def split: if_splits option.splits
          intro: handler_outcome_add [OF np(1,2)]\<close>)
qed

lemma channel_run_preserves:
  assumes "transform_channel_posts env cfg up ch sps (users, c) = Some (users', c')"
    and "P c" and step: "\<And>c c1. P c \<Longrightarrow> handler_outcome ch c c1 \<Longrightarrow> P c1"
  shows "P c'"
  using assms(1,2)
proof (induction sps arbitrary: users c)
  case Nil
  then show ?case by simp
next
  case (Cons sp sps)
  from Cons.prems(1) obtain users1 c1 where st: "transform_post env cfg up ch sp (users, c) = Some (users1, c1)"
    and rest: "transform_channel_posts env cfg up ch sps (users1, c1) = Some (users', c')"
    by (auto split: option.splits)
  from step [OF Cons.prems(2) transform_post_outcome [OF st]] Cons.IH [OF rest] show ?case by blast
qed

lemma outcome_based:
  assumes "threads_inv c \<and> based h0 c" "handler_outcome ch c c1"
  shows "threads_inv c1 \<and> based h0 c1"
proof -
  from assms(2) consider (log) lg where "c1 = c\<lparr>tc_log := lg\<rparr>"
    | (add) orig p imp lg where "post_replies p = []" "add_post_to_threads orig p ch imp (c\<lparr>tc_log := lg\<rparr>) = Some c1"
    unfolding handler_outcome_def by blast
  then show ?thesis
  proof cases
    case log
    with assms(1) show ?thesis by simp
  next
    case add
    have "threads_inv (c\<lparr>tc_log := lg\<rparr>)" "based h0 (c\<lparr>tc_log := lg\<rparr>)" using assms(1) by simp_all
    with add_post_inv [OF _ add] based_add_post [OF _ _ add] show ?thesis by blast
  qed
qed

lemma channel_run_based:
  assumes "transform_channel_posts env cfg up ch sps (users, c) = Some (users', c')"
    and "threads_inv c" "based h0 c"
  shows "threads_inv c' \<and> based h0 c'"
  using channel_run_preserves [OF assms(1), where P = "\<lambda>c. threads_inv c \<and> based h0 c"] assms(2,3)
    outcome_based by blast

lemma changed_in_store: "set (get_changed_threads s) \<subseteq> store_addrs s"
  by (cases s) (auto simp: List.map_filter_def intro: ranI)

lemma out_ok_less: "out_ok h outs \<Longrightarrow> a \<in> set outs \<Longrightarrow> a < length h"
  by (auto simp: out_ok_def flat_root_def dest: deref_Some_less)

lemma out_ok_channel:
  assumes old: "out_ok h0 res" and tk: "take (length h0) h = h0" and len: "length h0 \<le> length h"
    and new: "\<forall>a\<in>set new. flat_root h R a \<and> length h0 \<le> a \<and>
                (\<forall>p. deref h a = Some p \<longrightarrow> (\<forall>r\<in>set (post_replies p). length h0 \<le> r))"
    and sub: "set new \<subseteq> R"
  shows "out_ok h (res @ new)"
  unfolding out_ok_def
proof
  fix a assume a: "a \<in> set (res @ new)"
  show "flat_root h (set (res @ new)) a"
  proof (cases "a \<in> set res")
    case True
    with old obtain p where p: "deref h0 a = Some p"
      and cs: "\<forall>c\<in>set (post_replies p). leaf_post h0 c \<and> c \<notin> set res"
      by (auto simp: out_ok_def flat_root_def)
    have "deref h a = Some p" using deref_take [OF tk] out_ok_less [OF old True] p by simp
    moreover have "leaf_post h c \<and> c \<notin> set (res @ new)" if "c \<in> set (post_replies p)" for c
    proof -
      from cs that have lp: "leaf_post h0 c" and nr: "c \<notin> set res" by auto
      have cl: "c < length h0" using leaf_post_less [OF lp] .
      then have "leaf_post h c" using lp deref_take [OF tk cl] by (simp add: leaf_post_def)
      moreover have "c \<notin> set new" using new cl by fastforce
      ultimately show ?thesis using nr by simp
    qed
    ultimately show ?thesis by (simp add: flat_root_def)
  next
    case False
    with a have an: "a \<in> set new" by simp
    with new obtain p where p: "deref h a = Some p"
      and cs: "\<forall>c\<in>set (post_replies p). leaf_post h c \<and> c \<notin> R"
      and ge: "\<forall>r\<in>set (post_replies p). length h0 \<le> r"
      by (auto simp: flat_root_def)
    have "c \<notin> set res" if "c \<in> set (post_replies p)" for c
      using ge that out_ok_less [OF old] by fastforce
    with cs sub p show ?thesis by (auto simp: flat_root_def)
  qed
qed

lemma fresh_ctx_based:
  assumes "fst (new_channel_threads_storage connect f n rcfg) = Inr s"
  shows "based (w_heap w) \<lparr>tc_world = w, tc_threads = s, tc_timestamps = {}, tc_log = lg\<rparr>"
  using new_channel_threads_storage_cases [OF assms] store_addrs_new by (auto simp: based_def)

lemma channels_outputs:
  assumes "transform_channels_posts env cfg up chans cs (t, res) = Some (Inr (t', res'))"
    and "\<forall>d\<in>ran (w_remote (t_world t)). flat_doc d" and "out_ok (w_heap (t_world t)) res"
  shows "out_ok (w_heap (t_world t')) res' \<and> (\<forall>d\<in>ran (w_remote (t_world t')). flat_doc d)"
  using assms
proof (induction cs arbitrary: t res)
  case Nil
  then show ?case by simp
next
  case (Cons np cs)
  obtain n ps where np: "np = (n, ps)" by fastforce
  show ?case
  proof (cases "chans n")
    case None
    with Cons np show ?thesis by simp
  next
    case (Some ch)
    obtain r f where o: "new_channel_threads_storage (env_redis_connect env) (t_redis_factory t) n
                          (cfg_redis_config cfg) = (r, f)" by fastforce
    show ?thesis
    proof (cases r)
      case (Inl e)
      with Cons.prems(1) Some o np show ?thesis by simp
    next
      case (Inr s)
      let ?c0 = "\<lparr>tc_world = t_world t, tc_threads = s, tc_timestamps = {}, tc_log = t_log t\<rparr>"
      let ?h0 = "w_heap (t_world t)"
      have fs: "fst (new_channel_threads_storage (env_redis_connect env) (t_redis_factory t) n
                    (cfg_redis_config cfg)) = Inr s" using o Inr by simp
      have inv0: "threads_inv ?c0" by (rule fresh_ctx_inv [OF fs Cons.prems(2)])
      have b0: "based ?h0 ?c0" using fresh_ctx_based [OF fs, of "t_world t"] by simp
      from Cons.prems(1) Some o Inr np obtain users' c' where
        run: "transform_channel_posts env cfg up ch (sort_posts env ps) (i_users (t_intermediate t), ?c0)
                = Some (users', c')"
        and rest: "transform_channels_posts env cfg up chans cs
                (t\<lparr>t_intermediate := (t_intermediate t)\<lparr>i_users := users'\<rparr>, t_world := tc_world c',
                    t_redis_factory := f, t_log := tc_log c'\<rparr>, res @ get_changed_threads (tc_threads c'))
                = Some (Inr (t', res'))"
        by (auto split: option.splits)
      from channel_run_based [OF run inv0 b0] have inv': "threads_inv c'" and b': "based ?h0 c'" by blast+
      let ?h = "w_heap (tc_world c')" and ?R = "store_addrs (tc_threads c')"
      have "out_ok ?h (res @ get_changed_threads (tc_threads c'))"
        apply (rule out_ok_channel [where R = "store_addrs (tc_threads c')", OF Cons.prems(3)])
        using b' inv' changed_in_store [of "tc_threads c'"] by (auto simp: based_def threads_inv_def)
      moreover have "\<forall>d\<in>ran (w_remote (tc_world c')). flat_doc d" using inv' by (simp add: threads_inv_def)
      ultimately show ?thesis using Cons.IH [OF rest] by simp
    qed
  qed
qed

text \<open>
  Claim C7: for every run of \<open>Transform\<close> that converts posts, if the Redis documents it
  starts from are flat, then every root in the output list is a live post whose replies
  are live leaves and not themselves output roots, and it serialises to JSON.
\<close>

theorem transform_outputs_flat:
  assumes "transform env cfg export t = Some (Inr t')"
    and "\<forall>d\<in>ran (w_remote (t_world t)). flat_doc d"
    and "\<not> cfg_skip_posts cfg"
  shows "\<forall>a\<in>set (i_posts (t_intermediate t')).
           flat_root (w_heap (t_world t')) (set (i_posts (t_intermediate t'))) a \<and>
           serialize (w_heap (t_world t')) a \<noteq> None"
proof -
  obtain t2 where tp: "transform_posts env cfg export t2 = Some (Inr t')" and w2: "t_world t2 = t_world t"
    using assms(1,3) by (cases "cfg_skip_channels cfg") (auto simp: transform_def Let_def)
  from tp obtain t'' res where
    run: "transform_channels_posts env cfg (se_uploads export)
            (build_channels_by_original_name_map (t_intermediate t2)) (se_posts export) (t2, []) = Some (Inr (t'', res))"
    and t': "t' = t''\<lparr>t_intermediate := (t_intermediate t'')\<lparr>i_posts := res\<rparr>\<rparr>"
    by (auto simp: transform_posts_def split: option.splits sum.splits)
  have "out_ok (w_heap (t_world t'')) res"
    using channels_outputs [OF run] assms(2) w2 by (simp add: out_ok_def)
  then show ?thesis using flat_root_serialize by (auto simp: out_ok_def t')
qed

lemma spec_export_sel:
  "se_users spec_export = [alice_slack]" "se_posts spec_export = se_posts spec_example"
  "se_uploads spec_export = Map.empty" "su_id alice_slack = ''U1''"
  by (simp_all add: spec_export_def spec_example_def alice_slack_def)

lemma import_alice: "import_user False [] alice_slack = demo_user ''U1'' ''alice''"
  by (simp add: import_user_def sanitise_user_def alice_slack_def demo_user_def limit_defs)

lemma spec_export_transform:
  "map_option (map_sum id (\<lambda>t. map (\<lambda>a. map_option (\<lambda>p. (post_message p, length (post_replies p)))
       (deref (w_heap (t_world t)) a)) (i_posts (t_intermediate t))))
     (transform demo_env spec_cfg spec_export demo_transformer) = Some (Inr [Some (''c'', 1)])"
  by (simp add: transform_def spec_cfg_def transform_users_def spec_export_sel import_alice
      pipeline_defs demo_defs sort_spec_example
      next_free_ts_step deref_def heap_upd_def workflow_user_name_def sanitise_post_def
      posgresql_max_post_size_def)

lemma spec_export_run:
  "transform demo_env spec_cfg spec_export demo_transformer = Some (Inr spec_run)"
proof (cases "transform demo_env spec_cfg spec_export demo_transformer")
  case None
  with spec_export_transform show ?thesis by simp
next
  case (Some r)
  with spec_export_transform show ?thesis by (cases r) (simp_all add: spec_run_def)
qed

lemma spec_run_posts: "i_posts (t_intermediate spec_run) \<noteq> []"
  using spec_export_transform unfolding spec_export_run by auto

theorem transform_outputs_flat_witness:
  "transform demo_env spec_cfg spec_export demo_transformer = Some (Inr spec_run) \<and>
   ran (w_remote (t_world demo_transformer)) = {} \<and> \<not> cfg_skip_posts spec_cfg \<and>
   i_posts (t_intermediate spec_run) \<noteq> [] \<and>
   flat_root (w_heap (t_world spec_run)) (set (i_posts (t_intermediate spec_run)))
     (hd (i_posts (t_intermediate spec_run))) \<and>
   serialize (w_heap (t_world spec_run)) (hd (i_posts (t_intermediate spec_run))) \<noteq> None"
proof -
  have "\<forall>a\<in>set (i_posts (t_intermediate spec_run)).
          flat_root (w_heap (t_world spec_run)) (set (i_posts (t_intermediate spec_run))) a \<and>
          serialize (w_heap (t_world spec_run)) a \<noteq> None"
    by (rule transform_outputs_flat [OF spec_export_run])
       (simp_all add: demo_transformer_def spec_cfg_def demo_cfg_def)
  then show ?thesis
    using spec_export_run spec_run_posts hd_in_set [OF spec_run_posts]
    by (simp add: demo_transformer_def spec_cfg_def demo_cfg_def)
qed

end
