(* ===== verification/ChannelStamps.thy ===== *)
theory ChannelStamps
  imports Output
begin

text \<open>
  Creation times are unique within a channel. \<open>AddPostToThreads\<close> reserves every
  post's \<open>CreateAt\<close> in the channel's timestamp ledger before it classifies the post.
  With the in-memory store, every post reachable from the store at the end of a channel
  was allocated during that channel. \<open>stamps_inv n\<close> states this for the heap above
  address \<open>n\<close>: the stored roots and their replies lie above \<open>n\<close>, and the creation
  times of the posts above \<open>n\<close> are distinct and all in the ledger. Each handler of
  \<open>TransformPosts\<close> keeps it (\<open>stamps_outcome\<close>), so the threads a channel emits
  (\<open>thread_addrs\<close>: roots and their replies) carry pairwise distinct creation times.
  A Redis store is excluded: a thread fetched from the backend was stamped by an earlier
  run with a different ledger. The same argument gives the typing of the direct flag
  (\<open>direct_inv\<close>, \<open>typed_for\<close>). Every post a channel run creates is marked direct exactly
  when the channel is a direct or group channel. It then carries the channel's member
  usernames, and otherwise no members.
\<close>

definition stamps_inv :: "nat \<Rightarrow> thread_ctx \<Rightarrow> bool" where
  "stamps_inv n c \<longleftrightarrow>
     n \<le> length (w_heap (tc_world c)) \<and> (\<exists>m. tc_threads c = MemoryStorage m) \<and>
     (\<forall>a\<in>store_addrs (tc_threads c). n \<le> a \<and> a < length (w_heap (tc_world c)) \<and>
        (\<forall>r\<in>set (post_replies (w_heap (tc_world c) ! a)). n \<le> r \<and> r < length (w_heap (tc_world c)))) \<and>
     distinct (map post_create_at (drop n (w_heap (tc_world c)))) \<and>
     set (map post_create_at (drop n (w_heap (tc_world c)))) \<subseteq> tc_timestamps c"

definition thread_addrs :: "heap \<Rightarrow> addr set \<Rightarrow> addr set" where
  "thread_addrs h R = R \<union> (\<Union>a\<in>R. set (post_replies (h ! a)))"

definition typed_for :: "ichannel \<Rightarrow> ipost \<Rightarrow> bool" where
  "typed_for ch p \<longleftrightarrow>
     post_is_direct p = (ch_type ch = ChannelTypeDirect \<or> ch_type ch = ChannelTypeGroup) \<and>
     post_channel_members p = (if ch_type ch = ChannelTypeDirect \<or> ch_type ch = ChannelTypeGroup
                                then ch_members_usernames ch else [])"

definition direct_inv :: "ichannel \<Rightarrow> nat \<Rightarrow> heap \<Rightarrow> bool" where
  "direct_inv ch n h \<longleftrightarrow> (\<forall>a. n \<le> a \<longrightarrow> a < length h \<longrightarrow> typed_for ch (h ! a))"

definition stamps_ctx :: thread_ctx where
  "stamps_ctx = \<lparr>tc_world = \<lparr>w_heap = [], w_remote = Map.empty\<rparr>, tc_threads = new_memory_storage,
     tc_timestamps = {}, tc_log = []\<rparr>"

definition stamps_posts :: "slack_post list" where
  "stamps_posts = [slack_msg ''10'' [] ''a'', slack_msg ''10'' [] ''c'', slack_msg ''15'' ''10'' ''b'']"

definition stamps_run :: "(string \<rightharpoonup> iuser) \<times> thread_ctx" where
  "stamps_run = the (transform_channel_posts demo_env demo_cfg Map.empty demo_general stamps_posts
     (demo_users, stamps_ctx))"

lemma stamps_inv_log [simp]: "stamps_inv n (c\<lparr>tc_log := lg\<rparr>) = stamps_inv n c"
  by (simp add: stamps_inv_def)

lemma stamps_snoc:
  assumes "n \<le> length h" "distinct (map post_create_at (drop n h))"
    and "set (map post_create_at (drop n h)) \<subseteq> L" "post_create_at q = t" "t \<notin> L"
  shows "distinct (map post_create_at (drop n (h @ [q])))"
    and "set (map post_create_at (drop n (h @ [q]))) \<subseteq> insert t L"
  using assms by auto

lemma stamps_heap_upd:
  assumes "post_create_at p = post_create_at (h ! r)"
  shows "map post_create_at (heap_upd h r p) = map post_create_at h"
proof (cases "r < length h")
  case True
  then show ?thesis using assms list_update_id [of "map post_create_at h" r]
    by (simp add: heap_upd_def map_update)
qed (simp add: heap_upd_def list_update_beyond)

lemma stamps_drop_heap_upd:
  assumes "post_create_at p = post_create_at (h ! r)"
  shows "map post_create_at (drop n (heap_upd h r p)) = map post_create_at (drop n h)"
  using stamps_heap_upd [OF assms] by (metis drop_map)

lemma stamps_inv_store:
  assumes "stamps_inv n c" "tc_threads c = MemoryStorage m" "a \<in> ran m"
  shows "n \<le> a" "a < length (w_heap (tc_world c))"
    "r \<in> set (post_replies (w_heap (tc_world c) ! a)) \<Longrightarrow> n \<le> r \<and> r < length (w_heap (tc_world c))"
  using assms by (auto simp: stamps_inv_def)

lemma stamps_add_root:
  assumes inv: "stamps_inv n c" and mem: "tc_threads c = MemoryStorage m"
    and t: "t \<notin> tc_timestamps c" "post_create_at q = t" "post_replies q = []"
  shows "stamps_inv n (c\<lparr>tc_timestamps := insert t (tc_timestamps c),
            tc_world := (tc_world c)\<lparr>w_heap := w_heap (tc_world c) @ [q]\<rparr>,
            tc_threads := MemoryStorage (m(k \<mapsto> length (w_heap (tc_world c)))), tc_log := lg\<rparr>)"
proof -
  let ?h = "w_heap (tc_world c)"
  have "\<forall>a\<in>ran (m(k \<mapsto> length ?h)). n \<le> a \<and> a < length (?h @ [q]) \<and>
          (\<forall>r\<in>set (post_replies ((?h @ [q]) ! a)). n \<le> r \<and> r < length (?h @ [q]))"
  proof
    fix a assume "a \<in> ran (m(k \<mapsto> length ?h))"
    then have "a = length ?h \<or> a \<in> ran m" using ran_upd_subset by fastforce
    then show "n \<le> a \<and> a < length (?h @ [q]) \<and>
          (\<forall>r\<in>set (post_replies ((?h @ [q]) ! a)). n \<le> r \<and> r < length (?h @ [q]))"
    proof
      assume "a = length ?h"
      then show ?thesis using inv t(3) by (simp add: stamps_inv_def)
    next
      assume a: "a \<in> ran m"
      note s = stamps_inv_store [OF inv mem a]
      show ?thesis using s(1,2) s(3) by (fastforce simp: nth_append)
    qed
  qed
  then show ?thesis using inv stamps_snoc [OF _ _ _ t(2,1)] by (auto simp: stamps_inv_def)
qed

lemma stamps_add_reply:
  assumes inv: "stamps_inv n c" and mem: "tc_threads c = MemoryStorage m" and ra: "ra \<in> ran m"
    and t: "t \<notin> tc_timestamps c" "post_create_at q = t"
  shows "stamps_inv n (c\<lparr>tc_timestamps := insert t (tc_timestamps c),
            tc_world := (tc_world c)\<lparr>w_heap := heap_upd (w_heap (tc_world c) @ [q]) ra
              ((w_heap (tc_world c) ! ra)\<lparr>post_replies := post_replies (w_heap (tc_world c) ! ra) @
                 [length (w_heap (tc_world c))]\<rparr>)\<rparr>\<rparr>)"
proof -
  let ?h = "w_heap (tc_world c)"
  let ?rp = "(?h ! ra)\<lparr>post_replies := post_replies (?h ! ra) @ [length ?h]\<rparr>"
  let ?h' = "heap_upd (?h @ [q]) ra ?rp"
  note sr = stamps_inv_store [OF inv mem ra]
  have same: "post_create_at ?rp = post_create_at ((?h @ [q]) ! ra)" using sr(2) by (simp add: nth_append)
  have nth': "\<And>a. a < length ?h \<Longrightarrow> ?h' ! a = (if a = ra then ?rp else ?h ! a)"
    using sr(2) by (simp add: heap_upd_def nth_list_update nth_append)
  have "\<forall>a\<in>ran m. n \<le> a \<and> a < length ?h' \<and>
          (\<forall>r\<in>set (post_replies (?h' ! a)). n \<le> r \<and> r < length ?h')"
  proof
    fix a assume a: "a \<in> ran m"
    note s = stamps_inv_store [OF inv mem a]
    show "n \<le> a \<and> a < length ?h' \<and> (\<forall>r\<in>set (post_replies (?h' ! a)). n \<le> r \<and> r < length ?h')"
    proof (cases "a = ra")
      case True
      then show ?thesis using s inv nth' [OF s(2)] by (fastforce simp: stamps_inv_def heap_simps)
    next
      case False
      then show ?thesis using s nth' [OF s(2)] by (fastforce simp: heap_simps)
    qed
  qed
  moreover have "distinct (map post_create_at (drop n (?h @ [q]))) \<and>
      set (map post_create_at (drop n (?h @ [q]))) \<subseteq> insert t (tc_timestamps c)"
    using inv stamps_snoc [OF _ _ _ t(2,1)] by (auto simp: stamps_inv_def)
  ultimately show ?thesis using inv mem
    by (simp add: stamps_inv_def stamps_drop_heap_upd [OF same] heap_simps)
qed

lemma stamps_add_post:
  assumes res: "add_post_to_threads orig post ch imp c = Some c'"
    and inv: "stamps_inv n c" and nr: "post_replies post = []"
  shows "stamps_inv n c'"
proof -
  obtain m where mem: "tc_threads c = MemoryStorage m" using inv by (auto simp: stamps_inv_def)
  from res show ?thesis
  proof (cases rule: add_post_to_threads_cases)
    case (root t L w' s')
    from reserve_ts_fresh [OF root(1)] have tL: "t \<notin> tc_timestamps c" "L = insert t (tc_timestamps c)" by auto
    from root(3) mem have "w' = (tc_world c)\<lparr>w_heap := w_heap (tc_world c) @
        [sanitise_post ((mark_direct ch post)\<lparr>post_create_at := t\<rparr>)]\<rparr>"
      "s' = MemoryStorage (m(sp_timestamp orig \<mapsto> length (w_heap (tc_world c))))" by auto
    with root(4) tL stamps_add_root [OF inv mem tL(1), where q = "sanitise_post ((mark_direct ch post)\<lparr>post_create_at := t\<rparr>)"
        and k = "sp_timestamp orig"] nr
    show ?thesis by simp
  next
    case (missing t L w' s')
    from reserve_ts_fresh [OF missing(1)] missing(4,5) mem inv show ?thesis by (auto simp: stamps_inv_def)
  next
    case (dropped t L ra rp w' s')
    from reserve_ts_fresh [OF dropped(1)] dropped(4,8) mem inv show ?thesis by (auto simp: stamps_inv_def)
  next
    case (appended t L ra rp w' s')
    from reserve_ts_fresh [OF appended(1)] have tL: "t \<notin> tc_timestamps c" "L = insert t (tc_timestamps c)" by auto
    from appended(4) mem have w': "w' = tc_world c" "s' = tc_threads c" and ra: "ra \<in> ran m" by (auto intro: ranI)
    have "rp = w_heap (tc_world c) ! ra"
      using appended(5) w' stamps_inv_store (2) [OF inv mem ra] by (simp add: deref_def)
    with appended(7) w' tL stamps_add_reply [OF inv mem ra tL(1), where q = "(mark_direct ch post)\<lparr>post_create_at := t\<rparr>"]
    show ?thesis by simp
  qed
qed

lemma stamps_outcome:
  assumes "stamps_inv n c" "handler_outcome ch c c1"
  shows "stamps_inv n c1"
  using assms stamps_add_post [of _ _ ch _ "c\<lparr>tc_log := lg\<rparr>" c1 n for lg]
  unfolding handler_outcome_def by auto

lemma stamps_fresh:
  "tc_threads c = new_memory_storage \<Longrightarrow> stamps_inv (length (w_heap (tc_world c))) c"
  by (simp add: stamps_inv_def new_memory_storage_def)

lemma thread_addrs_new:
  assumes "stamps_inv n c"
  shows "thread_addrs (w_heap (tc_world c)) (set (get_changed_threads (tc_threads c)))
           \<subseteq> {n..<length (w_heap (tc_world c))}"
proof -
  obtain m where mem: "tc_threads c = MemoryStorage m" using assms by (auto simp: stamps_inv_def)
  have "set (get_changed_threads (tc_threads c)) \<subseteq> ran m" using changed_in_store [of "tc_threads c"] mem by simp
  then show ?thesis using stamps_inv_store [OF assms mem] by (fastforce simp: thread_addrs_def)
qed

text \<open>
  Claim C8: spec 3 says the ledger guarantees creation-time uniqueness within a channel.
  Run the posts of one channel through \<open>TransformPosts\<close>' handlers, starting from a
  fresh in-memory store. Then every root the store emits and every reply of it was
  created in this run, and no two of them share a creation time.
\<close>

theorem channel_create_at_distinct:
  assumes run: "transform_channel_posts env cfg up ch sps (users, c) = Some (users', c')"
    and mem: "tc_threads c = new_memory_storage"
  shows "thread_addrs (w_heap (tc_world c')) (set (get_changed_threads (tc_threads c')))
           \<subseteq> {length (w_heap (tc_world c))..<length (w_heap (tc_world c'))} \<and>
         inj_on (\<lambda>a. post_create_at (w_heap (tc_world c') ! a))
           (thread_addrs (w_heap (tc_world c')) (set (get_changed_threads (tc_threads c'))))"
proof -
  let ?n = "length (w_heap (tc_world c))"
  have inv: "stamps_inv ?n c'"
    using channel_run_preserves [OF run, where P = "stamps_inv ?n"] stamps_fresh [OF mem] stamps_outcome
    by blast
  then have "distinct (map post_create_at (drop ?n (w_heap (tc_world c'))))" by (simp add: stamps_inv_def)
  with thread_addrs_new [OF inv] distinct_drop_inj show ?thesis by blast
qed

lemma stamps_run_eq:
  "transform_channel_posts demo_env demo_cfg Map.empty demo_general stamps_posts (demo_users, stamps_ctx)
     = Some (fst stamps_run, snd stamps_run)"
  by (simp add: stamps_run_def stamps_posts_def stamps_ctx_def pipeline_defs demo_defs next_free_ts_step
      deref_def heap_upd_def workflow_user_name_def sanitise_post_def posgresql_max_post_size_def)

lemma stamps_run_addrs:
  "thread_addrs (w_heap (tc_world (snd stamps_run))) (set (get_changed_threads (tc_threads (snd stamps_run))))
     = {1, 2}"
  by (simp add: stamps_run_def stamps_posts_def stamps_ctx_def pipeline_defs demo_defs next_free_ts_step
      deref_def heap_upd_def workflow_user_name_def sanitise_post_def posgresql_max_post_size_def
      thread_addrs_def) auto

theorem channel_create_at_distinct_witness:
  "transform_channel_posts demo_env demo_cfg Map.empty demo_general stamps_posts (demo_users, stamps_ctx)
     = Some (fst stamps_run, snd stamps_run) \<and> tc_threads stamps_ctx = new_memory_storage \<and>
   thread_addrs (w_heap (tc_world (snd stamps_run))) (set (get_changed_threads (tc_threads (snd stamps_run))))
     = {1, 2} \<and>
   inj_on (\<lambda>a. post_create_at (w_heap (tc_world (snd stamps_run)) ! a)) {1, 2}"
  using channel_create_at_distinct [OF stamps_run_eq] stamps_run_eq stamps_run_addrs
  by (simp add: stamps_ctx_def)

lemma typed_for_mark [simp]:
  "post_channel_members p = [] \<Longrightarrow> typed_for ch (mark_direct ch p\<lparr>post_create_at := t\<rparr>)"
  "typed_for ch (sanitise_post q) = typed_for ch q"
  "typed_for ch (q\<lparr>post_replies := rs\<rparr>) = typed_for ch q"
  by (simp_all add: typed_for_def)

lemma direct_inv_snoc:
  "direct_inv ch n h \<Longrightarrow> typed_for ch q \<Longrightarrow> direct_inv ch n (h @ [q])"
  by (auto simp: direct_inv_def nth_append less_Suc_eq)

lemma direct_inv_upd:
  "direct_inv ch n h \<Longrightarrow> r < length h \<Longrightarrow> typed_for ch q = typed_for ch (h ! r) \<Longrightarrow>
     direct_inv ch n (heap_upd h r q)"
  by (auto simp: direct_inv_def heap_upd_def nth_list_update)

lemma store_thread_memory_world: "store_thread w (MemoryStorage m) k a = (w', s') \<Longrightarrow> w' = w"
  by simp

lemma direct_add_post:
  assumes res: "add_post_to_threads orig post ch imp c = Some c'"
    and st: "stamps_inv n c" and inv: "direct_inv ch n (w_heap (tc_world c))"
    and nm: "post_channel_members post = []"
  shows "direct_inv ch n (w_heap (tc_world c'))"
proof -
  obtain m where mem: "tc_threads c = MemoryStorage m" using st by (auto simp: stamps_inv_def)
  from res show ?thesis
  proof (cases rule: add_post_to_threads_cases)
    case (root t L w' s')
    have "w_heap w' = w_heap (tc_world c) @ [sanitise_post ((mark_direct ch post)\<lparr>post_create_at := t\<rparr>)]"
      using store_thread_memory_world [OF root(3) [unfolded mem]] by simp
    with root(4) inv nm show ?thesis by (simp add: direct_inv_snoc)
  next
    case (missing t L w' s')
    with mem inv show ?thesis by simp
  next
    case (dropped t L ra rp w' s')
    with mem inv show ?thesis by simp
  next
    case (appended t L ra rp w' s')
    from appended(4) mem have w': "w' = tc_world c" and ra: "ra \<in> ran m" by (auto intro: ranI)
    have rl: "ra < length (w_heap (tc_world c))" using stamps_inv_store (2) [OF st mem ra] .
    with appended(5) w' have rp: "rp = w_heap (tc_world c) ! ra" by (simp add: deref_def)
    have "direct_inv ch n (w_heap (tc_world c) @ [(mark_direct ch post)\<lparr>post_create_at := t\<rparr>])"
      using inv nm by (simp add: direct_inv_snoc)
    then show ?thesis using appended(7) w' rp rl
      by (auto intro!: direct_inv_upd simp: nth_append)
  qed
qed

lemma typed_outcome:
  assumes "stamps_inv n c \<and> direct_inv ch n (w_heap (tc_world c))" "handler_outcome ch c c1"
  shows "stamps_inv n c1 \<and> direct_inv ch n (w_heap (tc_world c1))"
proof -
  have "stamps_inv n c1" using stamps_outcome assms by blast
  moreover from assms(2) consider (log) lg where "c1 = c\<lparr>tc_log := lg\<rparr>"
    | (add) orig p imp lg where "post_channel_members p = []"
        "add_post_to_threads orig p ch imp (c\<lparr>tc_log := lg\<rparr>) = Some c1"
    unfolding handler_outcome_def by blast
  then have "direct_inv ch n (w_heap (tc_world c1))"
  proof cases
    case log
    with assms(1) show ?thesis by simp
  next
    case add
    from assms(1) have "stamps_inv n (c\<lparr>tc_log := lg\<rparr>)" "direct_inv ch n (w_heap (tc_world (c\<lparr>tc_log := lg\<rparr>)))"
      by simp_all
    from direct_add_post [OF add(2) this add(1)] show ?thesis .
  qed
  ultimately show ?thesis by blast
qed

text \<open>
  Claim C9: spec 3 gives a post the resolved member names only when its direct flag is
  set. Run the posts of one channel from a fresh in-memory store. Then every root and
  reply the store emits is marked direct exactly when the channel is a direct or group
  channel. It carries the channel's member usernames in that case and no members
  otherwise.
\<close>

theorem channel_posts_typed:
  assumes run: "transform_channel_posts env cfg up ch sps (users, c) = Some (users', c')"
    and mem: "tc_threads c = new_memory_storage"
  shows "\<forall>a\<in>thread_addrs (w_heap (tc_world c')) (set (get_changed_threads (tc_threads c'))).
           post_is_direct (w_heap (tc_world c') ! a) = (ch_type ch = ChannelTypeDirect \<or> ch_type ch = ChannelTypeGroup) \<and>
           post_channel_members (w_heap (tc_world c') ! a) =
             (if ch_type ch = ChannelTypeDirect \<or> ch_type ch = ChannelTypeGroup then ch_members_usernames ch else [])"
proof -
  let ?n = "length (w_heap (tc_world c))"
  let ?P = "\<lambda>c. stamps_inv ?n c \<and> direct_inv ch ?n (w_heap (tc_world c))"
  have p0: "?P c" using stamps_fresh [OF mem] by (simp add: direct_inv_def)
  have step: "\<And>c c1. ?P c \<Longrightarrow> handler_outcome ch c c1 \<Longrightarrow> ?P c1" by (rule typed_outcome)
  have inv: "?P c'" using channel_run_preserves [where P = ?P, OF run p0] step by blast
  with thread_addrs_new [of ?n c'] show ?thesis by (fastforce simp: direct_inv_def typed_for_def)
qed

theorem channel_posts_typed_witness:
  "transform_channel_posts demo_env demo_cfg Map.empty demo_general stamps_posts (demo_users, stamps_ctx)
     = Some (fst stamps_run, snd stamps_run) \<and> tc_threads stamps_ctx = new_memory_storage \<and>
   ch_type demo_general = ChannelTypeOpen \<and>
   1 \<in> thread_addrs (w_heap (tc_world (snd stamps_run))) (set (get_changed_threads (tc_threads (snd stamps_run)))) \<and>
   \<not> post_is_direct (w_heap (tc_world (snd stamps_run)) ! 1) \<and>
   post_channel_members (w_heap (tc_world (snd stamps_run)) ! 1) = []"
proof -
  have one: "1 \<in> thread_addrs (w_heap (tc_world (snd stamps_run))) (set (get_changed_threads (tc_threads (snd stamps_run))))"
    using stamps_run_addrs by simp
  have ty: "ch_type demo_general = ChannelTypeOpen" by (simp add: demo_general_def)
  from bspec [OF channel_posts_typed [OF stamps_run_eq] one] stamps_run_eq one ty show ?thesis
    by (simp add: stamps_ctx_def)
qed

end
