(* ===== verification/Command.thy ===== *)
theory Command
  imports Output
begin

text \<open>
  The command \<open>transform slack\<close> (src/commands/transform.go). \<open>init\<close> declares the
  flags and their defaults (\<open>default_flags\<close>), two of them required. \<open>transformSlackCmdF\<close>
  checks the output path and the attachments directory, opens the export archive, parses
  it, runs \<open>Transform\<close> with a configuration built from the flags, and exports the
  result. The operating system is an explicit \<open>os_world\<close>: the file-system entries that
  \<open>os.Stat\<close> sees, the paths where a call fails, the entries of each zip archive, the
  contents of the Redis server and the files the export writes. \<open>ParseSlackExportFile\<close>
  and \<open>Export\<close> are not under src/ and are parameters of \<open>cmd_env\<close>. \<open>Export\<close>
  reports one of three outcomes: it could not create the output file, it created
  (and so truncated) the file and then failed while writing, or it wrote the whole
  export. \<open>zip.NewReader\<close> of the standard library is \<open>zip_new_reader\<close>: on success
  its \<open>File\<close> slice is allocated, possibly empty, and never \<open>nil\<close>. A Go early return
  is a \<open>cmd_step\<close>: \<open>Fail\<close> for \<open>return err\<close> with an error, \<open>Done\<close> for a return
  with a nil error, \<open>Continue\<close> to go on.
\<close>

record cmd_flags =
  fl_team :: string
  fl_file :: string
  fl_output :: string
  fl_attachments_dir :: string
  fl_skip_convert_posts :: bool
  fl_skip_attachments :: bool
  fl_discard_invalid_props :: bool
  fl_debug :: bool
  fl_auth_data_as_email :: bool
  fl_auth_service :: string
  fl_redis_endpoint :: string
  fl_redis_login :: string
  fl_redis_password :: string
  fl_import_workflow_messages :: bool
  fl_skip_posts :: bool
  fl_skip_channels :: bool

definition default_flags :: cmd_flags where
  "default_flags = \<lparr>fl_team = [], fl_file = [], fl_output = ''bulk-export.jsonl'',
     fl_attachments_dir = ''bulk-export-attachments'', fl_skip_convert_posts = False,
     fl_skip_attachments = False, fl_discard_invalid_props = False, fl_debug = True,
     fl_auth_data_as_email = False, fl_auth_service = [], fl_redis_endpoint = [],
     fl_redis_login = [], fl_redis_password = [], fl_import_workflow_messages = False,
     fl_skip_posts = False, fl_skip_channels = False\<rparr>"

definition required_flags :: "string list" where
  "required_flags = [''team'', ''file'']"

datatype fs_entry = FsFile | FsDir

datatype written_file = ExportedFile intermediate | TruncatedFile

datatype stat_result = StatOk fs_entry | StatNotExist | StatErr string

record os_world =
  os_fs :: "string \<rightharpoonup> fs_entry"
  os_stat_err :: "string \<rightharpoonup> string"
  os_mkdir_err :: "string \<rightharpoonup> string"
  os_open_err :: "string \<rightharpoonup> string"
  os_zip :: "string \<rightharpoonup> string list"
  os_redis :: remote
  os_written :: "string \<rightharpoonup> written_file"

definition os_stat :: "os_world \<Rightarrow> string \<Rightarrow> stat_result" where
  "os_stat w p = (case os_stat_err w p of
                    Some e \<Rightarrow> StatErr e
                  | None \<Rightarrow> (case os_fs w p of None \<Rightarrow> StatNotExist | Some k \<Rightarrow> StatOk k))"

datatype cmd_error =
    UnexpectedArgs "string list"
  | RequiredFlagMissing string
  | CmdStatError string
  | OutputIsDirectory string
  | CmdMkdirError string
  | NotADirectory string
  | CmdOpenError string
  | CmdZipError
  | CmdParseError string
  | CmdTransformError transform_error
  | CmdExportError string

datatype 'a cmd_step = Fail cmd_error | Done | Continue 'a

datatype export_result = ExportCreateFailed string | ExportWriteFailed string | ExportOk

record zip_reader =
  zr_file :: "string list option"

record cmd_env =
  ce_env :: ext_env
  ce_parse :: "bool \<Rightarrow> string list \<Rightarrow> string + slack_export"
  ce_export :: "transformer \<Rightarrow> string \<Rightarrow> export_result"

definition new_transformer :: "remote \<Rightarrow> transformer" where
  "new_transformer r = \<lparr>t_intermediate = \<lparr>i_public = [], i_private = [], i_group = [], i_direct = [],
       i_users = Map.empty, i_posts = []\<rparr>,
     t_world = \<lparr>w_heap = [], w_remote = r\<rparr>, t_redis_factory = None, t_log = []\<rparr>"

definition check_output_path :: "cmd_flags \<Rightarrow> os_world \<Rightarrow> unit cmd_step" where
  "check_output_path fl w =
     (case os_stat w (fl_output fl) of
        StatErr e \<Rightarrow> Fail (CmdStatError e)
      | StatOk FsDir \<Rightarrow> Fail (OutputIsDirectory (fl_output fl))
      | _ \<Rightarrow> Continue ())"

definition ensure_attachments_dir :: "cmd_flags \<Rightarrow> os_world \<Rightarrow> os_world cmd_step" where
  "ensure_attachments_dir fl w =
     (if fl_skip_attachments fl then Continue w
      else (let d = fl_attachments_dir fl in
            case os_stat w d of
              StatNotExist \<Rightarrow>
                (case os_mkdir_err w d of
                   Some e \<Rightarrow> Fail (CmdMkdirError e)
                 | None \<Rightarrow> Continue (w\<lparr>os_fs := (os_fs w)(d \<mapsto> FsDir)\<rparr>))
            | StatErr e \<Rightarrow> Fail (CmdStatError e)
            | StatOk FsFile \<Rightarrow> Fail (NotADirectory d)
            | StatOk FsDir \<Rightarrow> Continue w))"

definition zip_new_reader :: "os_world \<Rightarrow> string \<Rightarrow> cmd_error + zip_reader" where
  "zip_new_reader w p = (case os_zip w p of
                           None \<Rightarrow> Inl CmdZipError
                         | Some files \<Rightarrow> Inr \<lparr>zr_file = Some files\<rparr>)"

definition open_archive :: "cmd_flags \<Rightarrow> os_world \<Rightarrow> string list cmd_step" where
  "open_archive fl w =
     (let p = fl_file fl in
      case os_open_err w p of
        Some e \<Rightarrow> Fail (CmdOpenError e)
      | None \<Rightarrow>
          (case os_fs w p of
             None \<Rightarrow> Fail (CmdOpenError p)
           | Some _ \<Rightarrow>
               (case zip_new_reader w p of
                  Inl e \<Rightarrow> Fail e
                | Inr zr \<Rightarrow>
                    (case zr_file zr of
                       None \<Rightarrow> Done
                     | Some files \<Rightarrow> Continue files))))"

definition cmd_redis_config :: "cmd_flags \<Rightarrow> redis_config option" where
  "cmd_redis_config fl =
     (if length (fl_redis_endpoint fl) > 0
      then Some \<lparr>rc_addr = fl_redis_endpoint fl, rc_user = fl_redis_login fl,
                 rc_password = fl_redis_password fl\<rparr>
      else None)"

definition cmd_transform_config :: "cmd_flags \<Rightarrow> transform_config" where
  "cmd_transform_config fl =
     \<lparr>cfg_attachments_dir = fl_attachments_dir fl, cfg_skip_attachments = fl_skip_attachments fl,
      cfg_discard_invalid_props = fl_discard_invalid_props fl,
      cfg_auth_data_as_email = fl_auth_data_as_email fl, cfg_auth_service = fl_auth_service fl,
      cfg_import_workflow_messages = fl_import_workflow_messages fl,
      cfg_skip_posts = fl_skip_posts fl, cfg_skip_channels = fl_skip_channels fl,
      cfg_redis_config = cmd_redis_config fl\<rparr>"

definition run_transform :: "cmd_env \<Rightarrow> cmd_flags \<Rightarrow> slack_export \<Rightarrow> os_world \<Rightarrow>
    ((cmd_error + unit) \<times> os_world) option" where
  "run_transform ce fl export w =
     (case transform (ce_env ce) (cmd_transform_config fl) export (new_transformer (os_redis w)) of
        None \<Rightarrow> None
      | Some (Inl e) \<Rightarrow> Some (Inl (CmdTransformError e), w)
      | Some (Inr t) \<Rightarrow>
          (let w' = w\<lparr>os_redis := w_remote (t_world t)\<rparr>; out = fl_output fl in
           case ce_export ce t out of
             ExportCreateFailed e \<Rightarrow> Some (Inl (CmdExportError e), w')
           | ExportWriteFailed e \<Rightarrow>
               Some (Inl (CmdExportError e), w'\<lparr>os_fs := (os_fs w')(out \<mapsto> FsFile),
                                                os_written := (os_written w')(out \<mapsto> TruncatedFile)\<rparr>)
           | ExportOk \<Rightarrow>
               Some (Inr (), w'\<lparr>os_fs := (os_fs w')(out \<mapsto> FsFile),
                               os_written := (os_written w')(out \<mapsto> ExportedFile (t_intermediate t))\<rparr>)))"

definition transform_slack_cmd_f :: "cmd_env \<Rightarrow> cmd_flags \<Rightarrow> os_world \<Rightarrow>
    ((cmd_error + unit) \<times> os_world) option" where
  "transform_slack_cmd_f ce fl w =
     (let skip_convert = (fl_skip_convert_posts fl \<or> fl_skip_posts fl) in
      case check_output_path fl w of
        Fail e \<Rightarrow> Some (Inl e, w)
      | Done \<Rightarrow> Some (Inr (), w)
      | Continue _ \<Rightarrow>
          (case ensure_attachments_dir fl w of
             Fail e \<Rightarrow> Some (Inl e, w)
           | Done \<Rightarrow> Some (Inr (), w)
           | Continue w1 \<Rightarrow>
               (case open_archive fl w1 of
                  Fail e \<Rightarrow> Some (Inl e, w1)
                | Done \<Rightarrow> Some (Inr (), w1)
                | Continue files \<Rightarrow>
                    (case ce_parse ce skip_convert files of
                       Inl e \<Rightarrow> Some (Inl (CmdParseError e), w1)
                     | Inr export \<Rightarrow> run_transform ce fl export w1))))"

definition transform_slack_cmd :: "cmd_env \<Rightarrow> string list \<Rightarrow> string set \<Rightarrow> cmd_flags \<Rightarrow> os_world \<Rightarrow>
    ((cmd_error + unit) \<times> os_world) option" where
  "transform_slack_cmd ce args given fl w =
     (if args \<noteq> [] then Some (Inl (UnexpectedArgs args), w)
      else case filter (\<lambda>f. f \<notin> given) required_flags of
        f # _ \<Rightarrow> Some (Inl (RequiredFlagMissing f), w)
      | [] \<Rightarrow> transform_slack_cmd_f ce fl w)"

subsection \<open>Example inputs\<close>

definition empty_export :: slack_export where
  "empty_export = \<lparr>se_users = [], se_public = [], se_private = [], se_group = [], se_direct = [],
     se_posts = [], se_uploads = Map.empty\<rparr>"

definition demo_cmd_env :: cmd_env where
  "demo_cmd_env = \<lparr>ce_env = demo_env, ce_parse = (\<lambda>skip files. Inr empty_export),
     ce_export = (\<lambda>t path. ExportOk)\<rparr>"

definition demo_flags :: cmd_flags where
  "demo_flags = default_flags\<lparr>fl_team := ''myteam'', fl_file := ''export.zip'', fl_output := ''out.jsonl''\<rparr>"

definition demo_os :: "string list \<Rightarrow> os_world" where
  "demo_os entries = \<lparr>os_fs = [''export.zip'' \<mapsto> FsFile], os_stat_err = Map.empty, os_mkdir_err = Map.empty,
     os_open_err = Map.empty, os_zip = [''export.zip'' \<mapsto> entries], os_redis = Map.empty,
     os_written = Map.empty\<rparr>"

subsection \<open>Lemmas\<close>

lemma ensure_attachments_dir_world:
  assumes "ensure_attachments_dir fl w = Continue w1"
  shows "os_written w1 = os_written w" "os_redis w1 = os_redis w" "os_zip w1 = os_zip w"
    "os_open_err w1 = os_open_err w" "os_fs w p \<noteq> None \<Longrightarrow> os_fs w1 p \<noteq> None"
  using assms by (auto simp: ensure_attachments_dir_def Let_def
      split: if_splits stat_result.splits option.splits fs_entry.splits)

lemma add_post_memory:
  assumes "add_post_to_threads orig p ch imp c = Some c'" "tc_threads c = MemoryStorage m"
  shows "w_remote (tc_world c') = w_remote (tc_world c) \<and> (\<exists>m'. tc_threads c' = MemoryStorage m')"
  by (cases rule: add_post_to_threads_cases [OF assms(1)]) (auto simp: assms(2))

lemma outcome_memory:
  assumes "w_remote (tc_world c) = R \<and> (\<exists>m. tc_threads c = MemoryStorage m)" "handler_outcome ch c c1"
  shows "w_remote (tc_world c1) = R \<and> (\<exists>m. tc_threads c1 = MemoryStorage m)"
proof -
  from assms(2) consider (log) lg where "c1 = c\<lparr>tc_log := lg\<rparr>"
    | (add) orig p imp lg where "add_post_to_threads orig p ch imp (c\<lparr>tc_log := lg\<rparr>) = Some c1"
    unfolding handler_outcome_def by blast
  then show ?thesis
  proof cases
    case log
    with assms(1) show ?thesis by simp
  next
    case add
    from assms(1) obtain m where "tc_threads (c\<lparr>tc_log := lg\<rparr>) = MemoryStorage m" by auto
    from add_post_memory [OF add this] assms(1) show ?thesis by simp
  qed
qed

lemma channels_posts_memory:
  assumes "transform_channels_posts env cfg up chans posts (t, res) = Some (Inr (t', res'))"
    and "cfg_redis_config cfg = None"
  shows "w_remote (t_world t') = w_remote (t_world t)"
  using assms
proof (induction posts arbitrary: t res)
  case Nil
  then show ?case by simp
next
  case (Cons np posts)
  obtain name sps where np: "np = (name, sps)" by fastforce
  show ?case
  proof (cases "chans name")
    case None
    have "transform_channels_posts env cfg up chans posts (t\<lparr>t_log := t_log t @ [ChannelNotFound name]\<rparr>, res)
        = Some (Inr (t', res'))"
      using Cons.prems(1) unfolding np by (simp only: transform_channels_posts.simps None option.case)
    from Cons.IH [OF this Cons.prems(2)] show ?thesis by simp
  next
    case (Some ch)
    have ns: "new_channel_threads_storage (env_redis_connect env) (t_redis_factory t) name (cfg_redis_config cfg)
        = (Inr new_memory_storage, t_redis_factory t)"
      by (simp add: new_channel_threads_storage_def Cons.prems(2))
    let ?c0 = "\<lparr>tc_world = t_world t, tc_threads = new_memory_storage, tc_timestamps = {}, tc_log = t_log t\<rparr>"
    obtain users c where
      run: "transform_channel_posts env cfg up ch (sort_posts env sps) (i_users (t_intermediate t), ?c0)
              = Some (users, c)"
      using Cons.prems(1) by (cases "transform_channel_posts env cfg up ch (sort_posts env sps)
              (i_users (t_intermediate t), ?c0)") (auto simp: np Some ns)
    have rest: "transform_channels_posts env cfg up chans posts
              (t\<lparr>t_intermediate := (t_intermediate t)\<lparr>i_users := users\<rparr>, t_world := tc_world c,
                 t_redis_factory := t_redis_factory t, t_log := tc_log c\<rparr>,
               res @ get_changed_threads (tc_threads c)) = Some (Inr (t', res'))"
      using Cons.prems(1) by (simp add: np Some ns run)
    let ?P = "\<lambda>c. w_remote (tc_world c) = w_remote (t_world t) \<and> (\<exists>m. tc_threads c = MemoryStorage m)"
    have p0: "?P ?c0" by (simp add: new_memory_storage_def)
    have step: "\<And>c c1. ?P c \<Longrightarrow> handler_outcome ch c c1 \<Longrightarrow> ?P c1" by (rule outcome_memory)
    have "w_remote (tc_world c) = w_remote (t_world t)"
      using channel_run_preserves [where P = ?P, OF run p0] step by blast
    with Cons.IH [OF rest Cons.prems(2)] show ?thesis by simp
  qed
qed

lemma transform_memory_remote:
  assumes "transform env cfg export t = Some (Inr t')" "cfg_redis_config cfg = None"
  shows "w_remote (t_world t') = w_remote (t_world t)"
proof (cases "cfg_skip_posts cfg")
  case True
  with assms(1) show ?thesis by (auto simp: transform_def Let_def transform_users_def)
next
  case False
  obtain t2 where tp: "transform_posts env cfg export t2 = Some (Inr t')" and w2: "t_world t2 = t_world t"
    using assms(1) False by (cases "cfg_skip_channels cfg") (auto simp: transform_def Let_def)
  from tp obtain t'' res where
    run: "transform_channels_posts env cfg (se_uploads export)
            (build_channels_by_original_name_map (t_intermediate t2)) (se_posts export) (t2, []) = Some (Inr (t'', res))"
    and t': "t' = t''\<lparr>t_intermediate := (t_intermediate t'')\<lparr>i_posts := res\<rparr>\<rparr>"
    by (auto simp: transform_posts_def split: option.splits sum.splits)
  show ?thesis using channels_posts_memory [OF run assms(2)] w2 t' by simp
qed

lemma channels_posts_no_channel:
  "transform_channels_posts env cfg up Map.empty posts (t, res) =
     Some (Inr (t\<lparr>t_log := t_log t @ map (ChannelNotFound \<circ> fst) posts\<rparr>, res))"
  by (induction posts arbitrary: t) auto

lemma cmd_redis_config_none: "fl_redis_endpoint fl = [] \<Longrightarrow> cfg_redis_config (cmd_transform_config fl) = None"
  by (simp add: cmd_transform_config_def cmd_redis_config_def)

lemma run_transform_cases:
  assumes "run_transform ce fl export w = Some (r, w')"
  obtains (err) e where "r = Inl (CmdTransformError e)" "w' = w"
    | (ran) t where "transform (ce_env ce) (cmd_transform_config fl) export (new_transformer (os_redis w)) = Some (Inr t)"
        "os_redis w' = w_remote (t_world t)"
        "r = Inr () \<and> os_written w' = (os_written w)(fl_output fl \<mapsto> ExportedFile (t_intermediate t)) \<or>
         (\<exists>e. r = Inl (CmdExportError e))"
  using assms by (auto simp: run_transform_def Let_def split: option.splits sum.splits export_result.splits)

lemma cmd_step_not_done [simp]:
  "check_output_path fl w \<noteq> Done" "ensure_attachments_dir fl w \<noteq> Done"
  by (auto simp: check_output_path_def ensure_attachments_dir_def Let_def
      split: stat_result.splits fs_entry.splits option.splits)

lemma open_archive_zip:
  "open_archive fl w \<noteq> Done"
  "open_archive fl w = Continue files \<Longrightarrow> os_zip w (fl_file fl) = Some files"
  by (auto simp: open_archive_def zip_new_reader_def Let_def split: option.splits sum.splits)

lemma cmd_f_cases:
  assumes "transform_slack_cmd_f ce fl w = Some (r, w')"
  obtains (early) e where "os_written w' = os_written w" "os_redis w' = os_redis w" "r = Inl e"
    | (run) w1 files export where "ensure_attachments_dir fl w = Continue w1"
        "os_zip w (fl_file fl) = Some files"
        "ce_parse ce (fl_skip_convert_posts fl \<or> fl_skip_posts fl) files = Inr export"
        "run_transform ce fl export w1 = Some (r, w')"
        "os_written w1 = os_written w" "os_redis w1 = os_redis w"
proof -
  note defs = transform_slack_cmd_f_def Let_def
  show ?thesis
  proof (cases "check_output_path fl w")
    case (Fail e)
    with assms show ?thesis using early by (auto simp: defs)
  next
    case Done
    then show ?thesis by simp
  next
    case (Continue u)
    show ?thesis
    proof (cases "ensure_attachments_dir fl w")
      case (Fail e)
      with assms Continue show ?thesis using early by (auto simp: defs)
    next
      case Done
      then show ?thesis by simp
    next
      case (Continue w1)
      note w1 = ensure_attachments_dir_world [OF Continue]
      show ?thesis
      proof (cases "open_archive fl w1")
        case (Fail e)
        with assms \<open>check_output_path fl w = Continue u\<close> Continue w1 show ?thesis
          using early by (auto simp: defs)
      next
        case Done
        then show ?thesis by (simp add: open_archive_zip(1))
      next
        case (Continue files)
        note z = open_archive_zip(2) [OF Continue]
        show ?thesis
        proof (cases "ce_parse ce (fl_skip_convert_posts fl \<or> fl_skip_posts fl) files")
          case (Inl e)
          with assms \<open>check_output_path fl w = Continue u\<close> \<open>ensure_attachments_dir fl w = Continue w1\<close>
            Continue w1 show ?thesis using early by (auto simp: defs)
        next
          case (Inr export)
          with assms \<open>check_output_path fl w = Continue u\<close> \<open>ensure_attachments_dir fl w = Continue w1\<close>
            Continue w1 z show ?thesis using run [of w1 files export] by (simp add: defs)
        qed
      qed
    qed
  qed
qed

lemma cmd_cases:
  assumes "transform_slack_cmd ce args given fl w = Some (r, w')"
  obtains (rejected) e where "r = Inl e" "w' = w" | (runs) "transform_slack_cmd_f ce fl w = Some (r, w')"
  using assms by (auto simp: transform_slack_cmd_def split: if_splits list.splits)

lemma build_channels_empty:
  "i_public im = [] \<Longrightarrow> i_private im = [] \<Longrightarrow> i_group im = [] \<Longrightarrow> i_direct im = [] \<Longrightarrow>
     build_channels_by_original_name_map im = Map.empty"
  by (simp add: build_channels_by_original_name_map_def)

lemma demo_os_sel [simp]:
  "os_written (demo_os es) = Map.empty" "os_redis (demo_os es) = Map.empty"
  "os_zip (demo_os es) (fl_file demo_flags) = Some es"
  by (simp_all add: demo_os_def demo_flags_def)

lemma demo_cmd_run:
  "transform_slack_cmd_f demo_cmd_env demo_flags (demo_os [''users.json'']) =
     Some (Inr (), (demo_os [''users.json''])\<lparr>os_fs := [''export.zip'' \<mapsto> FsFile,
        ''bulk-export-attachments'' \<mapsto> FsDir, ''out.jsonl'' \<mapsto> FsFile],
        os_written := [''out.jsonl'' \<mapsto> ExportedFile \<lparr>i_public = [], i_private = [], i_group = [], i_direct = [],
          i_users = Map.empty, i_posts = []\<rparr>]\<rparr>)"
  by (simp add: transform_slack_cmd_f_def check_output_path_def ensure_attachments_dir_def
      open_archive_def zip_new_reader_def os_stat_def demo_os_def demo_flags_def default_flags_def demo_cmd_env_def
      run_transform_def transform_def cmd_transform_config_def cmd_redis_config_def new_transformer_def
      transform_users_def transform_all_channels_def populate_channel_memberships_def
      populate_user_memberships_def transform_posts_def empty_export_def build_channels_empty
      fun_upd_twist Let_def)

text \<open>
  Claim C11: spec 4 says the remote backend is selected by the presence of its
  connection parameters. Without \<open>--redis-endpoint\<close>, every run of the command leaves
  the Redis server as it was, whatever the other flags and whatever the outcome.
\<close>

theorem cmd_no_endpoint_keeps_redis:
  assumes "fl_redis_endpoint fl = []" "transform_slack_cmd ce args given fl w = Some (r, w')"
  shows "os_redis w' = os_redis w"
  using assms(2)
proof (cases rule: cmd_cases)
  case runs
  then show ?thesis
  proof (cases rule: cmd_f_cases)
    case (run w1 files export)
    from run(4) show ?thesis
    proof (cases rule: run_transform_cases)
      case (ran t)
      have "w_remote (t_world t) = os_redis w1"
        using transform_memory_remote [OF ran(1) cmd_redis_config_none [OF assms(1)]]
        by (simp add: new_transformer_def)
      with ran(2) run(6) show ?thesis by simp
    qed (simp add: run(6))
  qed
qed simp

theorem cmd_no_endpoint_keeps_redis_witness:
  "fl_redis_endpoint demo_flags = [] \<and>
   transform_slack_cmd demo_cmd_env [] {''team'', ''file''} demo_flags (demo_os [''users.json'']) =
     Some (Inr (), (demo_os [''users.json''])\<lparr>os_fs := [''export.zip'' \<mapsto> FsFile,
        ''bulk-export-attachments'' \<mapsto> FsDir, ''out.jsonl'' \<mapsto> FsFile],
        os_written := [''out.jsonl'' \<mapsto> ExportedFile \<lparr>i_public = [], i_private = [], i_group = [], i_direct = [],
          i_users = Map.empty, i_posts = []\<rparr>]\<rparr>) \<and>
   os_redis (demo_os [''users.json'']) = Map.empty"
proof -
  have run: "transform_slack_cmd demo_cmd_env [] {''team'', ''file''} demo_flags (demo_os [''users.json'']) =
     Some (Inr (), (demo_os [''users.json''])\<lparr>os_fs := [''export.zip'' \<mapsto> FsFile,
        ''bulk-export-attachments'' \<mapsto> FsDir, ''out.jsonl'' \<mapsto> FsFile],
        os_written := [''out.jsonl'' \<mapsto> ExportedFile \<lparr>i_public = [], i_private = [], i_group = [], i_direct = [],
          i_users = Map.empty, i_posts = []\<rparr>]\<rparr>)"
    by (simp add: transform_slack_cmd_def required_flags_def demo_cmd_run)
  have "fl_redis_endpoint demo_flags = []" by (simp add: demo_flags_def default_flags_def)
  with cmd_no_endpoint_keeps_redis [OF _ run] run show ?thesis by simp
qed



text \<open>
  Claim C22: the help text of \<open>--skip-channels\<close> says "do not import channels and
  posts", but the flag only skips \<open>TransformAllChannels\<close>. On the fresh transformer of
  the command, \<open>TransformPosts\<close> then finds no channel: the result has no channels and no
  posts, and each channel of the export is dropped with a \<open>ChannelNotFound\<close> warning.
\<close>

theorem skip_channels_drops_posts:
  assumes "transform env cfg export (new_transformer r) = Some (Inr t)" "cfg_skip_channels cfg"
  shows "i_public (t_intermediate t) = [] \<and> i_private (t_intermediate t) = [] \<and>
         i_group (t_intermediate t) = [] \<and> i_direct (t_intermediate t) = [] \<and>
         i_posts (t_intermediate t) = [] \<and>
         (\<not> cfg_skip_posts cfg \<longrightarrow> t_log t = map (ChannelNotFound \<circ> fst) (se_posts export))"
  using assms by (cases "cfg_skip_posts cfg")
    (auto simp: transform_def Let_def transform_users_def new_transformer_def transform_posts_def
      build_channels_empty channels_posts_no_channel)

theorem skip_channels_drops_posts_witness:
  "cfg_skip_channels spec_cfg \<and>
   (\<exists>t. transform demo_env spec_cfg spec_export (new_transformer Map.empty) = Some (Inr t) \<and>
        i_posts (t_intermediate t) = [] \<and> t_log t = [ChannelNotFound ''general''])"
proof -
  obtain t where t: "transform demo_env spec_cfg spec_export (new_transformer Map.empty) = Some (Inr t)"
    by (fastforce simp: transform_def Let_def spec_cfg_def demo_cfg_def transform_posts_def
        channels_posts_no_channel build_channels_empty transform_users_def new_transformer_def)
  have sk: "cfg_skip_channels spec_cfg" "\<not> cfg_skip_posts spec_cfg" by (simp_all add: spec_cfg_def demo_cfg_def)
  from skip_channels_drops_posts [OF t sk(1)] sk t show ?thesis
    by (auto simp: spec_export_sel spec_example_def)
qed

end
