(* ===== verification/RedisTest.thy ===== *)
theory RedisTest
  imports ThreadStore
begin

text \<open>
  The Go test \<open>TestRedisStorage\<close> (src/unnamed/part_000), run on the model. Its three
  subtests share one miniredis server, so each subtest takes the world the previous one
  left. A subtest returns the outcomes of its assertions, in order, and the world after
  it. \<open>&IntermediatePost{Message: m}\<close> is allocated where the test writes it. The test calls
  \<open>newRedisStorage(redisCfg, "channel")\<close>, whose error the model does not have: the store
  of the code is \<open>new_redis_storage\<close>, which cannot fail, so \<open>assert.NoError\<close> holds.
  The last subtest dereferences the pointer \<open>LookupThread\<close> returned. A nil pointer there
  would panic in Go; the model records a failed assertion.
\<close>

definition go_post :: "string \<Rightarrow> ipost" where
  "go_post m = new_post [] [] m 0"

definition reply_count :: "world \<Rightarrow> addr option \<Rightarrow> nat option" where
  "reply_count w r = map_option (length \<circ> post_replies) (Option.bind r (deref (w_heap w)))"

definition message_of :: "world \<Rightarrow> addr option \<Rightarrow> string option" where
  "message_of w r = map_option post_message (Option.bind r (deref (w_heap w)))"

definition test_store_lookup :: "world \<Rightarrow> bool list \<times> world" where
  "test_store_lookup w0 =
     (let s0 = new_redis_storage ''channel''; ts = ''11'';
          (p, h) = alloc (go_post ''msg'') (w_heap w0); w = w0\<lparr>w_heap := h\<rparr>;
          a1 = (\<not> has_thread w s0 ts);
          (r1, w1, s1) = lookup_thread w s0 ts;
          (w2, s2) = store_thread w1 s1 ts p;
          a3 = has_thread w2 s2 ts;
          (r3, w3, s3) = lookup_thread w2 s2 ts;
          (r4, w4, s4) = lookup_thread w3 s3 ts
      in ([a1, r1 = None, a3, r3 \<noteq> None, message_of w4 r4 = Some ''msg''], w4))"

definition test_another_storage :: "world \<Rightarrow> bool list \<times> world" where
  "test_another_storage w0 =
     (let s0 = new_redis_storage ''channel''; ts = ''21'';
          (p, h) = alloc (go_post ''msg'') (w_heap w0); w = w0\<lparr>w_heap := h\<rparr>;
          (w1, s1) = store_thread w s0 ts p;
          (w2, s2) = store_thread w1 s1 ''22'' p;
          a1 = (length (get_changed_threads s2) = 2);
          t0 = new_redis_storage ''channel'';
          (r3, w3, t3) = lookup_thread w2 t0 ts;
          (r4, w4, t4) = lookup_thread w3 t3 ts
      in ([a1, r3 \<noteq> None, message_of w4 r4 = Some ''msg'', length (get_changed_threads t4) = 1], w4))"

definition test_retain_replies :: "world \<Rightarrow> bool list \<times> world" where
  "test_retain_replies w0 =
     (let s0 = new_redis_storage ''channel''; ts = ''31'';
          (p, h) = alloc (go_post ''msg'') (w_heap w0); w = w0\<lparr>w_heap := h\<rparr>;
          (w1, s1) = store_thread w s0 ts p;
          (r2, w2, s2) = lookup_thread w1 s1 ts;
          a1 = (reply_count w2 r2 = Some 0);
          (r3, w3, s3) = lookup_thread w2 s2 ts
      in case Option.bind r3 (\<lambda>a. map_option (Pair a) (deref (w_heap w3) a)) of
           None \<Rightarrow> ([a1, False], w3)
         | Some (a, root) \<Rightarrow>
             (let (e, h3) = alloc (go_post []) (w_heap w3);
                  w4 = w3\<lparr>w_heap := heap_upd h3 a (root\<lparr>post_replies := post_replies root @ [e]\<rparr>)\<rparr>;
                  (r5, w5, s5) = lookup_thread w4 s3 ts
              in ([a1, reply_count w5 r5 = Some 1], w5)))"

definition test_redis_storage :: "world \<Rightarrow> bool list" where
  "test_redis_storage w =
     (let (as1, w1) = test_store_lookup w;
          (as2, w2) = test_another_storage w1;
          (as3, w3) = test_retain_replies w2
      in as1 @ as2 @ as3)"

text \<open>
  The repository's test \<open>TestRedisStorage\<close> passes on the model. On a fresh
  Redis server, with any heap of posts already allocated, all eleven assertions of its
  three subtests hold.
\<close>

theorem redis_test_passes:
  "test_redis_storage \<lparr>w_heap = h, w_remote = Map.empty\<rparr> = replicate 11 True"
  by (simp add: test_redis_storage_def test_store_lookup_def test_another_storage_def
      test_retain_replies_def new_redis_storage_def alloc_def go_post_def message_of_def reply_count_def
      serialize_leaf heap_simps redis_key_def deref_def nth_append heap_upd_def new_post_def
      post_data.truncate_def numeral_eq_Suc)

end
