(* ===== verification/LinkMetadata.thy ===== *)
theory LinkMetadata
  imports Prelude "HOL-Library.AList"
begin

text \<open>
  The vendored \<open>SqlLinkMetadataStore\<close>
  (src/vendor/github.com/mattermost/mattermost-server/v6/store/sqlstore/link_metadata_store.go).
  The transformer never calls it. It keeps rows of the table \<open>LinkMetadata\<close>, whose
  primary key is \<open>Hash\<close>. The table is an association list from hash to row, in the
  order the database returns rows. \<open>Save\<close> validates the metadata, sets its hash
  (\<open>PreSave\<close>), serialises \<open>Data\<close> to JSON, and runs an insert that updates the row on a
  conflict of the key. The MySQL and the PostgreSQL statement have the same effect, so
  there is one definition. \<open>Get\<close> selects the rows with the given URL and timestamp and
  decodes the first one. The model library of the Mattermost server is not under src/.
  Its \<open>IsValid\<close>, \<open>GenerateLinkMetadataHash\<close>, JSON encoding and
  \<open>DeserializeDataToConcreteType\<close> are parameters in \<open>lm_env\<close>. The outcome of the
  database calls is part of the database state \<open>lm_db\<close>. \<open>query.ToSql()\<close> cannot fail for
  these fixed statements and has no branch.
\<close>

record 'd link_metadata =
  lm_hash :: int64
  lm_url :: string
  lm_timestamp :: int64
  lm_type :: string
  lm_data :: 'd

record lm_row =
  row_url :: string
  row_timestamp :: int64
  row_type :: string
  row_data :: string

datatype exec_result = ExecOk | ExecUniqueViolation | ExecFailed string

record lm_db =
  db_rows :: "(int64 \<times> lm_row) list"
  db_exec :: exec_result
  db_select_error :: "string option"

record 'd lm_env =
  lme_valid :: "'d link_metadata \<Rightarrow> bool"
  lme_hash :: "string \<Rightarrow> int64 \<Rightarrow> int64"
  lme_marshal :: "'d \<Rightarrow> string option"
  lme_deserialize :: "string \<Rightarrow> string \<Rightarrow> 'd option"

datatype lm_error =
    LmInvalid
  | LmMarshalError
  | LmSaveError string
  | LmNotFound string
  | LmGetError string
  | LmDeserializeError string

definition lm_save :: "'d lm_env \<Rightarrow> 'd link_metadata \<Rightarrow> lm_db \<Rightarrow> (lm_error + 'd link_metadata) \<times> lm_db" where
  "lm_save env m db =
     (if \<not> lme_valid env m then (Inl LmInvalid, db)
      else
        (let m' = m\<lparr>lm_hash := lme_hash env (lm_url m) (lm_timestamp m)\<rparr>
         in case lme_marshal env (lm_data m') of
              None \<Rightarrow> (Inl LmMarshalError, db)
            | Some bytes \<Rightarrow>
                (let row = \<lparr>row_url = lm_url m', row_timestamp = lm_timestamp m',
                            row_type = lm_type m', row_data = bytes\<rparr>
                 in case db_exec db of
                      ExecOk \<Rightarrow> (Inr m', db\<lparr>db_rows := AList.update (lm_hash m') row (db_rows db)\<rparr>)
                    | ExecUniqueViolation \<Rightarrow> (Inr m', db)
                    | ExecFailed e \<Rightarrow> (Inl (LmSaveError e), db))))"

definition lm_get :: "'d lm_env \<Rightarrow> string \<Rightarrow> int64 \<Rightarrow> lm_db \<Rightarrow> lm_error + 'd link_metadata" where
  "lm_get env url ts db =
     (case db_select_error db of
        Some e \<Rightarrow> Inl (LmGetError e)
      | None \<Rightarrow>
          (case find (\<lambda>(h, r). row_url r = url \<and> row_timestamp r = ts) (db_rows db) of
             None \<Rightarrow> Inl (LmNotFound (''url='' @ url))
           | Some (h, r) \<Rightarrow>
               (case lme_deserialize env (row_type r) (row_data r) of
                  None \<Rightarrow> Inl (LmDeserializeError url)
                | Some d \<Rightarrow> Inr \<lparr>lm_hash = h, lm_url = row_url r, lm_timestamp = row_timestamp r,
                                 lm_type = row_type r, lm_data = d\<rparr>)))"

definition lm_inv :: "'d lm_env \<Rightarrow> lm_db \<Rightarrow> bool" where
  "lm_inv env db \<longleftrightarrow> distinct (map fst (db_rows db)) \<and>
     (\<forall>(h, r)\<in>set (db_rows db). h = lme_hash env (row_url r) (row_timestamp r))"

text \<open>Example inputs: a hash that collides easily, JSON text as the data.\<close>

definition demo_lm_env :: "string lm_env" where
  "demo_lm_env = \<lparr>lme_valid = (\<lambda>m. lm_url m \<noteq> []), lme_hash = (\<lambda>u t. of_nat (length u) + t),
     lme_marshal = Some, lme_deserialize = (\<lambda>ty s. Some s)\<rparr>"

definition demo_lm_db :: lm_db where
  "demo_lm_db = \<lparr>db_rows = [], db_exec = ExecOk, db_select_error = None\<rparr>"

definition demo_lm :: "string \<Rightarrow> int64 \<Rightarrow> string link_metadata" where
  "demo_lm u t = \<lparr>lm_hash = 0, lm_url = u, lm_timestamp = t, lm_type = ''opengraph'', lm_data = ''{}''\<rparr>"

subsection \<open>Lemmas\<close>

lemma update_mem: "x \<in> set (AList.update k v xs) \<Longrightarrow> x = (k, v) \<or> x \<in> set xs"
  by (induction xs) (auto split: if_splits)

lemma lm_save_db:
  "lm_save env m db = (res, db') \<Longrightarrow>
     db' = db \<or> (db_exec db = ExecOk \<and> lme_valid env m \<and>
       (\<exists>bytes. lme_marshal env (lm_data m) = Some bytes \<and>
          db' = db\<lparr>db_rows := AList.update (lme_hash env (lm_url m) (lm_timestamp m))
            \<lparr>row_url = lm_url m, row_timestamp = lm_timestamp m, row_type = lm_type m, row_data = bytes\<rparr>
            (db_rows db)\<rparr>))"
  by (auto simp: lm_save_def Let_def split: if_splits option.splits exec_result.splits)

lemma lm_save_inv:
  assumes "lm_inv env db" "lm_save env m db = (res, db')"
  shows "lm_inv env db'"
  using lm_save_db [OF assms(2)]
proof
  assume "db' = db" with assms(1) show ?thesis by simp
next
  assume "db_exec db = ExecOk \<and> lme_valid env m \<and> (\<exists>bytes. lme_marshal env (lm_data m) = Some bytes \<and>
          db' = db\<lparr>db_rows := AList.update (lme_hash env (lm_url m) (lm_timestamp m))
            \<lparr>row_url = lm_url m, row_timestamp = lm_timestamp m, row_type = lm_type m, row_data = bytes\<rparr>
            (db_rows db)\<rparr>)"
  with assms(1) show ?thesis
    by (fastforce simp: lm_inv_def distinct_update dest: update_mem)
qed

lemma find_unique_key:
  assumes "distinct (map fst xs)" "(k, v) \<in> set xs" "P (k, v)"
    and "\<And>k' v'. (k', v') \<in> set xs \<Longrightarrow> P (k', v') \<Longrightarrow> k' = k"
  shows "find P xs = Some (k, v)"
  using assms
proof (induction xs)
  case (Cons x xs)
  obtain k1 v1 where x: "x = (k1, v1)" by fastforce
  show ?case
  proof (cases "P x")
    case True
    have k1: "k1 = k" using Cons.prems(4) [of k1 v1] True x by simp
    have "k1 \<notin> fst ` set xs" using Cons.prems(1) x by simp
    then have "(k, v) \<notin> set xs" using k1 by (metis fst_conv image_eqI)
    with Cons.prems(2) have "x = (k, v)" by simp
    with True show ?thesis by simp
  next
    case False
    with Cons.prems(2,3) have "(k, v) \<in> set xs" by auto
    moreover have "distinct (map fst xs)" using Cons.prems(1) by simp
    moreover have "\<And>k' v'. (k', v') \<in> set xs \<Longrightarrow> P (k', v') \<Longrightarrow> k' = k"
      using Cons.prems(4) by (meson list.set_intros(2))
    ultimately have "find P xs = Some (k, v)" using Cons.IH Cons.prems(3) by blast
    with False show ?thesis by simp
  qed
qed simp

lemma lm_row_key:
  assumes "lm_inv env db" "(k, r) \<in> set (db_rows db)" "row_url r = u" "row_timestamp r = t"
  shows "k = lme_hash env u t"
  using assms by (auto simp: lm_inv_def)

lemma update_has: "(k, v) \<in> set (AList.update k v xs)"
  by (induction xs) auto

lemma lm_save_ok:
  assumes "lm_save env m db = (Inr m', db')" "db_exec db = ExecOk"
  obtains bytes where "lme_valid env m" "lme_marshal env (lm_data m) = Some bytes"
    "m' = m\<lparr>lm_hash := lme_hash env (lm_url m) (lm_timestamp m)\<rparr>"
    "db' = db\<lparr>db_rows := AList.update (lme_hash env (lm_url m) (lm_timestamp m))
            \<lparr>row_url = lm_url m, row_timestamp = lm_timestamp m, row_type = lm_type m, row_data = bytes\<rparr>
            (db_rows db)\<rparr>"
  using assms by (auto simp: lm_save_def Let_def split: if_splits option.splits)

text \<open>
  Claim C32: a link metadata saved into a well-formed table is read back by \<open>Get\<close>
  with its URL and timestamp: the result is the saved metadata with its computed hash,
  provided the JSON encoding of its data decodes to the data.
\<close>

theorem lm_save_get:
  assumes inv: "lm_inv env db" and save: "lm_save env m db = (Inr m', db')"
    and ok: "db_exec db = ExecOk" "db_select_error db = None"
    and json: "\<And>bytes. lme_marshal env (lm_data m) = Some bytes \<Longrightarrow> lme_deserialize env (lm_type m) bytes = Some (lm_data m)"
  shows "lm_get env (lm_url m) (lm_timestamp m) db' = Inr m'"
proof -
  let ?h = "lme_hash env (lm_url m) (lm_timestamp m)"
  from save ok(1) obtain bytes where v: "lme_marshal env (lm_data m) = Some bytes"
    and m': "m' = m\<lparr>lm_hash := ?h\<rparr>"
    and db': "db' = db\<lparr>db_rows := AList.update ?h
            \<lparr>row_url = lm_url m, row_timestamp = lm_timestamp m, row_type = lm_type m, row_data = bytes\<rparr>
            (db_rows db)\<rparr>"
    by (rule lm_save_ok)
  let ?r = "\<lparr>row_url = lm_url m, row_timestamp = lm_timestamp m, row_type = lm_type m, row_data = bytes\<rparr>"
  have inv': "lm_inv env db'" by (rule lm_save_inv [OF inv save])
  have "find (\<lambda>(h, r). row_url r = lm_url m \<and> row_timestamp r = lm_timestamp m) (db_rows db') = Some (?h, ?r)"
  proof (rule find_unique_key)
    show "distinct (map fst (db_rows db'))" using inv' by (simp add: lm_inv_def)
    show "(?h, ?r) \<in> set (db_rows db')" by (simp add: db' update_has)
  qed (use lm_row_key [OF inv'] in auto)
  with ok(2) json [OF v] db' m' show ?thesis by (simp add: lm_get_def)
qed

theorem lm_save_get_witness:
  "lm_inv demo_lm_env demo_lm_db \<and>
   lm_save demo_lm_env (demo_lm ''ab'' 5) demo_lm_db =
     (Inr ((demo_lm ''ab'' 5)\<lparr>lm_hash := 7\<rparr>),
      demo_lm_db\<lparr>db_rows := [(7, \<lparr>row_url = ''ab'', row_timestamp = 5, row_type = ''opengraph'', row_data = ''{}''\<rparr>)]\<rparr>) \<and>
   lm_get demo_lm_env ''ab'' 5
     (demo_lm_db\<lparr>db_rows := [(7, \<lparr>row_url = ''ab'', row_timestamp = 5, row_type = ''opengraph'', row_data = ''{}''\<rparr>)]\<rparr>)
     = Inr ((demo_lm ''ab'' 5)\<lparr>lm_hash := 7\<rparr>)"
proof -
  have inv: "lm_inv demo_lm_env demo_lm_db" by (simp add: lm_inv_def demo_lm_db_def)
  have s: "lm_save demo_lm_env (demo_lm ''ab'' 5) demo_lm_db =
     (Inr ((demo_lm ''ab'' 5)\<lparr>lm_hash := 7\<rparr>),
      demo_lm_db\<lparr>db_rows := [(7, \<lparr>row_url = ''ab'', row_timestamp = 5, row_type = ''opengraph'', row_data = ''{}''\<rparr>)]\<rparr>)"
    by (simp add: lm_save_def demo_lm_env_def demo_lm_db_def demo_lm_def)
  have ok: "db_exec demo_lm_db = ExecOk" "db_select_error demo_lm_db = None" by (simp_all add: demo_lm_db_def)
  from lm_save_get [OF inv s ok] inv s show ?thesis by (simp add: demo_lm_env_def demo_lm_def)
qed

text \<open>
  Claim C33: the table is keyed by the hash of URL and timestamp alone. Suppose another
  URL and timestamp have the same hash as a saved metadata. Then after the save,
  \<open>Get\<close> for them reports not found, even if they were saved before: the upsert
  replaced their row.
\<close>

theorem lm_hash_collision_overwrites:
  assumes inv: "lm_inv env db" and save: "lm_save env m db = (Inr m', db')"
    and ok: "db_exec db = ExecOk" "db_select_error db = None"
    and coll: "lme_hash env u t = lme_hash env (lm_url m) (lm_timestamp m)" "(u, t) \<noteq> (lm_url m, lm_timestamp m)"
  shows "lm_get env u t db' = Inl (LmNotFound (''url='' @ u))"
proof -
  let ?h = "lme_hash env (lm_url m) (lm_timestamp m)"
  from save ok(1) obtain bytes where
    db': "db' = db\<lparr>db_rows := AList.update ?h
            \<lparr>row_url = lm_url m, row_timestamp = lm_timestamp m, row_type = lm_type m, row_data = bytes\<rparr>
            (db_rows db)\<rparr>"
    by (rule lm_save_ok)
  have inv': "lm_inv env db'" by (rule lm_save_inv [OF inv save])
  have "\<forall>x\<in>set (db_rows db'). \<not> (\<lambda>(h, r). row_url r = u \<and> row_timestamp r = t) x"
  proof (intro ballI notI)
    fix x assume x: "x \<in> set (db_rows db')" and p: "(\<lambda>(h, r). row_url r = u \<and> row_timestamp r = t) x"
    obtain k r where kr: "x = (k, r)" by fastforce
    with x p lm_row_key [OF inv'] coll(1) have "k = ?h" by auto
    moreover have "map_of (db_rows db') ?h = Some \<lparr>row_url = lm_url m, row_timestamp = lm_timestamp m,
        row_type = lm_type m, row_data = bytes\<rparr>" by (simp add: db' update_conv')
    ultimately have "r = \<lparr>row_url = lm_url m, row_timestamp = lm_timestamp m, row_type = lm_type m, row_data = bytes\<rparr>"
      using x kr inv' by (simp add: lm_inv_def map_of_is_SomeI)
    with p kr coll(2) show False by simp
  qed
  then have "find (\<lambda>(h, r). row_url r = u \<and> row_timestamp r = t) (db_rows db') = None"
    unfolding find_None_iff by blast
  moreover have "db_select_error db' = None" using ok(2) by (simp add: db')
  ultimately show ?thesis by (simp add: lm_get_def)
qed

theorem lm_hash_collision_overwrites_witness:
  "lm_inv demo_lm_env (demo_lm_db\<lparr>db_rows := [(7, \<lparr>row_url = ''ab'', row_timestamp = 5, row_type = ''opengraph'', row_data = ''{}''\<rparr>)]\<rparr>) \<and>
   lm_save demo_lm_env (demo_lm ''abc'' 4)
     (demo_lm_db\<lparr>db_rows := [(7, \<lparr>row_url = ''ab'', row_timestamp = 5, row_type = ''opengraph'', row_data = ''{}''\<rparr>)]\<rparr>) =
     (Inr ((demo_lm ''abc'' 4)\<lparr>lm_hash := 7\<rparr>),
      demo_lm_db\<lparr>db_rows := [(7, \<lparr>row_url = ''abc'', row_timestamp = 4, row_type = ''opengraph'', row_data = ''{}''\<rparr>)]\<rparr>) \<and>
   lme_hash demo_lm_env ''ab'' 5 = lme_hash demo_lm_env ''abc'' 4 \<and>
   lm_get demo_lm_env ''ab'' 5
     (demo_lm_db\<lparr>db_rows := [(7, \<lparr>row_url = ''abc'', row_timestamp = 4, row_type = ''opengraph'', row_data = ''{}''\<rparr>)]\<rparr>)
     = Inl (LmNotFound ''url=ab'')"
proof -
  let ?db = "demo_lm_db\<lparr>db_rows := [(7, \<lparr>row_url = ''ab'', row_timestamp = 5, row_type = ''opengraph'', row_data = ''{}''\<rparr>)]\<rparr>"
  have inv: "lm_inv demo_lm_env ?db" by (simp add: lm_inv_def demo_lm_env_def)
  have s: "lm_save demo_lm_env (demo_lm ''abc'' 4) ?db =
     (Inr ((demo_lm ''abc'' 4)\<lparr>lm_hash := 7\<rparr>),
      demo_lm_db\<lparr>db_rows := [(7, \<lparr>row_url = ''abc'', row_timestamp = 4, row_type = ''opengraph'', row_data = ''{}''\<rparr>)]\<rparr>)"
    by (simp add: lm_save_def demo_lm_env_def demo_lm_db_def demo_lm_def)
  have ok: "db_exec ?db = ExecOk" "db_select_error ?db = None" by (simp_all add: demo_lm_db_def)
  have c: "lme_hash demo_lm_env ''ab'' 5 = lme_hash demo_lm_env (lm_url (demo_lm ''abc'' 4)) (lm_timestamp (demo_lm ''abc'' 4))"
    "(''ab'', 5) \<noteq> (lm_url (demo_lm ''abc'' 4), lm_timestamp (demo_lm ''abc'' 4))"
    by (simp_all add: demo_lm_env_def demo_lm_def)
  from lm_hash_collision_overwrites [OF inv s ok c] inv s c show ?thesis by (simp add: demo_lm_def)
qed

end
