(* ===== verification/Spec2Isabelle.thy ===== *)
theory Spec2Isabelle
  imports ChannelStamps Command RedisTest LinkMetadata
begin

text \<open>
  \<^bold>\<open>A verification development for mmetl's Slack transformer.\<close>

  The program (Go, package \<open>slack\<close> in src/unnamed/part_001) turns a parsed Slack
  export into mmetl's intermediate form. \<open>Transform\<close> runs three stages.
  \<^enum> \<open>TransformUsers\<close> builds the users map.
  \<^enum> \<open>TransformAllChannels\<close> and the two \<open>Populate*Memberships\<close> build the channels
    and the memberships.
  \<^enum> \<open>TransformPosts\<close> handles the posts channel by channel. It sorts the channel's posts,
    opens a thread store with \<open>newChannelThreadsStorage\<close> (in memory, or backed by
    Redis), sends each post through the \<open>switch\<close> on its kind to
    \<open>AddPostToThreads\<close>, and collects the store's \<open>GetChangedThreads\<close>.
  \<open>AddPostToThreads\<close> gives the post a creation time unique in its channel, probing a
  timestamp ledger. It then either appends the post to the replies of the root it
  names, or stores it as a new root. The command \<open>transform slack\<close>
  (src/commands/transform.go) reads the flags, checks the paths, opens and parses the
  export archive, and calls \<open>Transform\<close> and then \<open>Export\<close>. The test part_000
  exercises the Redis-backed store.

  \<^bold>\<open>Theories and the code they model.\<close>
  \<^item> \<open>Prelude\<close>: the shared vocabulary: \<open>int64 = 64 word\<close>, UTF-8 rune counting on
    byte strings (\<open>rune_count\<close>, \<open>take_runes\<close>), and generic lemmas on lists, maps
    and \<open>those\<close>.
  \<^item> \<open>Post\<close>: \<open>IntermediatePost\<close> as the record \<open>post_data\<close>, extended by \<open>ipost\<close> with
    the \<open>Replies\<close> pointers. \<open>Sanitise\<close> is \<open>sanitise_post\<close>. The pointers live in an
    explicit heap (\<open>alloc\<close>, \<open>deref\<close>, \<open>heap_upd\<close>), because the code changes a root
    through the pointer that \<open>LookupThread\<close> returns. \<open>post_doc\<close> is the JSON form.
    \<open>serialize\<close> (with fuel \<open>length h + 1\<close>, more than the depth of any acyclic
    thread) and \<open>alloc_doc\<close> are \<open>json.Marshal\<close> and \<open>json.Unmarshal\<close>.
  \<^item> \<open>Data\<close>: \<open>IntermediateChannel\<close>, \<open>IntermediateUser\<close>, \<open>Intermediate\<close>,
    \<open>TransformConfig\<close>, the log events and errors. It also holds the parsed export
    (\<open>SlackPost\<close>, \<open>SlackUser\<close>, \<open>SlackChannel\<close>, \<open>SlackExport\<close>) and \<open>ext_env\<close>. Their
    code is not under src/ and they are modelled from the spec. \<open>ext_env\<close> gathers the
    collaborators whose code is not under src/: \<open>SlackConvertTimeStamp\<close>,
    \<open>SlackConvertChannelName\<close>, \<open>isValidChannelNameCharacters\<close>,
    \<open>SplitChannelsByMemberSize\<close>, the JSON size of props, \<open>path.Join\<close> with NFC, the
    zip and file calls, \<open>model.NewId\<close> and the Redis connection.
  \<^item> \<open>ThreadStore\<close>: \<open>ThreadsStorage\<close> as a datatype of its two variants over a
    \<open>world\<close> (heap and Redis backend, keys \<open>channel:ts\<close>). It holds \<open>HasThread\<close>,
    \<open>LookupThread\<close>, \<open>StoreThread\<close>, \<open>GetChangedThreads\<close> and
    \<open>newChannelThreadsStorage\<close> (part_001 lines 391--403). The implementations of the two
    stores are not under src/. They are modelled from spec section 4.1 and the test
    part_000. \<open>abs_threads\<close> is the abstract store the spec describes: a view of JSON
    threads and a touched set. \<open>abs_of\<close> maps a concrete store to it, and
    \<open>store_op\<close>/\<open>abs_op\<close> are the operations of both.
  \<^item> \<open>Timestamps\<close>: the probe loop of \<open>AddPostToThreads\<close> (lines 298--306) as
    \<open>partial_function (option) next_free_ts\<close>, and \<open>reserve_ts\<close>, which also records
    the value in the ledger.
  \<^item> \<open>Threads\<close>: \<open>AddPostToThreads\<close> (lines 289--336) as \<open>add_post_to_threads\<close> on a
    \<open>thread_ctx\<close> (world, store, ledger, log), with its invariant \<open>threads_inv\<close>.
  \<^item> \<open>Entities\<close>: the two \<open>Sanitise\<close> methods, \<open>TransformUsers\<close>,
    \<open>filterValidMembers\<close>, \<open>getOriginalName\<close>, \<open>TransformChannels\<close>, the membership
    passes and \<open>TransformAllChannels\<close> (lines 38--287).
  \<^item> \<open>Pipeline\<close>: \<open>addFileToPost\<close>, \<open>selectOrCreateWorkflowUser\<close>, one definition per
    case of the \<open>switch\<close> of \<open>TransformPosts\<close>, the two loops, \<open>TransformPosts\<close> and
    \<open>Transform\<close> (lines 338--694), over a \<open>transformer\<close> state.
  \<^item> \<open>Output\<close>: no new code. It holds the invariants for the whole post stage:
    \<open>based\<close> (a channel's store reaches only posts allocated after the channel began),
    \<open>handler_outcome\<close> (the effect of one case of the \<open>switch\<close>) and \<open>out_ok\<close> (the
    collected roots form one-level threads). It also holds a complete example export
    run through \<open>Transform\<close>.
  \<^item> \<open>ChannelStamps\<close>: no new code. \<open>stamps_inv\<close> says that the posts a channel run
    allocated on the in-memory store have distinct creation times, all in the ledger.
    \<open>direct_inv\<close> says that they are typed by their channel (\<open>typed_for\<close>): direct flag and
    member names.
  \<^item> \<open>Command\<close>: the command \<open>transform slack\<close> (src/commands/transform.go). The flags and
    their defaults (\<open>init\<close>) are \<open>cmd_flags\<close> and \<open>default_flags\<close>, with cobra's
    \<open>NoArgs\<close> and required-flag checks in \<open>transform_slack_cmd\<close>. \<open>transformSlackCmdF\<close>
    is \<open>transform_slack_cmd_f\<close>, one definition per block (\<open>check_output_path\<close>,
    \<open>ensure_attachments_dir\<close>, \<open>open_archive\<close>, \<open>cmd_transform_config\<close>,
    \<open>run_transform\<close>). It runs over an explicit \<open>os_world\<close>: file-system entries, failing
    paths, zip entries, the Redis server and the written outputs. A Go early return is a
    \<open>cmd_step\<close>. \<open>ParseSlackExportFile\<close>, \<open>Export\<close> and \<open>NewTransformer\<close> are not under
    src/ and are modelled from their signatures: \<open>Export\<close> either fails to create the
    output file, or creates (truncates) it and fails while writing, leaving a
    \<open>TruncatedFile\<close>, or writes the whole result. \<open>zip.NewReader\<close> is
    \<open>zip_new_reader\<close>; as in the standard library its \<open>File\<close> slice is never \<open>nil\<close>
    on success.
  \<^item> \<open>RedisTest\<close>: the test \<open>TestRedisStorage\<close> (src/unnamed/part_000), one definition per
    subtest, with the world of the shared miniredis server passed from one to the next.
  \<^item> \<open>LinkMetadata\<close>: the vendored \<open>SqlLinkMetadataStore\<close> (\<open>Save\<close>, \<open>Get\<close>), which the
    transformer never calls. The table \<open>LinkMetadata\<close> is an association list keyed by
    \<open>Hash\<close>. The insert with its conflict clause, the same in both SQL dialects, is
    \<open>AList.update\<close>. The Mattermost model library (\<open>IsValid\<close>, the hash of \<open>PreSave\<close>, JSON)
    is a parameter.

  Effects are explicit. Every operation takes the state and returns it updated. A Go
  \<open>continue\<close> returns the state with only the log changed. An error is \<open>Inl\<close>.
  \<open>None\<close> means the timestamp probe never returns, or (unreachably, under
  \<open>threads_inv\<close>) that a root pointer dangles. A new post is passed by value and
  allocated where the code first links it, because nothing else refers to it before.

  \<^bold>\<open>What is proved.\<close>
  \<^item> Thread store (ThreadStore): a store opened by \<open>newChannelThreadsStorage\<close> refines the
    abstract store over any run of operations. \<open>GetChangedThreads\<close> returns exactly the
    touched roots. Untouched keys are never changed. \<open>LookupThread\<close> returns a live
    pointer. A second Redis store sees the first store's threads. Channels do not share
    Redis keys. JSON round-trips.
  \<^item> Timestamps: the probe returns exactly when the ledger is not all of \<open>int64\<close>. The
    value is the first free one, after at most \<open>card L\<close> increments. \<open>CreateAt++\<close>
    wraps at the largest \<open>int64\<close>. Two posts with the same \<open>CreateAt\<close> get stamps in
    the order they are reserved, on any ledger small enough that the probe cannot pass
    the largest \<open>int64\<close> (spec section 8).
  \<^item> Thread assembly (Threads): the behaviour of each branch (root stored, reply
    appended, orphan reply dropped), and preservation of \<open>threads_inv\<close> with exactly
    one new ledger entry per post.
  \<^item> Pipeline: \<open>Transform\<close> always returns when channels have fewer than \<open>2^64\<close>
    posts. No fuel is needed: a channel's ledger never holds more entries than posts
    handled, so the probe always finds room. The spec's end-to-end example gives one
    thread, not two. Skipped kinds never touch the store. Other results cover oversized
    props, attachment failures, the cached workflow user, Redis connection errors and
    the channel-name map.
  \<^item> Output: every root that \<open>Transform\<close> emits, over all channels, is a live post
    whose replies are live leaves and never emitted roots, and it serialises. The
    proof carries \<open>based\<close> and \<open>threads_inv\<close> through each handler and each channel.
    Every property kept by each handler outcome holds after a channel
    (\<open>channel_run_preserves\<close>). This lemma is shared by Output, ChannelStamps and Command.
  \<^item> ChannelStamps: on an in-memory store, the roots and replies a channel emits were all
    created in that run, with pairwise distinct creation times. Each is marked direct
    exactly in a direct or group channel, and then only carries the member usernames.
  \<^item> Command: without \<open>--redis-endpoint\<close> the Redis server is never changed. A
    success ran \<open>Transform\<close> on the parsed export with the configuration built from the
    flags and wrote its result. \<open>--skip-channels\<close> drops every post through
    \<open>ChannelNotFound\<close>. The guard \<open>zipReader.File == nil\<close> never fires
    (\<open>open_archive\<close> never returns \<open>Done\<close>), so an archive with no entries goes on
    to \<open>ParseSlackExportFile\<close>. The command is not all-or-nothing on disk: a failing
    \<open>Export\<close> may leave a truncated output file.
  \<^item> RedisTest: all eleven assertions of the Go test hold on the model.
  \<^item> LinkMetadata: \<open>Save\<close> keeps the table keyed by the hash of URL and timestamp, and
    \<open>Get\<close> then returns the saved metadata. A colliding hash replaces the other row.
  \<^item> Entities: the bounds of \<open>Sanitise\<close>; the members of the channels produced; the
    last-wins users map; every user in the users map has an email and position and
    names within their rune limits, each a byte prefix of the Slack field; and one
    defect: a channel with invalid name characters gets the empty name.

  \<^bold>\<open>Not modelled.\<close> In the command, cobra's parsing of flag strings is not
  modelled: \<open>cmd_flags\<close> holds the parsed values. The logger level set from
  \<open>--debug\<close> only affects output, and the \<open>Stat\<close> of the opened file is folded into
  \<open>os_open_err\<close>. In the link metadata store, the database returns rows in the
  order of the association list, and \<open>Get\<close> takes the first. Log lines of the entity transformers are output only. Go's map
  iteration order and unstable \<open>sort.Slice\<close> are fixed to one order: the order of the
  association list \<open>se_posts\<close>, and the stable \<open>sort_key\<close>. Concurrent use of one
  Redis backend by several processes is outside the single-run model. The content
  \<open>Export\<close> writes, and its \<open>"-"\<close> path for standard output, are not modelled: the
  output is the intermediate form it is given. Spec 4.1 says \<open>StoreThread\<close> of the
  Redis store writes only to the local cache and \<open>changed()\<close> is the sole flush; the
  model writes through at \<open>StoreThread\<close>, which the repository test equally allows.
\<close>

subsection \<open>Properties across the components\<close>

text \<open>
  Claim C10: spec 4.2 requires direct/group enrichment. Take a direct or group channel
  built by \<open>TransformAllChannels\<close> and the membership passes, and a root post of it.
  \<open>AddPostToThreads\<close> stores the post marked direct, carrying the usernames of all
  the channel's members, at least two, under its Slack timestamp, where a lookup finds
  it.
\<close>

theorem dm_root_post_marked:
  assumes ch: "ch \<in> set (i_group (populate_channel_memberships (populate_user_memberships (transform_all_channels env export im))) @
                   i_direct (populate_channel_memberships (populate_user_memberships (transform_all_channels env export im))))"
    and ty: "ch_type ch = ChannelTypeDirect \<or> ch_type ch = ChannelTypeGroup"
    and root: "sp_thread_ts orig = [] \<or> sp_thread_ts orig = sp_timestamp orig"
    and res: "add_post_to_threads orig post ch imp c = Some c'"
  shows "\<exists>a p. lookup_thread (tc_world c') (tc_threads c') (sp_timestamp orig) = (Some a, tc_world c', tc_threads c') \<and>
           deref (w_heap (tc_world c')) a = Some p \<and> post_is_direct p \<and>
           post_channel_members p = members_usernames (i_users im) (ch_members ch) \<and>
           2 \<le> length (post_channel_members p)"
proof -
  let ?im1 = "transform_all_channels env export im"
  from ch obtain c0 cs where c0: "c0 \<in> set (transform_channels env (i_users im) cs)"
    and chd: "ch = c0\<lparr>ch_members_usernames := members_usernames (i_users im) (ch_members c0)\<rparr>"
    by (auto simp: populate_channel_memberships_def transform_all_channels_def Let_def members_usernames_populate)
  from transform_channels_mem [OF c0] members_usernames_length ty chd
  have two: "2 \<le> length (members_usernames (i_users im) (ch_members ch))" by auto
  obtain t L where r: "reserve_ts (tc_timestamps c) (post_create_at (mark_direct ch post)) = Some (t, L)"
    using res by (cases "reserve_ts (tc_timestamps c) (post_create_at (mark_direct ch post))")
      (auto simp: add_post_to_threads_def Let_def)
  let ?p = "sanitise_post ((mark_direct ch post)\<lparr>post_create_at := t\<rparr>)"
  let ?h = "w_heap (tc_world c)"
  obtain w' s' where st: "store_thread ((tc_world c)\<lparr>w_heap := ?h @ [?p]\<rparr>) (tc_threads c)
      (sp_timestamp orig) (length ?h) = (w', s')" by fastforce
  from add_post_root [OF r root st] res
  have c': "tc_world c' = w'" "tc_threads c' = s'" by auto
  have "w_heap w' = ?h @ [?p]" using store_thread_heap [OF st] by simp
  then have "deref (w_heap w') (length ?h) = Some ?p" by (simp add: heap_simps)
  moreover have "post_is_direct ?p" "post_channel_members ?p = members_usernames (i_users im) (ch_members ch)"
    using ty chd by auto
  ultimately show ?thesis using store_then_lookup [OF st] two c' by fastforce
qed

theorem dm_root_post_marked_witness:
  "hd (i_direct demo_dm_channels) \<in> set (i_group demo_dm_channels @ i_direct demo_dm_channels) \<and>
   ch_type (hd (i_direct demo_dm_channels)) = ChannelTypeDirect \<and>
   sp_thread_ts (slack_msg ''10'' [] ''hi'') = [] \<and>
   add_post_to_threads (slack_msg ''10'' [] ''hi'') (new_post ''alice'' ''D1'' ''hi'' 10000)
     (hd (i_direct demo_dm_channels)) False demo_ctx
   = Some (the (add_post_to_threads (slack_msg ''10'' [] ''hi'') (new_post ''alice'' ''D1'' ''hi'' 10000)
     (hd (i_direct demo_dm_channels)) False demo_ctx)) \<and>
   (\<exists>a p. deref (w_heap (tc_world (the (add_post_to_threads (slack_msg ''10'' [] ''hi'')
        (new_post ''alice'' ''D1'' ''hi'' 10000) (hd (i_direct demo_dm_channels)) False demo_ctx)))) a = Some p \<and>
      post_is_direct p \<and> post_channel_members p = [''alice'', ''bob''])"
proof -
  let ?ch = "hd (i_direct demo_dm_channels)" and ?m = "slack_msg ''10'' [] ''hi''"
    and ?p = "new_post ''alice'' ''D1'' ''hi'' 10000"
  have mem: "?ch \<in> set (i_group demo_dm_channels @ i_direct demo_dm_channels)"
    by (simp add: demo_dm_channels_direct)
  have ty: "ch_type ?ch = ChannelTypeDirect" by (simp add: demo_dm_channels_direct)
  have rt: "sp_thread_ts ?m = []" by (simp add: slack_msg_def)
  have ok: "add_post_to_threads ?m ?p ?ch False demo_ctx = Some (the (add_post_to_threads ?m ?p ?ch False demo_ctx))"
    by (simp add: add_post_to_threads_def demo_dm_channels_direct reserve_ts_def demo_ctx_def
        slack_msg_def Let_def alloc_def new_memory_storage_def)
  have us: "members_usernames (i_users demo_im) (ch_members ?ch) = [''alice'', ''bob'']"
    by (simp add: demo_dm_channels_direct members_usernames_def demo_im_def demo_users_def
        List.map_filter_simps demo_user_def)
  from dm_root_post_marked [where env = demo_env and export = demo_dm_export and im = demo_im,
      folded demo_dm_channels_def, OF mem _ _ ok] ty rt us
  have "\<exists>a p. deref (w_heap (tc_world (the (add_post_to_threads ?m ?p ?ch False demo_ctx)))) a = Some p \<and>
      post_is_direct p \<and> post_channel_members p = [''alice'', ''bob'']" by auto
  with mem ty rt ok show ?thesis by blast
qed

end
